theory Spec2Isabelle
  imports Complex_Main "HOL-Library.AList"
begin

section \<open>Data model of the AI engine (js/aiEngine.js, class AIEngine)\<close>

text \<open>
  JavaScript computes with IEEE doubles. Pixel coordinates, grid indices, heatmap counters
  and timestamps are modelled as \<open>int\<close>: on integers of magnitude below \<open>2^53\<close> the sums,
  products, comparisons and floored quotients of doubles are the exact ones (lemmas
  \<open>fl_of_int\<close> and \<open>floor_quotient_exact\<close> below), and a quotient of equal numbers is
  exactly 1; the theorems on the heatmap update carry that bound. Scores, averages and the
  difficulty level are modelled as \<open>rat\<close>. The increment of a heatmap counter and the
  arithmetic of the difficulty controller (the mean of the recent scores, the thresholds
  with their constants 0.8, 1.5 and 0.5, the step of the difficulty) are rounded as doubles
  round them, by the function \<open>fl\<close> of the next section. Elsewhere (the normalised
  heatmap, the movement statistics, the visual intensity) the model computes with exact
  fractions and takes a decimal constant of the source as the fraction it denotes. A
  position is the object \<open>{x, y}\<close>.
\<close>

datatype position = Position (pos_x: int) (pos_y: int)

text \<open>The three string tags of \<open>foodPlacementStrategy\<close>: 'random', 'challenging', 'accessible'.\<close>

datatype strategy = Random | Challenging | Accessible

text \<open>The optional argument \<open>gameContext = {}\<close> of \<open>recordMovement\<close>: each field may be missing.\<close>

record context_arg =
  arg_score :: "rat option"
  arg_snakeLength :: "rat option"
  arg_foodDistance :: "rat option"

record game_context =
  score :: rat
  snakeLength :: rat
  foodDistance :: rat

record movement_record =
  timestamp :: int
  position :: position
  direction :: string
  gameContext :: game_context

record performance_metrics =
  averageScore :: rat
  averageGameDuration :: rat
  recentScores :: "rat list"
  difficultyProgression :: "rat list"
  gameStartTime :: "int option"
  totalGamesPlayed :: nat
  consecutiveHighPerformance :: nat
  consecutiveLowPerformance :: nat

record adaptation_settings =
  currentDifficulty :: rat
  foodPlacementStrategy :: strategy
  visualIntensityLevel :: int

record engine =
  gridSize :: int
  canvasWidth :: int
  canvasHeight :: int
  movementHistory :: "movement_record list"
  maxHistorySize :: nat
  gridWidth :: int
  gridHeight :: int
  movementHeatmap :: "int list list"
  performanceMetrics :: performance_metrics
  adaptationSettings :: adaptation_settings

text \<open>\<open>initializeHeatmap\<close>: \<open>gridHeight\<close> rows of \<open>gridWidth\<close> zeros.\<close>

definition initializeHeatmap :: "int \<Rightarrow> int \<Rightarrow> int list list" where
  "initializeHeatmap gw gh = replicate (nat gh) (replicate (nat gw) 0)"

text \<open>
  The constructor. \<open>Math.floor(canvasWidth / gridSize)\<close> is the floor of the exact
  quotient, which for safe integers and a positive cell size is the floor of the rounded
  quotient as well. For
  \<open>gridSize = 0\<close> the quotient is infinite or NaN in JavaScript; the model is of engines
  with \<open>gridSize \<noteq> 0\<close>.
\<close>

definition AIEngine :: "int \<Rightarrow> int \<Rightarrow> int \<Rightarrow> engine" where
  "AIEngine g cw ch =
     (let gw = \<lfloor>(of_int cw :: rat) / of_int g\<rfloor>;
          gh = \<lfloor>(of_int ch :: rat) / of_int g\<rfloor>
      in \<lparr> gridSize = g, canvasWidth = cw, canvasHeight = ch,
           movementHistory = [], maxHistorySize = 1000,
           gridWidth = gw, gridHeight = gh,
           movementHeatmap = initializeHeatmap gw gh,
           performanceMetrics =
             \<lparr> averageScore = 0, averageGameDuration = 0, recentScores = [],
               difficultyProgression = [1], gameStartTime = None, totalGamesPlayed = 0,
               consecutiveHighPerformance = 0, consecutiveLowPerformance = 0 \<rparr>,
           adaptationSettings =
             \<lparr> currentDifficulty = 1, foodPlacementStrategy = Random,
               visualIntensityLevel = 1 \<rparr> \<rparr>)"

section \<open>Rounding to doubles\<close>

text \<open>
  A finite double is a multiple \<open>m * 2^u\<close> of a power of two with \<open>\<bar>m\<bar> \<le> 2^53\<close> and
  \<open>u \<ge> -1074\<close>, and an operation of the source yields the double nearest to the exact
  result, a tie going to the even multiple. \<open>bitlen n\<close> is the number of binary digits of
  a positive integer; \<open>exponentOf a\<close> is, for positive \<open>a\<close>, the integer \<open>L\<close> with
  \<open>2^L \<le> a < 2^(L+1)\<close>.
\<close>

function bitlen :: "int \<Rightarrow> nat" where
  "bitlen n = (if n \<le> 0 then 0 else Suc (bitlen (n div 2)))"
  by pat_completeness auto

termination
  by (relation "measure nat") auto

declare bitlen.simps [simp del]

definition exponentOf :: "rat \<Rightarrow> int" where
  "exponentOf a =
     (if 1 \<le> a then int (bitlen \<lfloor>a\<rfloor>) - 1 else - int (bitlen (\<lceil>1 / a\<rceil> - 1)))"

text \<open>Rounding to the nearest integer, a half going to the even neighbour.\<close>

definition roundHalfEven :: "rat \<Rightarrow> int" where
  "roundHalfEven r =
     (let f = \<lfloor>r\<rfloor>; d = r - of_int f
      in if d < 1 / 2 then f else if d > 1 / 2 then f + 1 else if even f then f else f + 1)"

text \<open>
  The exponent of the unit in the last place of the doubles around \<open>x\<close>: 52 below the
  exponent of \<open>x\<close>, and never below -1074 (the subnormal doubles).
\<close>

definition ulpExp :: "rat \<Rightarrow> int" where
  "ulpExp x = max (exponentOf \<bar>x\<bar> - 52) (- 1074)"

text \<open>
  \<open>fl x\<close>: the double nearest to \<open>x\<close>. A result of magnitude \<open>2^1024\<close> or more, which
  JavaScript turns into Infinity, is outside the model; the theorems on the difficulty
  controller bound the scores so that none arises.
\<close>

definition fl :: "rat \<Rightarrow> rat" where
  "fl x = (if x = 0 then 0
           else of_int (roundHalfEven (x / 2 powi ulpExp x)) * 2 powi ulpExp x)"

section \<open>Movement log and heatmap update\<close>

text \<open>\<open>v || d\<close> on an optional number: a missing field and the number 0 are falsy.\<close>

definition js_or :: "rat option \<Rightarrow> rat \<Rightarrow> rat" where
  "js_or v d = (case v of None \<Rightarrow> d | Some r \<Rightarrow> if r = 0 then d else r)"

text \<open>
  The postfix \<open>++\<close> on a counter stores the double nearest to the counter plus one. For a
  counter of magnitude below \<open>2^53\<close>, as every count of recorded movements is, that is the
  counter plus one (lemma \<open>increment_exact\<close>).
\<close>

definition increment :: "int \<Rightarrow> int" where
  "increment v = \<lfloor>fl (of_int v + 1)\<rfloor>"

text \<open>
  \<open>updateHeatmapCell\<close>. The grid coordinates are the floors of the rounded quotients
  \<open>Math.floor(position.x / this.gridSize)\<close>, the bounds test is the source's. The increment
  \<open>this.movementHeatmap[gridY][gridX]++\<close> reads the stored matrix: where the row or the cell
  is missing from the matrix JavaScript raises a TypeError (row) or stores NaN (cell); both
  leave the integer model and are the result \<open>None\<close>.
\<close>

definition updateHeatmapCell :: "engine \<Rightarrow> position \<Rightarrow> engine option" where
  "updateHeatmapCell e p =
     (let gridX = \<lfloor>fl ((of_int (pos_x p) :: rat) / of_int (gridSize e))\<rfloor>;
          gridY = \<lfloor>fl ((of_int (pos_y p) :: rat) / of_int (gridSize e))\<rfloor>;
          hm = movementHeatmap e
      in if gridX \<ge> 0 \<and> gridX < gridWidth e \<and> gridY \<ge> 0 \<and> gridY < gridHeight e
         then (if nat gridY < length hm \<and> nat gridX < length (hm ! nat gridY)
               then Some (e\<lparr>movementHeatmap :=
                      hm[nat gridY := (hm ! nat gridY)[nat gridX := increment (hm ! nat gridY ! nat gridX)]]\<rparr>)
               else None)
         else Some e)"

text \<open>The loop of \<open>updateVisualIntensityFromMovement\<close> counting direction changes.\<close>

fun directionChanges :: "string list \<Rightarrow> nat" where
  "directionChanges (a # b # ds) = (if b \<noteq> a then 1 else 0) + directionChanges (b # ds)"
| "directionChanges _ = 0"

definition updateVisualIntensityFromMovement :: "engine \<Rightarrow> engine" where
  "updateVisualIntensityFromMovement e =
     (let h = movementHistory e;
          recentMovements = drop (length h - 20) h
      in if length recentMovements < 5
         then e\<lparr>adaptationSettings := (adaptationSettings e)\<lparr>visualIntensityLevel := 1\<rparr>\<rparr>
         else
           (let directions = map direction recentMovements;
                diversityRatio = (of_nat (length (remdups directions)) :: rat) / 4;
                changeRatio = (of_nat (directionChanges directions) :: rat)
                                / of_nat (length directions - 1);
                intensityScore = diversityRatio * 2 + changeRatio * 3
            in e\<lparr>adaptationSettings := (adaptationSettings e)
                   \<lparr>visualIntensityLevel := max 1 (min 5 \<lceil>intensityScore\<rceil>)\<rparr>\<rparr>))"

text \<open>The record that \<open>recordMovement\<close> creates; \<open>now\<close> is the reading of \<open>Date.now()\<close>.\<close>

definition movementRecordOf :: "int \<Rightarrow> position \<Rightarrow> string \<Rightarrow> context_arg \<Rightarrow> movement_record" where
  "movementRecordOf now p d c =
     \<lparr> timestamp = now, position = p, direction = d,
       gameContext = \<lparr> score = js_or (arg_score c) 0,
                       snakeLength = js_or (arg_snakeLength c) 1,
                       foodDistance = js_or (arg_foodDistance c) 0 \<rparr> \<rparr>"

text \<open>
  \<open>recordMovement\<close>: the record is pushed, the oldest one shifted out when the log exceeds
  \<open>maxHistorySize\<close>, then the heatmap and the visual intensity are updated.
\<close>

definition recordMovement ::
  "engine \<Rightarrow> int \<Rightarrow> position \<Rightarrow> string \<Rightarrow> context_arg \<Rightarrow> engine option" where
  "recordMovement e now p d c =
     (let pushed = movementHistory e @ [movementRecordOf now p d c];
          kept = (if length pushed > maxHistorySize e then tl pushed else pushed)
      in map_option updateVisualIntensityFromMovement
           (updateHeatmapCell (e\<lparr>movementHistory := kept\<rparr>) p))"

text \<open>A sequence of calls of \<open>recordMovement\<close>, each with its clock reading and arguments.\<close>

type_synonym movement_event = "int \<times> position \<times> string \<times> context_arg"

definition eventRecord :: "movement_event \<Rightarrow> movement_record" where
  "eventRecord ev = (case ev of (now, p, d, c) \<Rightarrow> movementRecordOf now p d c)"

fun recordMovements :: "engine \<Rightarrow> movement_event list \<Rightarrow> engine option" where
  "recordMovements e [] = Some e"
| "recordMovements e (ev # evs) =
     (case (case ev of (now, p, d, c) \<Rightarrow> recordMovement e now p d c) of
        None \<Rightarrow> None
      | Some e' \<Rightarrow> recordMovements e' evs)"

text \<open>
  The shape \<open>initializeHeatmap\<close> builds: \<open>gridHeight\<close> rows of \<open>gridWidth\<close> cells; and the
  property that no counter is negative.
\<close>

definition heatmapShape :: "engine \<Rightarrow> bool" where
  "heatmapShape e =
     (length (movementHeatmap e) = nat (gridHeight e)
      \<and> list_all (\<lambda>row. length row = nat (gridWidth e)) (movementHeatmap e))"

definition cellsNonNegative :: "int list list \<Rightarrow> bool" where
  "cellsNonNegative hm = list_all (list_all (\<lambda>v. 0 \<le> v)) hm"

section \<open>Pattern analysis and placement strategy\<close>

text \<open>
  The object returned by \<open>analyzeMovementPatterns\<close>. Below ten recorded movements the source
  returns \<open>{dominantDirections, averageGameDuration, movementDiversity}\<close>; otherwise
  \<open>{dominantDirections, directionCounts, movementDiversity, totalMovements}\<close>. A field that
  the returned object does not have is \<open>None\<close>. \<open>directionCounts\<close> is the object
  \<open>{up, down, left, right}\<close> in its key order.
\<close>

record analysis =
  dominantDirections :: "string list"
  neutralGameDuration :: "rat option"
  directionCounts :: "(string \<times> nat) list option"
  movementDiversity :: rat
  totalMovements :: "nat option"

text \<open>One step of the \<open>forEach\<close>: the counter of a direction that is a key is incremented.\<close>

definition countDirection :: "movement_record \<Rightarrow> (string \<times> nat) list \<Rightarrow> (string \<times> nat) list" where
  "countDirection r counts =
     (if direction r \<in> set (map fst counts)
      then map (\<lambda>(k, n). if k = direction r then (k, Suc n) else (k, n)) counts
      else counts)"

definition countOf :: "(string \<times> nat) list \<Rightarrow> string \<Rightarrow> nat" where
  "countOf counts d = (case map_of counts d of Some n \<Rightarrow> n | None \<Rightarrow> 0)"

definition analyzeMovementPatterns :: "engine \<Rightarrow> analysis" where
  "analyzeMovementPatterns e =
     (if length (movementHistory e) < 10
      then \<lparr> dominantDirections = [], neutralGameDuration = Some 0, directionCounts = None,
             movementDiversity = 0, totalMovements = None \<rparr>
      else
        (let counts = fold countDirection (movementHistory e)
                        [(''up'', 0), (''down'', 0), (''left'', 0), (''right'', 0)];
             totalMoves = length (movementHistory e);
             averageUsage = (of_nat totalMoves :: rat) / 4;
             dominant = sort_key (\<lambda>d. - int (countOf counts d))
                          (filter (\<lambda>d. of_nat (countOf counts d) > averageUsage) (map fst counts));
             uniqueDirections = length (filter (\<lambda>c. c > 0) (map snd counts))
         in \<lparr> dominantDirections = dominant, neutralGameDuration = None,
              directionCounts = Some counts,
              movementDiversity = (of_nat uniqueDirections :: rat) / 4,
              totalMovements = Some totalMoves \<rparr>))"

definition getStrategyByDifficulty :: "rat \<Rightarrow> strategy" where
  "getStrategyByDifficulty difficulty =
     (if difficulty \<ge> 7 then Challenging
      else if difficulty \<le> 3 then Accessible
      else Random)"

text \<open>
  \<open>determinePlacementStrategy\<close> returns the strategy and the engine, whose
  \<open>foodPlacementStrategy\<close> is written on the second path only. The guard
  \<open>movementAnalysis.totalMovements < 20\<close> compares \<open>undefined\<close> with 20 when the analysis
  has no such field, which is false in JavaScript.
\<close>

definition determinePlacementStrategy :: "engine \<Rightarrow> strategy \<times> engine" where
  "determinePlacementStrategy e =
     (let movementAnalysis = analyzeMovementPatterns e;
          currentDiff = currentDifficulty (adaptationSettings e)
      in if (case totalMovements movementAnalysis of None \<Rightarrow> False | Some n \<Rightarrow> n < 20)
         then (getStrategyByDifficulty currentDiff, e)
         else
           (let byPattern =
                  (if movementDiversity movementAnalysis < 6 / 10 then Challenging
                   else if movementDiversity movementAnalysis > 8 / 10 then Accessible
                   else getStrategyByDifficulty currentDiff);
                chosen =
                  (if currentDiff \<ge> 7 then Challenging
                   else if currentDiff \<le> 2
                        then (if byPattern = Challenging then Random else byPattern)
                        else byPattern)
            in (chosen, e\<lparr>adaptationSettings :=
                            (adaptationSettings e)\<lparr>foodPlacementStrategy := chosen\<rparr>\<rparr>)))"

section \<open>Normalised heatmap and cold spots\<close>

text \<open>
  A read \<open>this.movementHeatmap[y][x]\<close> inside the loops over \<open>gridHeight\<close> and \<open>gridWidth\<close>.
  A read outside the stored matrix (a missing row is a TypeError in JavaScript, a missing
  cell is \<open>undefined\<close>) leaves the integer model: \<open>None\<close>.
\<close>

definition readCell :: "int list list \<Rightarrow> nat \<Rightarrow> nat \<Rightarrow> int option" where
  "readCell hm r c = (if r < length hm \<and> c < length (hm ! r) then Some (hm ! r ! c) else None)"

text \<open>The first pair of loops of \<open>generateHeatmap\<close>: the running \<open>Math.max\<close>.\<close>

fun maxOverRow :: "int list list \<Rightarrow> nat \<Rightarrow> nat list \<Rightarrow> int \<Rightarrow> int option" where
  "maxOverRow hm r [] m = Some m"
| "maxOverRow hm r (c # cs) m =
     (case readCell hm r c of None \<Rightarrow> None | Some v \<Rightarrow> maxOverRow hm r cs (max m v))"

fun maxOverGrid :: "int list list \<Rightarrow> nat \<Rightarrow> nat list \<Rightarrow> int \<Rightarrow> int option" where
  "maxOverGrid hm w [] m = Some m"
| "maxOverGrid hm w (r # rs) m =
     (case maxOverRow hm r [0..<w] m of None \<Rightarrow> None | Some m' \<Rightarrow> maxOverGrid hm w rs m')"

text \<open>The second pair of loops: one row of the normalised copy.\<close>

definition normalizeRow :: "int list list \<Rightarrow> int \<Rightarrow> nat \<Rightarrow> nat \<Rightarrow> rat list option" where
  "normalizeRow hm maxValue w r =
     those (map (\<lambda>c. if maxValue > 0
                     then map_option (\<lambda>v. of_int v / of_int maxValue) (readCell hm r c)
                     else Some 0) [0..<w])"

definition generateHeatmap :: "engine \<Rightarrow> rat list list option" where
  "generateHeatmap e =
     (let w = nat (gridWidth e); h = nat (gridHeight e); hm = movementHeatmap e
      in case maxOverGrid hm w [0..<h] 0 of
           None \<Rightarrow> None
         | Some maxValue \<Rightarrow> those (map (normalizeRow hm maxValue w) [0..<h]))"

text \<open>An entry of the lists built by \<open>getColdspots\<close>.\<close>

record spot =
  spot_x :: int
  spot_y :: int
  gridX :: nat
  gridY :: nat
  intensity :: rat
  rawCount :: int



section \<open>Food placement\<close>









section \<open>Visual intensity from difficulty\<close>

text \<open>The local constant \<open>difficultyIntensityModifier = Math.ceil(currentDifficulty / 3.33)\<close>.\<close>

definition difficultyIntensityModifier :: "rat \<Rightarrow> int" where
  "difficultyIntensityModifier currentDiff = \<lceil>currentDiff / (333 / 100)\<rceil>"

text \<open>
  The local constant \<open>combinedIntensity\<close>; \<open>Math.round\<close> rounds a half upwards, as
  \<^const>\<open>round\<close> does.
\<close>

definition combinedIntensity :: "int \<Rightarrow> int \<Rightarrow> int" where
  "combinedIntensity movementBasedIntensity modifier =
     min 5 (max 1 (round ((of_int movementBasedIntensity + of_int modifier :: rat) / 2)))"

definition updateVisualIntensityFromDifficulty :: "engine \<Rightarrow> engine" where
  "updateVisualIntensityFromDifficulty e =
     (let currentDiff = currentDifficulty (adaptationSettings e);
          movementBasedIntensity = visualIntensityLevel (adaptationSettings e)
      in e\<lparr>adaptationSettings := (adaptationSettings e)
             \<lparr>visualIntensityLevel :=
                combinedIntensity movementBasedIntensity (difficultyIntensityModifier currentDiff)\<rparr>\<rparr>)"

section \<open>Performance and difficulty\<close>

text \<open>
  The mean \<open>scores.reduce((sum, score) => sum + score, 0) / scores.length\<close>, which
  \<open>calculateDifficulty\<close> and \<open>endGameSession\<close> both compute: every addition and the
  division round to a double.
\<close>

definition meanScore :: "rat list \<Rightarrow> rat" where
  "meanScore scores =
     fl (foldl (\<lambda>sum score. fl (sum + score)) 0 scores / of_nat (length scores))"

definition averageRecentScore :: "engine \<Rightarrow> rat" where
  "averageRecentScore e = meanScore (recentScores (performanceMetrics e))"

text \<open>
  The thresholds. The literals 0.8, 1.5 and 0.5 denote the doubles nearest to them, and each
  product rounds.
\<close>

definition scoreThreshold :: "engine \<Rightarrow> rat" where
  "scoreThreshold e = max 50 (fl (averageScore (performanceMetrics e) * fl (8 / 10)))"

definition highPerformanceThreshold :: "engine \<Rightarrow> rat" where
  "highPerformanceThreshold e = fl (scoreThreshold e * fl (15 / 10))"

definition lowPerformanceThreshold :: "engine \<Rightarrow> rat" where
  "lowPerformanceThreshold e = fl (scoreThreshold e * fl (5 / 10))"

text \<open>
  \<open>calculateDifficulty\<close> returns the stored difficulty and the engine. The streak counters are
  updated first; the difficulty, its progression and the visual intensity only when the new
  difficulty differs from the current one. The sum \<open>currentDifficulty + 1\<close> and the
  difference \<open>currentDifficulty - 1\<close> round to doubles; on the levels 1 to 10 they are exact.
\<close>

definition calculateDifficulty :: "engine \<Rightarrow> rat \<times> engine" where
  "calculateDifficulty e =
     (let pm = performanceMetrics e;
          currentDiff = currentDifficulty (adaptationSettings e)
      in if length (recentScores pm) < 3 then (currentDiff, e)
         else
           (let (newDifficulty, pm') =
                  (if averageRecentScore e \<ge> highPerformanceThreshold e
                   then (let high = Suc (consecutiveHighPerformance pm)
                         in if high \<ge> 3 \<and> currentDiff < 10
                            then (min 10 (fl (currentDiff + 1)),
                                  pm\<lparr>consecutiveHighPerformance := 0,
                                     consecutiveLowPerformance := 0\<rparr>)
                            else (currentDiff,
                                  pm\<lparr>consecutiveHighPerformance := high,
                                     consecutiveLowPerformance := 0\<rparr>))
                   else if averageRecentScore e \<le> lowPerformanceThreshold e
                   then (let low = Suc (consecutiveLowPerformance pm)
                         in if low \<ge> 3 \<and> currentDiff > 1
                            then (max 1 (fl (currentDiff - 1)),
                                  pm\<lparr>consecutiveLowPerformance := 0,
                                     consecutiveHighPerformance := 0\<rparr>)
                            else (currentDiff,
                                  pm\<lparr>consecutiveLowPerformance := low,
                                     consecutiveHighPerformance := 0\<rparr>))
                   else (currentDiff,
                         pm\<lparr>consecutiveHighPerformance := 0, consecutiveLowPerformance := 0\<rparr>))
            in if newDifficulty \<noteq> currentDiff
               then (newDifficulty,
                     updateVisualIntensityFromDifficulty
                       (e\<lparr>adaptationSettings :=
                            (adaptationSettings e)\<lparr>currentDifficulty := newDifficulty\<rparr>,
                          performanceMetrics :=
                            pm'\<lparr>difficultyProgression :=
                                  difficultyProgression pm' @ [newDifficulty]\<rparr>\<rparr>))
               else (currentDiff, e\<lparr>performanceMetrics := pm'\<rparr>)))"

definition startGameSession :: "engine \<Rightarrow> int \<Rightarrow> engine" where
  "startGameSession e now =
     e\<lparr>performanceMetrics := (performanceMetrics e)\<lparr>gameStartTime := Some now\<rparr>\<rparr>"

text \<open>
  \<open>endGameSession\<close> in two parts; \<open>now\<close> is the reading of \<open>Date.now()\<close>. A start time
  that is \<open>null\<close> or 0 is falsy and gives the duration 0. \<open>sessionMetrics\<close> is the body up
  to its last statement, the update of the performance metrics: it is the state that the
  last statement, the call of \<open>calculateDifficulty\<close>, evaluates.
\<close>

definition sessionMetrics :: "engine \<Rightarrow> int \<Rightarrow> rat \<Rightarrow> engine" where
  "sessionMetrics e now finalScore =
     (let pm = performanceMetrics e;
          gameDuration = (case gameStartTime pm of
                            None \<Rightarrow> 0
                          | Some t \<Rightarrow> if t \<noteq> 0 then now - t else 0);
          totalGames = Suc (totalGamesPlayed pm);
          pushed = recentScores pm @ [finalScore];
          allScores = (if length pushed > 5 then tl pushed else pushed);
          average = (if length allScores > 0 then meanScore allScores else 0);
          duration = (if gameDuration > 0
                      then fl (fl (fl (averageGameDuration pm * of_nat (totalGames - 1))
                                     + of_int gameDuration)
                                 / of_nat totalGames)
                      else averageGameDuration pm)
      in e\<lparr>performanceMetrics :=
             pm\<lparr>totalGamesPlayed := totalGames, recentScores := allScores,
                averageScore := average, averageGameDuration := duration,
                gameStartTime := None\<rparr>\<rparr>)"

definition endGameSession :: "engine \<Rightarrow> int \<Rightarrow> rat \<Rightarrow> engine" where
  "endGameSession e now finalScore = snd (calculateDifficulty (sessionMetrics e now finalScore))"

definition setDifficulty :: "engine \<Rightarrow> rat \<Rightarrow> engine" where
  "setDifficulty e difficulty =
     (if difficulty \<ge> 1 \<and> difficulty \<le> 10
      then e\<lparr>adaptationSettings := (adaptationSettings e)\<lparr>currentDifficulty := difficulty\<rparr>,
             performanceMetrics := (performanceMetrics e)
               \<lparr>difficultyProgression :=
                  difficultyProgression (performanceMetrics e) @ [difficulty]\<rparr>\<rparr>
      else e)"

section \<open>Restoring a snapshot: \<open>loadBehaviorData\<close> and \<open>isValidAIBehaviorData\<close>\<close>

text \<open>
  \<open>loadBehaviorData(data)\<close> accepts any JavaScript value, so the snapshot is a value of
  \<open>jsval\<close> and the three fields it assigns are held untyped. An object is the list of its own
  properties; where a key occurs twice the first binding is the property.
\<close>

datatype jsval =
    JUndefined
  | JNull
  | JBool bool
  | JNum rat
  | JStr string
  | JArr "jsval list"
  | JObj "(string \<times> jsval) list"

datatype js_error = TypeError

fun truthy :: "jsval \<Rightarrow> bool" where
  "truthy JUndefined = False"
| "truthy JNull = False"
| "truthy (JBool b) = b"
| "truthy (JNum r) = (r \<noteq> 0)"
| "truthy (JStr s) = (s \<noteq> [])"
| "truthy (JArr xs) = True"
| "truthy (JObj kvs) = True"

text \<open>The decimal numeral of an array index, the key under which an element is stored.\<close>

fun decimal :: "nat \<Rightarrow> string" where
  "decimal n =
     (if n < 10 then [''0123456789'' ! n]
      else decimal (n div 10) @ [''0123456789'' ! (n mod 10)])"

declare decimal.simps [simp del]

text \<open>The own enumerable properties: what the spread \<open>{...v}\<close> copies.\<close>

fun ownProperties :: "jsval \<Rightarrow> (string \<times> jsval) list" where
  "ownProperties (JObj kvs) = kvs"
| "ownProperties (JArr xs) = zip (map decimal [0..<length xs]) xs"
| "ownProperties (JStr s) = zip (map decimal [0..<length s]) (map (\<lambda>c. JStr [c]) s)"
| "ownProperties _ = []"

definition lookup :: "(string \<times> jsval) list \<Rightarrow> string \<Rightarrow> jsval" where
  "lookup kvs k = (case map_of kvs k of Some v \<Rightarrow> v | None \<Rightarrow> JUndefined)"

text \<open>
  The read \<open>v.k\<close> of a value that is neither \<open>null\<close> nor \<open>undefined\<close>, for a name \<open>k\<close> that
  no prototype defines: an own property, the length of an array or a string, or \<open>undefined\<close>.
\<close>

fun readProperty :: "jsval \<Rightarrow> string \<Rightarrow> jsval" where
  "readProperty (JArr xs) k =
     (if k = ''length'' then JNum (of_nat (length xs)) else lookup (ownProperties (JArr xs)) k)"
| "readProperty (JStr s) k =
     (if k = ''length'' then JNum (of_nat (length s)) else lookup (ownProperties (JStr s)) k)"
| "readProperty v k = lookup (ownProperties v) k"

text \<open>The read \<open>v.k\<close> in general: reading a property of \<open>null\<close> or \<open>undefined\<close> throws.\<close>

definition getProperty :: "jsval \<Rightarrow> string \<Rightarrow> js_error + jsval" where
  "getProperty v k = (if v = JNull \<or> v = JUndefined then Inl TypeError else Inr (readProperty v k))"

text \<open>The three fields of the engine that \<open>loadBehaviorData\<close> assigns.\<close>

record store =
  st_movementHeatmap :: jsval
  st_performanceMetrics :: "(string \<times> jsval) list"
  st_adaptationSettings :: "(string \<times> jsval) list"

text \<open>
  \<open>loadBehaviorData\<close>. The method has no \<open>return\<close> statement: its value is \<open>undefined\<close>.
  \<open>{...a, ...b}\<close> is \<open>a\<close> updated with the own properties of \<open>b\<close>.
\<close>

definition loadBehaviorData :: "store \<Rightarrow> jsval \<Rightarrow> js_error + (jsval \<times> store)" where
  "loadBehaviorData s data =
     (case getProperty data ''movementHeatmap'' of
        Inl err \<Rightarrow> Inl err
      | Inr heatmap \<Rightarrow>
          (let s1 = (if truthy heatmap then s\<lparr>st_movementHeatmap := heatmap\<rparr> else s)
           in case getProperty data ''performanceMetrics'' of
                Inl err \<Rightarrow> Inl err
              | Inr metrics \<Rightarrow>
                  (let s2 = (if truthy metrics
                             then s1\<lparr>st_performanceMetrics :=
                                      AList.merge (st_performanceMetrics s1) (ownProperties metrics)\<rparr>
                             else s1)
                   in case getProperty data ''adaptationSettings'' of
                        Inl err \<Rightarrow> Inl err
                      | Inr settings \<Rightarrow>
                          Inr (JUndefined,
                               if truthy settings
                               then s2\<lparr>st_adaptationSettings :=
                                        AList.merge (st_adaptationSettings s2) (ownProperties settings)\<rparr>
                               else s2))))"

text \<open>\<open>Array.isArray\<close> and \<open>typeof v === 'number'\<close>.\<close>

fun isArray :: "jsval \<Rightarrow> bool" where
  "isArray (JArr xs) = True"
| "isArray _ = False"

fun isNumber :: "jsval \<Rightarrow> bool" where
  "isNumber (JNum r) = True"
| "isNumber _ = False"

fun elements :: "jsval \<Rightarrow> jsval list" where
  "elements (JArr xs) = xs"
| "elements _ = []"

text \<open>
  \<open>isValidAIBehaviorData\<close> (js/types.js), as the truth value of the conjunction it returns.
  Every property read is on a value already found truthy.
\<close>

definition isValidAIBehaviorData :: "jsval \<Rightarrow> bool" where
  "isValidAIBehaviorData obj =
     (let heatmap = readProperty obj ''movementHeatmap'';
          metrics = readProperty obj ''performanceMetrics'';
          settings = readProperty obj ''adaptationSettings''
      in truthy obj
         \<and> isArray heatmap
         \<and> list_all (\<lambda>row. isArray row \<and> list_all isNumber (elements row)) (elements heatmap)
         \<and> truthy metrics
         \<and> isNumber (readProperty metrics ''averageScore'')
         \<and> isNumber (readProperty metrics ''averageGameDuration'')
         \<and> isArray (readProperty metrics ''recentScores'')
         \<and> isArray (readProperty metrics ''difficultyProgression'')
         \<and> truthy settings
         \<and> isNumber (readProperty settings ''currentDifficulty'')
         \<and> readProperty settings ''foodPlacementStrategy''
              \<in> set [JStr ''random'', JStr ''challenging'', JStr ''accessible'']
         \<and> isNumber (readProperty settings ''visualIntensityLevel''))"

text \<open>The typed engine seen as the three untyped fields.\<close>

definition strategyTag :: "strategy \<Rightarrow> string" where
  "strategyTag s = (case s of Random \<Rightarrow> ''random'' | Challenging \<Rightarrow> ''challenging''
                     | Accessible \<Rightarrow> ''accessible'')"

definition numbers :: "rat list \<Rightarrow> jsval" where
  "numbers rs = JArr (map JNum rs)"

definition storeOf :: "engine \<Rightarrow> store" where
  "storeOf e =
     \<lparr> st_movementHeatmap = JArr (map (\<lambda>row. numbers (map of_int row)) (movementHeatmap e)),
       st_performanceMetrics =
         [(''averageScore'', JNum (averageScore (performanceMetrics e))),
          (''averageGameDuration'', JNum (averageGameDuration (performanceMetrics e))),
          (''recentScores'', numbers (recentScores (performanceMetrics e))),
          (''difficultyProgression'', numbers (difficultyProgression (performanceMetrics e))),
          (''gameStartTime'', (case gameStartTime (performanceMetrics e) of
                                 None \<Rightarrow> JNull | Some t \<Rightarrow> JNum (of_int t))),
          (''totalGamesPlayed'', JNum (of_nat (totalGamesPlayed (performanceMetrics e)))),
          (''consecutiveHighPerformance'',
             JNum (of_nat (consecutiveHighPerformance (performanceMetrics e)))),
          (''consecutiveLowPerformance'',
             JNum (of_nat (consecutiveLowPerformance (performanceMetrics e))))],
       st_adaptationSettings =
         [(''currentDifficulty'', JNum (currentDifficulty (adaptationSettings e))),
          (''foodPlacementStrategy'', JStr (strategyTag (foodPlacementStrategy (adaptationSettings e)))),
          (''visualIntensityLevel'', JNum (of_int (visualIntensityLevel (adaptationSettings e))))] \<rparr>"

text \<open>Three consecutive evaluations by \<open>calculateDifficulty\<close> with nothing in between.\<close>

definition threeEvaluations :: "engine \<Rightarrow> engine" where
  "threeEvaluations e = snd (calculateDifficulty (snd (calculateDifficulty (snd (calculateDifficulty e)))))"

text \<open>How often a direction occurs in the movement log.\<close>

definition occurrences :: "string \<Rightarrow> movement_record list \<Rightarrow> nat" where
  "occurrences d h = length (filter (\<lambda>r. direction r = d) h)"

section \<open>Example engines and the difficulty invariant\<close>

text \<open>
  The engine on the two by two grid holding a given difficulty, recent scores and average
  score; everything else as the constructor leaves it.
\<close>

definition engineHolding :: "rat \<Rightarrow> rat list \<Rightarrow> rat \<Rightarrow> engine" where
  "engineHolding d scores average =
     (AIEngine 20 40 40)
       \<lparr> performanceMetrics :=
           (performanceMetrics (AIEngine 20 40 40))\<lparr>recentScores := scores, averageScore := average\<rparr>,
         adaptationSettings :=
           (adaptationSettings (AIEngine 20 40 40))\<lparr>currentDifficulty := d\<rparr> \<rparr>"

text \<open>Sessions ended one after the other with the given final scores, the clock reading 0.\<close>

definition playSessions :: "engine \<Rightarrow> rat list \<Rightarrow> engine" where
  "playSessions e finalScores = foldl (\<lambda>e' finalScore. endGameSession e' 0 finalScore) e finalScores"

text \<open>\<open>getBehaviorData\<close>: the object holding the three fields, the snapshot that is persisted.\<close>

definition getBehaviorData :: "store \<Rightarrow> jsval" where
  "getBehaviorData s =
     JObj [(''movementHeatmap'', st_movementHeatmap s),
           (''performanceMetrics'', JObj (st_performanceMetrics s)),
           (''adaptationSettings'', JObj (st_adaptationSettings s))]"

text \<open>The default \<open>gameContext = {}\<close>.\<close>

definition noContext :: context_arg where
  "noContext = \<lparr> arg_score = None, arg_snakeLength = None, arg_foodDistance = None \<rparr>"

text \<open>
  Twenty-five movements to the right along the top row, then five movements down the left
  column, each at a cell of its own, at the clock readings 0 to 29.
\<close>

definition rightThenDown :: "movement_event list" where
  "rightThenDown =
     map (\<lambda>i. (int i, Position (20 * int i + 20) 0, ''right'', noContext)) [0..<25]
     @ map (\<lambda>i. (25 + int i, Position 0 (20 * int i + 20), ''down'', noContext)) [0..<5]"


text \<open>A difficulty level of the data model: an integer from 1 to 10.\<close>

definition validDifficulty :: "rat \<Rightarrow> bool" where
  "validDifficulty d = (1 \<le> d \<and> d \<le> 10 \<and> of_int \<lfloor>d\<rfloor> = d)"

text \<open>The safe integers: those of magnitude below \<open>2^53\<close>.\<close>

definition safeInteger :: "int \<Rightarrow> bool" where
  "safeInteger n = (\<bar>n\<bar> < 2 ^ 53)"

text \<open>
  A double of magnitude at most \<open>2^960\<close>: far enough below the largest double, which is
  less than \<open>2^1024\<close>, for a sum of fewer than \<open>2^32\<close> such numbers and for their products
  with 0.8 and 1.5 to stay finite.
\<close>

definition doubleInRange :: "rat \<Rightarrow> bool" where
  "doubleInRange x = (fl x = x \<and> \<bar>x\<bar> \<le> 2 ^ 960)"

text \<open>
  The numbers that an evaluation by \<open>calculateDifficulty\<close> reads are such doubles, and the
  array of recent scores is shorter than \<open>2^32\<close>, as every JavaScript array is.
\<close>

definition numbersInRange :: "engine \<Rightarrow> bool" where
  "numbersInRange e =
     (length (recentScores (performanceMetrics e)) < 2 ^ 32
      \<and> list_all doubleInRange (recentScores (performanceMetrics e))
      \<and> doubleInRange (averageScore (performanceMetrics e)))"

text \<open>
  An evaluation by \<open>calculateDifficulty\<close> that takes the high-performance branch: at least
  three recent scores, and their mean at or above the high-performance threshold; and one
  with the mean at or below the low-performance threshold.
\<close>

definition highEvaluation :: "engine \<Rightarrow> bool" where
  "highEvaluation e =
     (3 \<le> length (recentScores (performanceMetrics e))
      \<and> averageRecentScore e \<ge> highPerformanceThreshold e)"

definition lowEvaluation :: "engine \<Rightarrow> bool" where
  "lowEvaluation e =
     (3 \<le> length (recentScores (performanceMetrics e))
      \<and> averageRecentScore e \<le> lowPerformanceThreshold e)"

text \<open>
  \<open>sameController a b\<close>: the difficulty and the two streak counters of \<open>b\<close> are those of
  \<open>a\<close>; every other field may differ.
\<close>

definition sameController :: "engine \<Rightarrow> engine \<Rightarrow> bool" where
  "sameController a b =
     (currentDifficulty (adaptationSettings b) = currentDifficulty (adaptationSettings a)
      \<and> consecutiveHighPerformance (performanceMetrics b)
          = consecutiveHighPerformance (performanceMetrics a)
      \<and> consecutiveLowPerformance (performanceMetrics b)
          = consecutiveLowPerformance (performanceMetrics a))"

text \<open>
  The engine with other recent scores and another average score, as \<open>loadBehaviorData\<close>
  installs them from a snapshot that carries these two fields.
\<close>

definition withScores :: "engine \<Rightarrow> rat list \<Rightarrow> rat \<Rightarrow> engine" where
  "withScores e scores average =
     e\<lparr>performanceMetrics := (performanceMetrics e)\<lparr>recentScores := scores, averageScore := average\<rparr>\<rparr>"

text \<open>
  Three sessions in a row on the two by two grid at difficulty 4: after the sessions scoring
  5 and 6, which are too few for an evaluation, the sessions scoring 4, 5 and 5. These are
  the three states that \<open>endGameSession\<close> hands to \<open>calculateDifficulty\<close>.
\<close>

definition firstLowSession :: engine where
  "firstLowSession = sessionMetrics (playSessions (engineHolding 4 [] 0) [5, 6]) 0 4"

definition secondLowSession :: engine where
  "secondLowSession = sessionMetrics (snd (calculateDifficulty firstLowSession)) 0 5"

definition thirdLowSession :: engine where
  "thirdLowSession = sessionMetrics (snd (calculateDifficulty secondLowSession)) 0 5"

text \<open>
  Three evaluations at difficulty 4 with other scores and another average before each:
  means 100, about 106.7 and 120 against the thresholds 75, 75 and 108.
\<close>

definition firstHighState :: engine where
  "firstHighState = engineHolding 4 [100, 100, 100] 0"

definition secondHighState :: engine where
  "secondHighState = withScores (snd (calculateDifficulty firstHighState)) [100, 100, 120] 60"

definition thirdHighState :: engine where
  "thirdHighState = withScores (snd (calculateDifficulty secondHighState)) [100, 120, 140] 90"

section \<open>Properties of the rounding\<close>

lemma bitlen_bounds: "0 < n \<Longrightarrow> 2 ^ (bitlen n - 1) \<le> n \<and> n < 2 ^ bitlen n"
proof (induction n rule: bitlen.induct)
  case (1 n)
  show ?case
  proof (cases "n = 1")
    case True
    then show ?thesis by (simp add: bitlen.simps[of 1] bitlen.simps[of 0])
  next
    case False
    with 1 have h: "0 < n div 2" by simp
    have ih: "2 ^ (bitlen (n div 2) - 1) \<le> n div 2 \<and> n div 2 < 2 ^ bitlen (n div 2)"
      using 1 h by simp
    have b: "bitlen n = Suc (bitlen (n div 2))" using 1(2) by (subst bitlen.simps) simp
    have pos: "0 < bitlen (n div 2)" using h by (subst bitlen.simps) simp
    have "2 ^ (bitlen n - 1) = (2::int) ^ (bitlen (n div 2))" by (simp add: b)
    also have "\<dots> = 2 * 2 ^ (bitlen (n div 2) - 1)" using pos by (cases "bitlen (n div 2)") simp_all
    also have "\<dots> \<le> 2 * (n div 2)" using ih by simp
    also have "\<dots> \<le> n" by simp
    finally have lo: "2 ^ (bitlen n - 1) \<le> n" .
    have "n < 2 * (n div 2 + 1)" by simp
    also have "\<dots> \<le> 2 * 2 ^ bitlen (n div 2)" using ih by simp
    also have "\<dots> = 2 ^ bitlen n" by (simp add: b)
    finally show ?thesis using lo by simp
  qed
qed

lemma bitlen_pos: "0 < n \<Longrightarrow> 0 < bitlen n"
  by (subst bitlen.simps) simp

lemma bitlen_powi:
  assumes "0 < n"
  shows "(2::rat) powi (int (bitlen n) - 1) \<le> of_int n" "(of_int n :: rat) < 2 powi (int (bitlen n))"
proof -
  have i: "int (bitlen n) - 1 = int (bitlen n - 1)" using bitlen_pos[OF assms] by simp
  have "(of_int (2 ^ (bitlen n - 1)) :: rat) \<le> of_int n"
    using bitlen_bounds[OF assms] by (simp only: of_int_le_iff)
  then show "(2::rat) powi (int (bitlen n) - 1) \<le> of_int n" by (simp add: i)
  have "(of_int n :: rat) < of_int (2 ^ bitlen n)"
    using bitlen_bounds[OF assms] by (simp only: of_int_less_iff)
  then show "(of_int n :: rat) < 2 powi (int (bitlen n))" by simp
qed

text \<open>The exponent is the one that brackets a positive number between two powers of two.\<close>

lemma exponentOf_bounds:
  assumes a: "0 < a"
  shows "2 powi (exponentOf a) \<le> a \<and> a < 2 powi (exponentOf a + 1)"
proof (cases "1 \<le> a")
  case True
  then have n: "0 < \<lfloor>a\<rfloor>" by simp
  have e: "exponentOf a = int (bitlen \<lfloor>a\<rfloor>) - 1" using True by (simp add: exponentOf_def)
  have "(2::rat) powi (exponentOf a) \<le> of_int \<lfloor>a\<rfloor>" unfolding e by (rule bitlen_powi(1)[OF n])
  also have "\<dots> \<le> a" by simp
  finally have lo: "2 powi (exponentOf a) \<le> a" .
  have "\<lfloor>a\<rfloor> < 2 ^ bitlen \<lfloor>a\<rfloor>" using bitlen_bounds[OF n] by simp
  then have "\<lfloor>a\<rfloor> + 1 \<le> 2 ^ bitlen \<lfloor>a\<rfloor>" by simp
  then have "(of_int (\<lfloor>a\<rfloor> + 1) :: rat) \<le> of_int (2 ^ bitlen \<lfloor>a\<rfloor>)" by (simp only: of_int_le_iff)
  then have "(of_int \<lfloor>a\<rfloor> + 1 :: rat) \<le> 2 powi (exponentOf a + 1)"
    by (simp add: e)
  moreover have "a < of_int \<lfloor>a\<rfloor> + 1" by linarith
  ultimately show ?thesis using lo by simp
next
  case False
  define b where "b = 1 / a"
  define n where "n = \<lceil>b\<rceil> - 1"
  define m where "m = bitlen n"
  have b1: "1 < b" using a False by (simp add: b_def)
  have n: "0 < n" using b1 by (simp add: n_def less_ceiling_iff)
  have e: "exponentOf a = - int m" using False by (simp add: exponentOf_def m_def n_def b_def)
  have nb: "of_int n < b" "b \<le> of_int n + 1"
    unfolding n_def by (simp_all add: le_of_int_ceiling) linarith
  have m1: "(2::rat) powi (int m - 1) \<le> of_int n"
    using bitlen_powi[OF n] by (simp_all add: m_def)
  have "n < 2 ^ m" using bitlen_bounds[OF n] by (simp add: m_def)
  then have "n + 1 \<le> 2 ^ m" by simp
  then have "(of_int (n + 1) :: rat) \<le> of_int (2 ^ m)" by (simp only: of_int_le_iff)
  then have "b \<le> 2 powi (int m)" using nb(2) by simp
  then have "1 / 2 powi (int m) \<le> 1 / b"
    using b1 by (intro divide_left_mono) simp_all
  then have lo: "2 powi (exponentOf a) \<le> a"
    by (simp add: e b_def power_int_minus_divide)
  have "(2::rat) powi (int m - 1) < b" using m1 nb(1) by simp
  then have "1 / b < 1 / 2 powi (int m - 1)"
    using b1 by (intro divide_strict_left_mono) (simp_all add: zero_less_power_int)
  moreover have "(1::rat) / 2 powi (int m - 1) = 2 powi (- int m + 1)"
    by (simp add: power_int_minus_divide[symmetric])
  ultimately have "a < 2 powi (exponentOf a + 1)"
    by (simp add: e b_def)
  with lo show ?thesis by simp
qed

lemma roundHalfEven_error: "\<bar>of_int (roundHalfEven r) - r\<bar> \<le> 1 / 2"
proof -
  have f: "of_int \<lfloor>r\<rfloor> \<le> r" "r < of_int \<lfloor>r\<rfloor> + 1" by linarith+
  show ?thesis
    unfolding roundHalfEven_def Let_def using f
    by (auto simp: abs_le_iff)
qed

lemma roundHalfEven_of_int: "roundHalfEven (of_int n) = n"
  by (simp add: roundHalfEven_def)

lemma roundHalfEven_mono: "r \<le> s \<Longrightarrow> roundHalfEven r \<le> roundHalfEven s"
proof -
  assume rs: "r \<le> s"
  have m: "\<lfloor>r\<rfloor> \<le> \<lfloor>s\<rfloor>" using rs by (rule floor_mono)
  show ?thesis
  proof (cases "\<lfloor>r\<rfloor> = \<lfloor>s\<rfloor>")
    case True
    then show ?thesis
      using rs unfolding roundHalfEven_def Let_def by auto
  next
    case False
    with m have "\<lfloor>r\<rfloor> + 1 \<le> \<lfloor>s\<rfloor>" by simp
    moreover have "roundHalfEven r \<le> \<lfloor>r\<rfloor> + 1" unfolding roundHalfEven_def Let_def by auto
    moreover have "\<lfloor>s\<rfloor> \<le> roundHalfEven s" unfolding roundHalfEven_def Let_def by auto
    ultimately show ?thesis by linarith
  qed
qed

lemma roundHalfEven_minus: "roundHalfEven (- r) = - roundHalfEven r"
proof (cases "of_int \<lfloor>r\<rfloor> = r")
  case True
  then obtain n where "r = of_int n" by metis
  then show ?thesis by (simp add: roundHalfEven_of_int flip: of_int_minus)
next
  case False
  then have c: "\<lfloor>- r\<rfloor> = - \<lfloor>r\<rfloor> - 1"
    by (metis ceiling_altdef ceiling_def add_diff_cancel_right' minus_diff_eq uminus_add_conv_diff)
  have fr: "of_int \<lfloor>r\<rfloor> < r" "r < of_int \<lfloor>r\<rfloor> + 1" using False by linarith+
  show ?thesis
    unfolding roundHalfEven_def Let_def c using fr
    by (auto simp: algebra_simps)
qed

lemma fl_0: "fl 0 = 0"
  by (simp add: fl_def)

lemma fl_ulp: "x \<noteq> 0 \<Longrightarrow> fl x = of_int (roundHalfEven (x / 2 powi ulpExp x)) * 2 powi ulpExp x"
  by (simp add: fl_def)

lemma ulpExp_minus: "ulpExp (- x) = ulpExp x"
  by (simp add: ulpExp_def)

lemma fl_minus: "fl (- x) = - fl x"
  by (simp add: fl_def ulpExp_minus roundHalfEven_minus)

text \<open>The rounding error is at most half a unit in the last place.\<close>

lemma fl_error:
  assumes "x \<noteq> 0"
  shows "\<bar>fl x - x\<bar> \<le> 2 powi (ulpExp x - 1)"
proof -
  let ?u = "(2::rat) powi ulpExp x"
  have u: "0 < ?u" by (simp add: zero_less_power_int)
  have "fl x - x = (of_int (roundHalfEven (x / ?u)) - x / ?u) * ?u"
    using u by (simp add: fl_ulp[OF assms] left_diff_distrib)
  then have "\<bar>fl x - x\<bar> = \<bar>of_int (roundHalfEven (x / ?u)) - x / ?u\<bar> * ?u"
    using u by (simp only: abs_mult abs_of_pos)
  also have "\<dots> \<le> 1 / 2 * ?u"
    using u by (intro mult_right_mono roundHalfEven_error) simp
  also have "\<dots> = 2 powi (ulpExp x - 1)"
    by (simp add: power_int_diff)
  finally show ?thesis .
qed

lemma ulpExp_bounds:
  assumes "x \<noteq> 0"
  shows "\<bar>x\<bar> < 2 powi (ulpExp x + 53)"
    and "- 1074 < ulpExp x \<Longrightarrow> 2 powi (ulpExp x + 52) \<le> \<bar>x\<bar>"
    and "- 1074 \<le> ulpExp x"
proof -
  have a: "0 < \<bar>x\<bar>" using assms by simp
  note b = exponentOf_bounds[OF a]
  have "exponentOf \<bar>x\<bar> + 1 \<le> ulpExp x + 53" by (simp add: ulpExp_def)
  then have "(2::rat) powi (exponentOf \<bar>x\<bar> + 1) \<le> 2 powi (ulpExp x + 53)"
    by (intro power_int_increasing) simp_all
  with b show "\<bar>x\<bar> < 2 powi (ulpExp x + 53)" by simp
  show "- 1074 \<le> ulpExp x" by (simp add: ulpExp_def)
  assume "- 1074 < ulpExp x"
  then have "ulpExp x + 52 = exponentOf \<bar>x\<bar>" by (simp add: ulpExp_def max_def split: if_splits)
  with b show "2 powi (ulpExp x + 52) \<le> \<bar>x\<bar>" by simp
qed

text \<open>Integers of magnitude up to \<open>2^53\<close> are doubles.\<close>

lemma fl_of_int:
  assumes "\<bar>n\<bar> \<le> 2 ^ 53"
  shows "fl (of_int n) = of_int n"
proof (cases "n = 0")
  case True
  then show ?thesis by (simp add: fl_0)
next
  case False
  define x :: rat where "x = of_int n"
  define e where "e = ulpExp x"
  have x0: "x \<noteq> 0" using False by (simp add: x_def)
  have ax: "\<bar>x\<bar> \<le> 2 powi 53" "1 \<le> \<bar>x\<bar>"
  proof -
    have "(of_int \<bar>n\<bar> :: rat) \<le> of_int (2 ^ 53)" using assms by (simp only: of_int_le_iff)
    then show "\<bar>x\<bar> \<le> 2 powi 53" by (simp add: x_def)
    have "1 \<le> \<bar>n\<bar>" using False by simp
    then have "(of_int 1 :: rat) \<le> of_int \<bar>n\<bar>" by (simp only: of_int_le_iff)
    then show "1 \<le> \<bar>x\<bar>" by (simp add: x_def)
  qed
  have e1: "e \<le> 1"
  proof (rule ccontr)
    assume "\<not> e \<le> 1"
    then have e2: "2 \<le> e" by simp
    then have "(2::rat) powi (53 + 1) \<le> 2 powi (e + 52)" by (intro power_int_increasing) simp_all
    also have "\<dots> \<le> \<bar>x\<bar>" using ulpExp_bounds(2)[OF x0] e2 by (simp add: e_def)
    finally have "(2::rat) powi 54 \<le> 2 powi 53" using ax(1) by simp
    then show False by simp
  qed
  have "\<exists>k. x / 2 powi e = of_int k"
  proof (cases "e \<le> 0")
    case True
    then have ee: "e = - int (nat (- e))" by simp
    have "(2::rat) powi e = 1 / 2 ^ nat (- e)"
      by (subst ee) (simp only: power_int_minus_divide power_int_of_nat)
    then have "x / 2 powi e = of_int (n * 2 ^ nat (- e))" by (simp add: x_def)
    then show ?thesis by blast
  next
    case False
    with e1 have e: "e = 1" by simp
    have "exponentOf \<bar>x\<bar> = 53" using e by (simp add: e_def ulpExp_def max_def split: if_splits)
    then have "2 powi 53 \<le> \<bar>x\<bar>" using exponentOf_bounds[of "\<bar>x\<bar>"] x0 by simp
    with ax(1) have "\<bar>x\<bar> = 2 powi 53" by simp
    then have "\<bar>n\<bar> = 2 ^ 53" by (simp add: x_def flip: of_int_abs)
    then have "n = 2 ^ 53 \<or> n = - (2 ^ 53)" by (simp add: abs_if split: if_splits)
    then have "x / 2 powi e = of_int (n div 2)" unfolding e x_def by auto
    then show ?thesis by blast
  qed
  then obtain k where k: "x / 2 powi e = of_int k" by blast
  have "fl x = of_int k * 2 powi e"
    by (simp add: fl_ulp[OF x0] k roundHalfEven_of_int flip: e_def)
  also have "\<dots> = x" using k by (simp add: field_simps)
  finally show ?thesis by (simp add: x_def)
qed

text \<open>Every multiple of a power of two with at most 53 binary digits is a double, and rounding yields one.\<close>

lemma fl_multiple:
  assumes m: "\<bar>m\<bar> \<le> 2 ^ 53" and u: "- 1074 \<le> u"
  shows "fl (of_int m * 2 powi u) = of_int m * 2 powi u"
proof (cases "m = 0")
  case True
  then show ?thesis by (simp add: fl_0)
next
  case False
  define x :: rat where "x = of_int m * 2 powi u"
  define E where "E = ulpExp x"
  have pu: "(0::rat) < 2 powi u" by (simp add: zero_less_power_int)
  have x0: "x \<noteq> 0" using False pu by (simp add: x_def)
  have ax: "\<bar>x\<bar> = of_int \<bar>m\<bar> * 2 powi u" using pu by (simp add: x_def abs_mult)
  have "(of_int \<bar>m\<bar> :: rat) \<le> of_int (2 ^ 53)" using m by (simp only: of_int_le_iff)
  then have "\<bar>x\<bar> \<le> 2 ^ 53 * 2 powi u" unfolding ax using pu by (simp add: mult_right_mono)
  then have up: "\<bar>x\<bar> \<le> 2 powi (u + 53)" by (simp add: power_int_add mult.commute)
  have "\<exists>k. x / 2 powi E = of_int k"
  proof (cases "E \<le> u")
    case True
    then have d: "u - E = int (nat (u - E))" by simp
    have "x / 2 powi E = of_int m * 2 powi (u - E)"
      by (simp add: x_def power_int_diff)
    also have "\<dots> = of_int (m * 2 ^ nat (u - E))"
      by (subst d) (simp only: power_int_of_nat of_int_mult of_int_power of_int_numeral)
    finally show ?thesis by blast
  next
    case False
    then have lt: "- 1074 < E" using u by simp
    have "2 powi (E + 52) \<le> \<bar>x\<bar>" using ulpExp_bounds(2)[OF x0] lt by (simp add: E_def)
    with up have "(2::rat) powi (E + 52) \<le> 2 powi (u + 53)" by simp
    then have "E + 52 \<le> u + 53"
      by (metis power_int_strict_increasing not_less one_less_numeral_iff semiring_norm(76))
    with False have E: "E = u + 1" by simp
    have "2 powi (u + 53) \<le> \<bar>x\<bar>" using \<open>2 powi (E + 52) \<le> \<bar>x\<bar>\<close> by (simp add: E add.commute)
    with up have "\<bar>x\<bar> = 2 powi (u + 53)" by simp
    then have "of_int \<bar>m\<bar> * 2 powi u = 2 ^ 53 * (2::rat) powi u"
      unfolding ax by (simp add: power_int_add mult.commute)
    then have "(of_int \<bar>m\<bar> :: rat) = of_int (2 ^ 53)" using pu by simp
    then have "\<bar>m\<bar> = 2 ^ 53" by (simp only: of_int_eq_iff)
    then have "m = 2 ^ 53 \<or> m = - (2 ^ 53)" by (simp add: abs_if split: if_splits)
    then have "(of_int m :: rat) / 2 = of_int (m div 2)" by auto
    moreover have "x / 2 powi E = of_int m / 2"
      using pu by (simp add: x_def E power_int_add)
    ultimately have "x / 2 powi E = of_int (m div 2)" by (simp only:)
    then show ?thesis by blast
  qed
  then obtain k where k: "x / 2 powi E = of_int k" by blast
  have "fl x = of_int k * 2 powi E"
    by (simp add: fl_ulp[OF x0] k roundHalfEven_of_int flip: E_def)
  also have "\<dots> = x" using k by (simp add: field_simps)
  finally show ?thesis by (simp add: x_def)
qed

lemma fl_idempotent: "fl (fl x) = fl x"
proof (cases "x = 0")
  case True
  then show ?thesis by (simp add: fl_0)
next
  case False
  let ?u = "(2::rat) powi ulpExp x"
  have u: "0 < ?u" by (simp add: zero_less_power_int)
  have "\<bar>x\<bar> < 2 powi (ulpExp x + 53)" by (rule ulpExp_bounds(1)[OF False])
  then have "\<bar>x\<bar> < 2 ^ 53 * ?u" by (simp add: power_int_add mult.commute)
  then have "\<bar>x / ?u\<bar> < 2 ^ 53" using u by (simp add: pos_divide_less_eq)
  then have "- (2 ^ 53) \<le> x / ?u" "x / ?u \<le> 2 ^ 53" by linarith+
  then have b: "- of_int (2 ^ 53) \<le> x / ?u" "x / ?u \<le> of_int (2 ^ 53)" by simp_all
  have "roundHalfEven (- of_int (2 ^ 53)) \<le> roundHalfEven (x / ?u)"
    by (rule roundHalfEven_mono[OF b(1)])
  moreover have "roundHalfEven (x / ?u) \<le> roundHalfEven (of_int (2 ^ 53))"
    by (rule roundHalfEven_mono[OF b(2)])
  ultimately have "- (2 ^ 53) \<le> roundHalfEven (x / ?u)" "roundHalfEven (x / ?u) \<le> 2 ^ 53"
    by (simp_all only: roundHalfEven_minus roundHalfEven_of_int)
  then have "\<bar>roundHalfEven (x / ?u)\<bar> \<le> 2 ^ 53"
    by linarith
  then have "fl (of_int (roundHalfEven (x / ?u)) * ?u) = of_int (roundHalfEven (x / ?u)) * ?u"
    using ulpExp_bounds(3)[OF False] by (rule fl_multiple)
  then show ?thesis by (simp add: fl_ulp[OF False])
qed

lemma fl_nonneg: "0 \<le> x \<Longrightarrow> 0 \<le> fl x"
proof (cases "x = 0")
  case True
  then show ?thesis by (simp add: fl_0)
next
  case False
  assume "0 \<le> x"
  then have "0 \<le> x / 2 powi ulpExp x" by (simp add: zero_less_power_int less_imp_le)
  then have "roundHalfEven 0 \<le> roundHalfEven (x / 2 powi ulpExp x)" by (rule roundHalfEven_mono)
  then have "0 \<le> roundHalfEven (x / 2 powi ulpExp x)" using roundHalfEven_of_int[of 0] by simp
  then show ?thesis by (simp add: fl_ulp[OF False] zero_less_power_int less_imp_le)
qed

lemma fl_pos_mono:
  assumes x: "0 < x" and xy: "x \<le> y"
  shows "fl x \<le> fl y"
proof -
  have y: "0 < y" using x xy by simp
  have x0: "x \<noteq> 0" and y0: "y \<noteq> 0" using x y by simp_all
  let ?ux = "(2::rat) powi ulpExp x" and ?uy = "(2::rat) powi ulpExp y"
  have ux: "0 < ?ux" and uy: "0 < ?uy" by (simp_all add: zero_less_power_int)
  have "2 powi exponentOf x \<le> x" "y < 2 powi (exponentOf y + 1)"
    using exponentOf_bounds[OF x] exponentOf_bounds[OF y] by simp_all
  then have "(2::rat) powi exponentOf x < 2 powi (exponentOf y + 1)" using xy by simp
  then have "exponentOf x < exponentOf y + 1"
    by (metis power_int_increasing not_less one_le_numeral)
  then have le: "ulpExp x \<le> ulpExp y" using x y by (simp add: ulpExp_def)
  show ?thesis
  proof (cases "ulpExp x = ulpExp y")
    case True
    have "x / ?ux \<le> y / ?ux" using xy ux by (simp add: divide_right_mono)
    then have "roundHalfEven (x / ?ux) \<le> roundHalfEven (y / ?ux)" by (rule roundHalfEven_mono)
    then have "(of_int (roundHalfEven (x / ?ux)) :: rat) \<le> of_int (roundHalfEven (y / ?ux))"
      by (simp only: of_int_le_iff)
    then have "of_int (roundHalfEven (x / ?ux)) * ?ux \<le> of_int (roundHalfEven (y / ?ux)) * ?ux"
      using ux by (simp add: mult_right_mono)
    then show ?thesis by (simp add: fl_ulp[OF x0] fl_ulp[OF y0] True)
  next
    case False
    with le have lt: "ulpExp x + 1 \<le> ulpExp y" by simp
    have "- 1074 \<le> ulpExp x" by (rule ulpExp_bounds(3)[OF x0])
    with lt have "- 1074 < ulpExp y" by simp
    then have "2 powi (ulpExp y + 52) \<le> y" using ulpExp_bounds(2)[OF y0] y by simp
    then have "2 powi (ulpExp y + 52) / ?uy \<le> y / ?uy" using uy by (simp add: divide_right_mono)
    moreover have "(2::rat) powi (ulpExp y + 52) / ?uy = of_int (2 ^ 52)"
      by (simp add: power_int_add)
    ultimately have "roundHalfEven (of_int (2 ^ 52)) \<le> roundHalfEven (y / ?uy)"
      by (intro roundHalfEven_mono) simp
    then have "2 ^ 52 \<le> roundHalfEven (y / ?uy)" by (simp only: roundHalfEven_of_int)
    then have "(of_int (2 ^ 52) :: rat) \<le> of_int (roundHalfEven (y / ?uy))" by (simp only: of_int_le_iff)
    then have "of_int (2 ^ 52) * ?uy \<le> fl y"
      using uy by (simp add: fl_ulp[OF y0] mult_right_mono)
    then have Y: "2 powi (ulpExp y + 52) \<le> fl y" by (simp add: power_int_add mult.commute)
    have "x < 2 powi (ulpExp x + 53)" using ulpExp_bounds(1)[OF x0] x by simp
    then have "x / ?ux < 2 powi (ulpExp x + 53) / ?ux" using ux by (simp add: divide_strict_right_mono)
    moreover have "(2::rat) powi (ulpExp x + 53) / ?ux = of_int (2 ^ 53)"
      by (simp add: power_int_add)
    ultimately have "roundHalfEven (x / ?ux) \<le> roundHalfEven (of_int (2 ^ 53))"
      by (intro roundHalfEven_mono) simp
    then have "roundHalfEven (x / ?ux) \<le> 2 ^ 53" by (simp only: roundHalfEven_of_int)
    then have "(of_int (roundHalfEven (x / ?ux)) :: rat) \<le> of_int (2 ^ 53)" by (simp only: of_int_le_iff)
    then have "fl x \<le> of_int (2 ^ 53) * ?ux"
      using ux by (simp add: fl_ulp[OF x0] mult_right_mono)
    then have "fl x \<le> 2 powi (ulpExp x + 53)" by (simp add: power_int_add mult.commute)
    also have "\<dots> \<le> 2 powi (ulpExp y + 52)" using lt by (intro power_int_increasing) simp_all
    finally show ?thesis using Y by simp
  qed
qed

text \<open>Rounding is monotone.\<close>

lemma fl_mono: "x \<le> y \<Longrightarrow> fl x \<le> fl y"
proof -
  assume xy: "x \<le> y"
  consider "0 < x" | "x \<le> 0" "0 \<le> y" | "y < 0" by linarith
  then show ?thesis
  proof cases
    case 1
    then show ?thesis using xy by (rule fl_pos_mono)
  next
    case 2
    have "fl x = - fl (- x)" by (simp add: fl_minus)
    moreover have "0 \<le> fl (- x)" using 2(1) by (intro fl_nonneg) simp
    moreover have "0 \<le> fl y" using 2(2) by (rule fl_nonneg)
    ultimately show ?thesis by simp
  next
    case 3
    then have "fl (- y) \<le> fl (- x)" using xy by (intro fl_pos_mono) simp_all
    then show ?thesis by (simp add: fl_minus)
  qed
qed

text \<open>Above 1 in magnitude the error is at most the fraction \<open>2^-53\<close> of the number.\<close>

lemma fl_relative_error:
  assumes "1 \<le> \<bar>x\<bar>"
  shows "\<bar>fl x - x\<bar> \<le> \<bar>x\<bar> / 2 ^ 53"
proof -
  have x0: "x \<noteq> 0" using assms by auto
  have "(2::rat) powi 0 \<le> \<bar>x\<bar>" using assms by simp
  also have "\<dots> < 2 powi (exponentOf \<bar>x\<bar> + 1)" using exponentOf_bounds[of "\<bar>x\<bar>"] x0 by simp
  finally have "0 < exponentOf \<bar>x\<bar> + 1"
    by (metis power_int_increasing not_less one_le_numeral)
  then have u: "- 1074 < ulpExp x" by (simp add: ulpExp_def)
  have "\<bar>fl x - x\<bar> \<le> 2 powi (ulpExp x - 1)" by (rule fl_error[OF x0])
  also have "\<dots> = 2 powi (ulpExp x + 52) / 2 ^ 53"
    by (simp add: power_int_add power_int_diff)
  also have "\<dots> \<le> \<bar>x\<bar> / 2 ^ 53"
    using ulpExp_bounds(2)[OF x0 u] by (simp add: divide_right_mono)
  finally show ?thesis .
qed

text \<open>A number above \<open>2^-1075\<close> does not round to zero.\<close>

lemma fl_pos:
  assumes "2 powi (- 1075) < x"
  shows "0 < fl x"
proof -
  have x: "0 < x" using assms by (meson less_trans zero_less_numeral zero_less_power_int)
  then have x0: "x \<noteq> 0" by simp
  let ?u = "(2::rat) powi ulpExp x"
  have u: "0 < ?u" by (simp add: zero_less_power_int)
  have "1 / 2 < x / ?u"
  proof (cases "- 1074 < ulpExp x")
    case True
    have "(2::rat) powi (ulpExp x + 52) = 2 ^ 52 * ?u" by (simp add: power_int_add)
    then have "2 ^ 52 * ?u \<le> x" using ulpExp_bounds(2)[OF x0 True] x by simp
    then have "2 ^ 52 \<le> x / ?u" using u by (simp add: pos_le_divide_eq)
    moreover have "(1::rat) / 2 < 2 ^ 52" by simp
    ultimately show ?thesis by (rule less_le_trans[rotated])
  next
    case False
    then have e: "ulpExp x = - 1074" using ulpExp_bounds(3)[OF x0] by simp
    have "(2::rat) powi (- 1075) = 1 / 2 * 2 powi (- 1074)"
      by (simp add: power_int_minus_divide)
    then have "1 / 2 * ?u < x" using assms by (simp add: e)
    then show ?thesis using u by (simp add: pos_less_divide_eq)
  qed
  moreover have "x / ?u - of_int (roundHalfEven (x / ?u)) \<le> 1 / 2"
    using roundHalfEven_error[of "x / ?u"] by linarith
  ultimately have "(0::rat) < of_int (roundHalfEven (x / ?u))" by linarith
  then show ?thesis using u by (simp add: fl_ulp[OF x0])
qed

text \<open>
  The floored quotient of a safe integer by a positive safe integer is the exact one: the
  rounding of the quotient never reaches the next integer.
\<close>

lemma floor_quotient_exact:
  assumes x: "safeInteger x" and g: "0 < g" "safeInteger g"
  shows "\<lfloor>fl (of_int x / of_int g)\<rfloor> = x div g"
proof (cases "x mod g = 0")
  case True
  then have "(of_int x :: rat) / of_int g = of_int (x div g)"
    using g by auto
  moreover have "\<bar>x div g\<bar> \<le> \<bar>x\<bar>"
  proof -
    have "x = (x div g) * g" using True div_mult_mod_eq[of x g] by simp
    then have "\<bar>x\<bar> = \<bar>x div g\<bar> * g" using g by (metis abs_mult abs_of_pos)
    moreover have "\<bar>x div g\<bar> * 1 \<le> \<bar>x div g\<bar> * g" using g by (intro mult_left_mono) simp_all
    ultimately show ?thesis by simp
  qed
  then have "\<bar>x div g\<bar> \<le> 2 ^ 53" using x by (simp add: safeInteger_def)
  ultimately show ?thesis by (simp add: fl_of_int)
next
  case False
  define y :: rat where "y = of_int x / of_int g"
  define q r where "q = x div g" and "r = x mod g"
  have m: "0 \<le> x mod g" "x mod g < g" using g(1) by simp_all
  have r: "1 \<le> r" "r \<le> g - 1"
    unfolding r_def using False m by linarith+
  have gr: "(0::rat) < of_int g" using g by simp
  have "x = q * g + r" by (simp add: q_def r_def)
  then have "(of_int x :: rat) = of_int q * of_int g + of_int r"
    by (metis of_int_add of_int_mult)
  then have yq: "y = of_int q + of_int r / of_int g"
    using gr by (simp add: y_def field_simps)
  have "(of_int 1 :: rat) \<le> of_int r" "(of_int r :: rat) \<le> of_int (g - 1)"
    using r by (simp_all only: of_int_le_iff)
  then have rg: "1 / of_int g \<le> (of_int r :: rat) / of_int g" "(of_int r :: rat) / of_int g \<le> 1 - 1 / of_int g"
    using gr by (simp_all add: divide_right_mono field_simps)
  have y0: "y \<noteq> 0"
  proof
    assume "y = 0"
    then have "x = 0" using gr by (simp add: y_def)
    then show False using False by simp
  qed
  have err: "(2::rat) powi (ulpExp y - 1) < 1 / of_int g"
  proof (cases "- 1074 < ulpExp y")
    case True
    have "2 powi (ulpExp y + 52) \<le> \<bar>y\<bar>" by (rule ulpExp_bounds(2)[OF y0 True])
    also have "\<bar>y\<bar> = of_int \<bar>x\<bar> / of_int g" using gr by (simp add: y_def)
    also have "\<dots> < 2 ^ 53 / of_int g"
    proof -
      have "(of_int \<bar>x\<bar> :: rat) < of_int (2 ^ 53)" using x unfolding safeInteger_def by (simp only: of_int_less_iff)
      then show ?thesis using gr by (simp add: divide_strict_right_mono)
    qed
    finally have "2 powi (ulpExp y + 52) / 2 ^ 53 < (1::rat) / of_int g"
      by (simp add: field_simps)
    moreover have "(2::rat) powi (ulpExp y + 52) / 2 ^ 53 = 2 powi (ulpExp y - 1)"
      by (simp add: power_int_add power_int_diff)
    ultimately show ?thesis by simp
  next
    case False
    then have e: "ulpExp y = - 1074" using ulpExp_bounds(3)[OF y0] by simp
    have "(of_int g :: rat) < of_int (2 ^ 53)" using g(2) unfolding safeInteger_def
      by (simp only: of_int_less_iff)
    then have "(1::rat) / 2 ^ 53 < 1 / of_int g" using gr by (simp add: field_simps)
    moreover have "(2::rat) powi (- 1075) \<le> 1 / 2 ^ 53"
      by (simp add: power_int_minus_divide)
    ultimately show ?thesis by (simp add: e)
  qed
  have "\<bar>fl y - y\<bar> < 1 / of_int g" using fl_error[OF y0] err by simp
  then have "of_int q < fl y" "fl y < of_int q + 1"
    using rg unfolding yq by (simp_all add: abs_less_iff)
  then have "\<lfloor>fl y\<rfloor> = q" by (intro floor_unique) simp_all
  then show ?thesis by (simp add: y_def q_def)
qed

lemma increment_nonneg: "0 \<le> v \<Longrightarrow> 0 \<le> increment v"
proof -
  assume "0 \<le> v"
  then have "(0::rat) \<le> of_int v + 1" by simp
  then have "0 \<le> fl (of_int v + 1)" by (rule fl_nonneg)
  then show ?thesis by (simp add: increment_def)
qed

lemma increment_exact:
  assumes "safeInteger v"
  shows "increment v = v + 1"
proof -
  have "\<bar>v + 1\<bar> \<le> 2 ^ 53" using assms by (simp add: safeInteger_def)
  then have "fl (of_int (v + 1)) = of_int (v + 1)" by (rule fl_of_int)
  then have "fl (of_int v + 1) = of_int (v + 1)" by simp
  then show ?thesis unfolding increment_def by (simp only: floor_of_int)
qed

section \<open>The heatmap update keeps to the grid\<close>

lemma quotient_nonneg: "0 < g \<Longrightarrow> (0 \<le> a div g) = (0 \<le> (a::int))"
  by (rule pos_imp_zdiv_nonneg_iff)

lemma quotient_less:
  "0 < g \<Longrightarrow> (a div g < w) = ((a::int) < w * g)"
proof -
  assume g: "0 < g"
  have "(\<lfloor>(of_int a :: rat) / of_int g\<rfloor> < w) = ((of_int a :: rat) / of_int g < of_int w)"
    by (rule floor_less_iff)
  also have "\<dots> = ((of_int a :: rat) < of_int w * of_int g)"
    using g by (simp add: pos_divide_less_eq)
  also have "\<dots> = (a < w * g)"
    by (metis of_int_less_iff of_int_mult)
  finally show ?thesis by (simp add: floor_divide_of_int_eq)
qed

text \<open>Left of the grid the rounded quotient is negative; at or beyond its right edge it is at least the width.\<close>

lemma floor_quotient_negative:
  assumes x: "x < 0" and g: "0 < g" "safeInteger g"
  shows "\<lfloor>fl (of_int x / of_int g)\<rfloor> < 0"
proof -
  have gr: "(0::rat) < of_int g" using g by simp
  have "(of_int g :: rat) < of_int (2 ^ 53)" using g(2) unfolding safeInteger_def
    by (simp only: of_int_less_iff)
  then have "(1::rat) / 2 ^ 53 < 1 / of_int g" using gr by (simp add: field_simps)
  moreover have "(2::rat) powi (- 1075) \<le> 1 / 2 ^ 53"
    by (simp add: power_int_minus_divide)
  moreover have "(1::rat) / of_int g \<le> - (of_int x / of_int g)"
  proof -
    have "1 \<le> - x" using x by simp
    then have "(of_int 1 :: rat) \<le> of_int (- x)" by (simp only: of_int_le_iff)
    then show ?thesis using gr by (simp add: divide_right_mono field_simps)
  qed
  ultimately have "2 powi (- 1075) < - ((of_int x :: rat) / of_int g)" by linarith
  then have "0 < fl (- ((of_int x :: rat) / of_int g))" by (rule fl_pos)
  then have "fl (of_int x / of_int g) < 0" by (simp add: fl_minus)
  then show ?thesis by (simp add: floor_less_iff)
qed

lemma floor_quotient_beyond:
  assumes x: "w * g \<le> x" and g: "0 < g" and w: "safeInteger w"
  shows "w \<le> \<lfloor>fl (of_int x / of_int g)\<rfloor>"
proof -
  have gr: "(0::rat) < of_int g" using g by simp
  have "(of_int (w * g) :: rat) \<le> of_int x" using x by (simp only: of_int_le_iff)
  then have "(of_int w :: rat) \<le> of_int x / of_int g" using gr by (simp add: pos_le_divide_eq)
  then have "fl (of_int w) \<le> fl (of_int x / of_int g)" by (rule fl_mono)
  moreover have "fl (of_int w) = of_int w" using w by (intro fl_of_int) (simp add: safeInteger_def)
  ultimately show ?thesis by (simp add: le_floor_iff)
qed

lemma shape_row:
  "heatmapShape e \<Longrightarrow> r < nat (gridHeight e) \<Longrightarrow> length (movementHeatmap e ! r) = nat (gridWidth e)"
  by (simp add: heatmapShape_def list_all_length)

lemma readCell_update:
  "r0 < length hm \<Longrightarrow> c0 < length (hm ! r0) \<Longrightarrow>
   readCell (hm[r0 := (hm ! r0)[c0 := v]]) r c =
     (if r = r0 \<and> c = c0 then Some v else readCell hm r c)"
  by (auto simp: readCell_def nth_list_update)

lemma cellsNonNegative_update:
  "cellsNonNegative hm \<Longrightarrow> r0 < length hm \<Longrightarrow> 0 \<le> v \<Longrightarrow>
   cellsNonNegative (hm[r0 := (hm ! r0)[c0 := v]])"
  unfolding cellsNonNegative_def list_all_iff
  by (metis insert_iff nth_mem set_update_subset_insert subsetD)

lemma cellsNonNegative_nth:
  "cellsNonNegative hm \<Longrightarrow> r < length hm \<Longrightarrow> c < length (hm ! r) \<Longrightarrow> 0 \<le> hm ! r ! c"
  by (simp add: cellsNonNegative_def list_all_length)

lemma updateHeatmapCell_outside:
  assumes g: "0 < gridSize e" "safeInteger (gridSize e)"
    and w: "safeInteger (gridWidth e)" "safeInteger (gridHeight e)"
    and out: "pos_x p < 0 \<or> gridWidth e * gridSize e \<le> pos_x p \<or> pos_y p < 0 \<or> gridHeight e * gridSize e \<le> pos_y p"
  shows "updateHeatmapCell e p = Some e"
proof -
  let ?gx = "\<lfloor>fl ((of_int (pos_x p) :: rat) / of_int (gridSize e))\<rfloor>"
  let ?gy = "\<lfloor>fl ((of_int (pos_y p) :: rat) / of_int (gridSize e))\<rfloor>"
  have "\<not> (?gx \<ge> 0 \<and> ?gx < gridWidth e \<and> ?gy \<ge> 0 \<and> ?gy < gridHeight e)"
    using out floor_quotient_negative[OF _ g, of "pos_x p"] floor_quotient_negative[OF _ g, of "pos_y p"]
      floor_quotient_beyond[OF _ g(1) w(1), of "pos_x p"] floor_quotient_beyond[OF _ g(1) w(2), of "pos_y p"]
    by linarith
  then show ?thesis
    unfolding updateHeatmapCell_def Let_def by (simp only: if_False)
qed

lemma updateHeatmapCell_inside:
  assumes g: "0 < gridSize e" "safeInteger (gridSize e)" and sh: "heatmapShape e"
    and inside: "0 \<le> pos_x p" "pos_x p < gridWidth e * gridSize e"
                "0 \<le> pos_y p" "pos_y p < gridHeight e * gridSize e"
    and safe: "safeInteger (pos_x p)" "safeInteger (pos_y p)"
  defines "r0 \<equiv> nat (pos_y p div gridSize e)" and "c0 \<equiv> nat (pos_x p div gridSize e)"
  shows "r0 < length (movementHeatmap e) \<and> c0 < length (movementHeatmap e ! r0)
       \<and> updateHeatmapCell e p =
           Some (e\<lparr>movementHeatmap :=
                  (movementHeatmap e)[r0 := (movementHeatmap e ! r0)[c0 := increment (movementHeatmap e ! r0 ! c0)]]\<rparr>)"
proof -
  have qx: "\<lfloor>fl ((of_int (pos_x p) :: rat) / of_int (gridSize e))\<rfloor> = pos_x p div gridSize e"
    and qy: "\<lfloor>fl ((of_int (pos_y p) :: rat) / of_int (gridSize e))\<rfloor> = pos_y p div gridSize e"
    using safe g by (simp_all add: floor_quotient_exact)
  have bx: "0 \<le> pos_x p div gridSize e" "pos_x p div gridSize e < gridWidth e"
    using inside by (simp_all add: quotient_nonneg[OF g(1)] quotient_less[OF g(1)])
  have by': "0 \<le> pos_y p div gridSize e" "pos_y p div gridSize e < gridHeight e"
    using inside by (simp_all add: quotient_nonneg[OF g(1)] quotient_less[OF g(1)])
  have r: "r0 < length (movementHeatmap e)"
    using by' sh by (simp add: r0_def heatmapShape_def)
  have "r0 < nat (gridHeight e)"
    using by' by (simp add: r0_def)
  then have c: "c0 < length (movementHeatmap e ! r0)"
    using bx shape_row[OF sh, of r0] by (simp add: c0_def)
  show ?thesis
    using r c bx by'
    unfolding updateHeatmapCell_def qx qy Let_def r0_def c0_def by simp
qed

lemma heatmapShape_update:
  "heatmapShape e \<Longrightarrow>
   heatmapShape (e\<lparr>movementHeatmap := (movementHeatmap e)[r0 := (movementHeatmap e ! r0)[c0 := v]]\<rparr>)"
  unfolding heatmapShape_def list_all_iff
  apply simp
  by (metis insert_iff length_list_update nth_mem set_update_subset_insert subsetD list_update_beyond not_le)

text \<open>\<open>updateHeatmapCell\<close> neither reads nor writes the movement log.\<close>

lemma updateHeatmapCell_log:
  "updateHeatmapCell (e\<lparr>movementHistory := h\<rparr>) p =
     map_option (\<lambda>e'. e'\<lparr>movementHistory := h\<rparr>) (updateHeatmapCell e p)"
  by (simp add: updateHeatmapCell_def Let_def)

lemma recordMovement_heatmap:
  assumes "updateHeatmapCell e p = Some (e\<lparr>movementHeatmap := hm'\<rparr>)"
  shows "\<exists>e'. recordMovement e now p d c = Some e' \<and> movementHeatmap e' = hm'
              \<and> gridWidth e' = gridWidth e \<and> gridHeight e' = gridHeight e"
proof -
  let ?pushed = "movementHistory e @ [movementRecordOf now p d c]"
  let ?kept = "if length ?pushed > maxHistorySize e then tl ?pushed else ?pushed"
  let ?e2 = "updateVisualIntensityFromMovement (e\<lparr>movementHeatmap := hm', movementHistory := ?kept\<rparr>)"
  have "recordMovement e now p d c = Some ?e2"
    unfolding recordMovement_def Let_def updateHeatmapCell_log assms by simp
  moreover have "movementHeatmap ?e2 = hm'" "gridWidth ?e2 = gridWidth e" "gridHeight ?e2 = gridHeight e"
    by (simp_all add: updateVisualIntensityFromMovement_def Let_def)
  ultimately show ?thesis by blast
qed

text \<open>
  Claim C7. Take an engine with a positive cell size, whose cell size and grid dimensions
  are safe integers and whose heatmap has the constructed shape. Recording a movement at a
  position outside the grid (in pixels: left of 0 or at or beyond \<open>gridWidth * gridSize\<close>,
  likewise vertically) raises nothing and leaves the heatmap as it was, in
  \<open>updateHeatmapCell\<close> and in \<open>recordMovement\<close>. Recording a movement at a position inside
  the grid whose coordinates are safe integers raises nothing, leaves every cell other than
  the one at row \<open>pos_y div gridSize\<close>, column \<open>pos_x div gridSize\<close> as it was, increments
  the counter of that cell by one when it is a safe integer, keeps the shape and keeps all
  counters non-negative; the heatmap of \<open>recordMovement\<close> is the one that
  \<open>updateHeatmapCell\<close> yields.
\<close>

theorem recordMovement_bounds_safe:
  assumes g: "0 < gridSize e" "safeInteger (gridSize e)"
    and w: "safeInteger (gridWidth e)" "safeInteger (gridHeight e)"
    and sh: "heatmapShape e"
  shows "(pos_x p < 0 \<or> gridWidth e * gridSize e \<le> pos_x p \<or> pos_y p < 0 \<or> gridHeight e * gridSize e \<le> pos_y p
            \<longrightarrow> updateHeatmapCell e p = Some e
                \<and> (\<exists>e'. recordMovement e now p d c = Some e'
                       \<and> movementHeatmap e' = movementHeatmap e))
       \<and> (0 \<le> pos_x p \<and> pos_x p < gridWidth e * gridSize e \<and> 0 \<le> pos_y p \<and> pos_y p < gridHeight e * gridSize e
          \<and> safeInteger (pos_x p) \<and> safeInteger (pos_y p)
            \<longrightarrow> (\<exists>v e'. readCell (movementHeatmap e) (nat (pos_y p div gridSize e)) (nat (pos_x p div gridSize e)) = Some v
                   \<and> recordMovement e now p d c = Some e'
                   \<and> updateHeatmapCell e p = Some (e\<lparr>movementHeatmap := movementHeatmap e'\<rparr>)
                   \<and> heatmapShape e'
                   \<and> (\<forall>r' c'. \<not> (r' = nat (pos_y p div gridSize e) \<and> c' = nat (pos_x p div gridSize e)) \<longrightarrow>
                         readCell (movementHeatmap e') r' c' = readCell (movementHeatmap e) r' c')
                   \<and> (safeInteger v \<longrightarrow>
                         readCell (movementHeatmap e') (nat (pos_y p div gridSize e)) (nat (pos_x p div gridSize e))
                           = Some (v + 1))
                   \<and> (cellsNonNegative (movementHeatmap e) \<longrightarrow>
                         cellsNonNegative (movementHeatmap e'))))"
proof (intro conjI impI)
  assume "pos_x p < 0 \<or> gridWidth e * gridSize e \<le> pos_x p \<or> pos_y p < 0 \<or> gridHeight e * gridSize e \<le> pos_y p"
  then have out: "updateHeatmapCell e p = Some e"
    by (rule updateHeatmapCell_outside[OF g w])
  show "updateHeatmapCell e p = Some e" by (rule out)
  have "updateHeatmapCell e p = Some (e\<lparr>movementHeatmap := movementHeatmap e\<rparr>)"
    using out by simp
  from recordMovement_heatmap[OF this]
  show "\<exists>e'. recordMovement e now p d c = Some e' \<and> movementHeatmap e' = movementHeatmap e"
    by blast
next
  let ?r = "nat (pos_y p div gridSize e)" and ?c = "nat (pos_x p div gridSize e)"
  let ?hm = "movementHeatmap e"
  let ?hm' = "?hm[?r := (?hm ! ?r)[?c := increment (?hm ! ?r ! ?c)]]"
  assume a: "0 \<le> pos_x p \<and> pos_x p < gridWidth e * gridSize e \<and> 0 \<le> pos_y p \<and> pos_y p < gridHeight e * gridSize e
          \<and> safeInteger (pos_x p) \<and> safeInteger (pos_y p)"
  then have in': "?r < length ?hm" "?c < length (?hm ! ?r)"
    and upd: "updateHeatmapCell e p = Some (e\<lparr>movementHeatmap := ?hm'\<rparr>)"
    using updateHeatmapCell_inside[OF g sh, of p] by auto
  have rd: "readCell ?hm ?r ?c = Some (?hm ! ?r ! ?c)"
    using in' by (simp add: readCell_def)
  from recordMovement_heatmap[OF upd, of now d c]
  obtain e' where e': "recordMovement e now p d c = Some e'" and hm': "movementHeatmap e' = ?hm'"
    and dims: "gridWidth e' = gridWidth e" "gridHeight e' = gridHeight e"
    by blast
  have "heatmapShape (e\<lparr>movementHeatmap := ?hm'\<rparr>)"
    by (rule heatmapShape_update[OF sh])
  then have sh': "heatmapShape e'"
    by (simp add: heatmapShape_def hm' dims)
  have other: "\<forall>r' c'. \<not> (r' = ?r \<and> c' = ?c) \<longrightarrow>
                 readCell (movementHeatmap e') r' c' = readCell ?hm r' c'"
    using in' by (simp add: hm' readCell_update)
  have one: "safeInteger (?hm ! ?r ! ?c) \<longrightarrow>
               readCell (movementHeatmap e') ?r ?c = Some (?hm ! ?r ! ?c + 1)"
    using in' by (simp add: hm' readCell_update increment_exact)
  have nn: "cellsNonNegative ?hm \<longrightarrow> cellsNonNegative (movementHeatmap e')"
  proof
    assume c: "cellsNonNegative ?hm"
    then have "0 \<le> ?hm ! ?r ! ?c" using in' by (rule cellsNonNegative_nth)
    then have "0 \<le> increment (?hm ! ?r ! ?c)" by (rule increment_nonneg)
    then show "cellsNonNegative (movementHeatmap e')"
      unfolding hm' using c in' by (intro cellsNonNegative_update) auto
  qed
  show "\<exists>v e'. readCell ?hm ?r ?c = Some v
           \<and> recordMovement e now p d c = Some e'
           \<and> updateHeatmapCell e p = Some (e\<lparr>movementHeatmap := movementHeatmap e'\<rparr>)
           \<and> heatmapShape e'
           \<and> (\<forall>r' c'. \<not> (r' = ?r \<and> c' = ?c) \<longrightarrow>
                 readCell (movementHeatmap e') r' c' = readCell ?hm r' c')
           \<and> (safeInteger v \<longrightarrow> readCell (movementHeatmap e') ?r ?c = Some (v + 1))
           \<and> (cellsNonNegative ?hm \<longrightarrow> cellsNonNegative (movementHeatmap e'))"
    apply (rule exI[of _ "?hm ! ?r ! ?c"])
    apply (rule exI[of _ e'])
    using rd e' upd sh' other one nn by (simp add: hm')
qed

text \<open>The engine on a 40 by 40 canvas with cells of size 20: a grid of two by two cells.\<close>

lemma small_engine:
  "AIEngine 20 40 40 =
     \<lparr> gridSize = 20, canvasWidth = 40, canvasHeight = 40,
       movementHistory = [], maxHistorySize = 1000,
       gridWidth = 2, gridHeight = 2,
       movementHeatmap = [[0, 0], [0, 0]],
       performanceMetrics =
         \<lparr> averageScore = 0, averageGameDuration = 0, recentScores = [],
           difficultyProgression = [1], gameStartTime = None, totalGamesPlayed = 0,
           consecutiveHighPerformance = 0, consecutiveLowPerformance = 0 \<rparr>,
       adaptationSettings =
         \<lparr> currentDifficulty = 1, foodPlacementStrategy = Random,
           visualIntensityLevel = 1 \<rparr> \<rparr>"
  by (simp add: AIEngine_def initializeHeatmap_def eval_nat_numeral)

text \<open>
  Witness for C7 on the two by two grid: recording at position (40, 0), which is outside,
  changes no counter; recording at position (20, 20) increments cell (1, 1) from 0 to 1
  and leaves cell (0, 1) at 0.
\<close>

theorem recordMovement_bounds_safe_witness:
  "0 < gridSize (AIEngine 20 40 40) \<and> safeInteger (gridSize (AIEngine 20 40 40))
   \<and> safeInteger (gridWidth (AIEngine 20 40 40)) \<and> safeInteger (gridHeight (AIEngine 20 40 40))
   \<and> heatmapShape (AIEngine 20 40 40)
   \<and> updateHeatmapCell (AIEngine 20 40 40) (Position 40 0) = Some (AIEngine 20 40 40)
   \<and> (\<exists>e'. recordMovement (AIEngine 20 40 40) 0 (Position 40 0) ''right'' noContext = Some e'
          \<and> movementHeatmap e' = movementHeatmap (AIEngine 20 40 40))
   \<and> (\<exists>e'. recordMovement (AIEngine 20 40 40) 0 (Position 20 20) ''right'' noContext = Some e'
          \<and> readCell (movementHeatmap e') 1 1 = Some 1
          \<and> readCell (movementHeatmap e') 0 1 = Some 0
          \<and> cellsNonNegative (movementHeatmap e'))"
proof -
  let ?e = "AIEngine 20 40 40"
  have g: "0 < gridSize ?e" "safeInteger (gridSize ?e)"
    and w: "safeInteger (gridWidth ?e)" "safeInteger (gridHeight ?e)"
    by (simp_all add: small_engine safeInteger_def)
  have sh: "heatmapShape ?e" by (simp add: small_engine heatmapShape_def)
  have nn: "cellsNonNegative (movementHeatmap ?e)" by (simp add: small_engine cellsNonNegative_def)
  have r0: "readCell (movementHeatmap ?e) 1 1 = Some 0" "readCell (movementHeatmap ?e) 0 1 = Some 0"
    by (simp_all add: small_engine readCell_def)
  have outside: "gridWidth ?e * gridSize ?e \<le> pos_x (Position 40 0)"
    by (simp add: small_engine)
  have out: "updateHeatmapCell ?e (Position 40 0) = Some ?e"
    and rec: "\<exists>e'. recordMovement ?e 0 (Position 40 0) ''right'' noContext = Some e'
                \<and> movementHeatmap e' = movementHeatmap ?e"
    using recordMovement_bounds_safe[OF g w sh,
        where p = "Position 40 0" and now = 0 and d = "''right''" and c = noContext]
      outside by blast+
  have inside: "0 \<le> pos_x (Position 20 20) \<and> pos_x (Position 20 20) < gridWidth ?e * gridSize ?e
      \<and> 0 \<le> pos_y (Position 20 20) \<and> pos_y (Position 20 20) < gridHeight ?e * gridSize ?e
      \<and> safeInteger (pos_x (Position 20 20)) \<and> safeInteger (pos_y (Position 20 20))"
    by (simp add: small_engine safeInteger_def)
  have idx: "nat (pos_y (Position 20 20) div gridSize ?e) = 1"
            "nat (pos_x (Position 20 20) div gridSize ?e) = 1"
    by (simp_all add: small_engine)
  from recordMovement_bounds_safe[OF g w sh,
        where p = "Position 20 20" and now = 0 and d = "''right''" and c = noContext] inside
  obtain v e' where v: "readCell (movementHeatmap ?e) 1 1 = Some v"
    and u: "recordMovement ?e 0 (Position 20 20) ''right'' noContext = Some e'"
    and other: "\<And>r' c'. \<not> (r' = 1 \<and> c' = 1) \<Longrightarrow>
                  readCell (movementHeatmap e') r' c' = readCell (movementHeatmap ?e) r' c'"
    and one: "safeInteger v \<longrightarrow> readCell (movementHeatmap e') 1 1 = Some (v + 1)"
    and keep: "cellsNonNegative (movementHeatmap ?e) \<longrightarrow> cellsNonNegative (movementHeatmap e')"
    unfolding idx by blast
  have v0: "v = 0" using v r0 by simp
  then have "safeInteger v" by (simp add: safeInteger_def)
  then have "readCell (movementHeatmap e') 1 1 = Some 1" "readCell (movementHeatmap e') 0 1 = Some 0"
    using one other[of 0 1] r0 v0 by simp_all
  with u keep nn
  have "\<exists>e'. recordMovement ?e 0 (Position 20 20) ''right'' noContext = Some e'
          \<and> readCell (movementHeatmap e') 1 1 = Some 1
          \<and> readCell (movementHeatmap e') 0 1 = Some 0
          \<and> cellsNonNegative (movementHeatmap e')"
    by blast
  with g w sh out rec show ?thesis by blast
qed

section \<open>The cold-start rule of the placement strategy\<close>

lemma analyze_short_log:
  "length (movementHistory e) < 10 \<Longrightarrow>
   analyzeMovementPatterns e =
     \<lparr> dominantDirections = [], neutralGameDuration = Some 0, directionCounts = None,
       movementDiversity = 0, totalMovements = None \<rparr>"
  by (simp add: analyzeMovementPatterns_def)

lemma analyze_totalMovements:
  "10 \<le> length (movementHistory e) \<Longrightarrow>
   totalMovements (analyzeMovementPatterns e) = Some (length (movementHistory e))"
  by (simp add: analyzeMovementPatterns_def Let_def)

lemma determinePlacementStrategy_cold_start:
  assumes "10 \<le> length (movementHistory e)" and "length (movementHistory e) < 20"
  shows "determinePlacementStrategy e =
           (getStrategyByDifficulty (currentDifficulty (adaptationSettings e)), e)"
  using assms by (simp add: determinePlacementStrategy_def Let_def analyze_totalMovements)

lemma determinePlacementStrategy_short_log:
  assumes "length (movementHistory e) < 10"
  shows "fst (determinePlacementStrategy e) =
           (if currentDifficulty (adaptationSettings e) \<le> 2 then Random else Challenging)"
  using assms by (simp add: determinePlacementStrategy_def Let_def analyze_short_log)

text \<open>
  Claim C1, at the input where the code departs from it. A freshly constructed engine has no
  recorded movement (fewer than 20) and difficulty 1, for which the difficulty rule gives
  'accessible'; \<open>determinePlacementStrategy\<close> returns 'random'. Below ten movements the
  analysis has no \<open>totalMovements\<close> field, the cold-start guard is false, and the strategy
  comes from diversity 0 and the difficulty override instead
  (\<open>determinePlacementStrategy_short_log\<close>); from ten to nineteen movements the rule of the
  claim holds (\<open>determinePlacementStrategy_cold_start\<close>).
\<close>

theorem determinePlacementStrategy_fresh_engine:
  "length (movementHistory (AIEngine 20 400 400)) < 20
   \<and> currentDifficulty (adaptationSettings (AIEngine 20 400 400)) = 1
   \<and> getStrategyByDifficulty 1 = Accessible
   \<and> fst (determinePlacementStrategy (AIEngine 20 400 400)) = Random"
  by (simp add: determinePlacementStrategy_def analyzeMovementPatterns_def AIEngine_def
      getStrategyByDifficulty_def Let_def)

section \<open>Visual intensity\<close>

lemma difficultyIntensityModifier_upto_nine:
  assumes "d \<in> {1, 2, 3, 4, 5, 6, 7, 8, 9}"
  shows "1 \<le> difficultyIntensityModifier d \<and> difficultyIntensityModifier d \<le> 3"
  using assms by (auto simp: difficultyIntensityModifier_def ceiling_le_iff le_ceiling_iff)

lemma combinedIntensity_range: "1 \<le> combinedIntensity m k \<and> combinedIntensity m k \<le> 5"
  by (simp add: combinedIntensity_def)

lemma updateVisualIntensityFromDifficulty_level:
  "visualIntensityLevel (adaptationSettings (updateVisualIntensityFromDifficulty e)) =
     min 5 (max 1 (round ((of_int (visualIntensityLevel (adaptationSettings e))
        + of_int \<lceil>currentDifficulty (adaptationSettings e) / (333 / 100)\<rceil> :: rat) / 2)))"
  by (simp add: updateVisualIntensityFromDifficulty_def combinedIntensity_def
      difficultyIntensityModifier_def Let_def)

text \<open>
  Claim C4, at the input where the code departs from it. At difficulty 10 the modifier
  \<open>ceil(10 / 3.33)\<close> is 4, outside the range 1 to 3 that the claim and the source's comments
  give; for the levels 1 to 9 it is within the range (\<open>difficultyIntensityModifier_upto_nine\<close>).
  With a stored intensity of 3 the combined intensity is then 4, where a modifier of 3 gives 3.
  The combination itself is the clamp of the rounded mean
  (\<open>updateVisualIntensityFromDifficulty_level\<close>).
\<close>

theorem difficultyIntensityModifier_at_ten:
  "difficultyIntensityModifier 10 = 4
   \<and> combinedIntensity 3 (difficultyIntensityModifier 10) = 4
   \<and> combinedIntensity 3 3 = 3"
proof -
  have "combinedIntensity 3 4 = 4" "combinedIntensity 3 3 = 3"
    by (simp_all add: combinedIntensity_def round_def floor_eq_iff)
  moreover
  have "difficultyIntensityModifier 10 = 4"
  proof -
    have "(10 :: rat) / (333 / 100) = 1000 / 333" by simp
    moreover have "\<lceil>(1000 :: rat) / 333\<rceil> = 4"
      by (simp add: ceiling_eq_iff)
    ultimately show ?thesis by (simp add: difficultyIntensityModifier_def)
  qed
  ultimately show ?thesis by simp
qed

section \<open>Streaks of the difficulty controller\<close>

lemma fl_constants:
  "fl (8 / 10) = 3602879701896397 / 4503599627370496"
  "fl (15 / 10) = 3 / 2"
  "fl (5 / 10) = 1 / 2"
  by code_simp+

lemma updateVisualIntensityFromDifficulty_fields:
  "performanceMetrics (updateVisualIntensityFromDifficulty e) = performanceMetrics e"
  "currentDifficulty (adaptationSettings (updateVisualIntensityFromDifficulty e)) =
     currentDifficulty (adaptationSettings e)"
  by (simp_all add: updateVisualIntensityFromDifficulty_def Let_def)

lemma calculateDifficulty_scores:
  "recentScores (performanceMetrics (snd (calculateDifficulty e))) = recentScores (performanceMetrics e)"
  "averageScore (performanceMetrics (snd (calculateDifficulty e))) = averageScore (performanceMetrics e)"
  by (simp_all add: calculateDifficulty_def Let_def updateVisualIntensityFromDifficulty_fields
      split: prod.splits)

lemma calculateDifficulty_thresholds:
  "averageRecentScore (snd (calculateDifficulty e)) = averageRecentScore e"
  "highPerformanceThreshold (snd (calculateDifficulty e)) = highPerformanceThreshold e"
  "lowPerformanceThreshold (snd (calculateDifficulty e)) = lowPerformanceThreshold e"
  by (simp_all add: averageRecentScore_def highPerformanceThreshold_def lowPerformanceThreshold_def
      scoreThreshold_def calculateDifficulty_scores)

text \<open>The low threshold lies below the high one, also after rounding.\<close>

lemma low_below_high: "lowPerformanceThreshold e < highPerformanceThreshold e"
proof -
  define st where "st = scoreThreshold e"
  have st: "50 \<le> st" by (simp add: st_def scoreThreshold_def)
  have "\<bar>fl (st * (1 / 2)) - st * (1 / 2)\<bar> \<le> \<bar>st * (1 / 2)\<bar> / 2 ^ 53"
    using st by (intro fl_relative_error) simp
  then have lo: "fl (st * (1 / 2)) \<le> st * (1 / 2) + st * (1 / 2) / 2 ^ 53"
    using st by linarith
  have "\<bar>fl (st * (3 / 2)) - st * (3 / 2)\<bar> \<le> \<bar>st * (3 / 2)\<bar> / 2 ^ 53"
    using st by (intro fl_relative_error) simp
  then have hi: "st * (3 / 2) - st * (3 / 2) / 2 ^ 53 \<le> fl (st * (3 / 2))"
    using st by linarith
  have "st * (1 / 2) + st * (1 / 2) / 2 ^ 53 < st * (3 / 2) - st * (3 / 2) / 2 ^ 53"
    using st by simp
  then have "fl (st * (1 / 2)) < fl (st * (3 / 2))"
    using lo hi by linarith
  then show ?thesis
    unfolding lowPerformanceThreshold_def highPerformanceThreshold_def fl_constants st_def .
qed

lemma low_excludes_high:
  assumes "averageRecentScore e \<le> lowPerformanceThreshold e"
  shows "\<not> averageRecentScore e \<ge> highPerformanceThreshold e"
  using assms low_below_high[of e] by simp

text \<open>One evaluation that takes the high-performance branch, and one that takes the low one.\<close>

lemma calculateDifficulty_high:
  assumes "highEvaluation e"
  defines "d \<equiv> currentDifficulty (adaptationSettings e)"
    and "k \<equiv> Suc (consecutiveHighPerformance (performanceMetrics e))"
  shows "currentDifficulty (adaptationSettings (snd (calculateDifficulty e))) =
           (if 3 \<le> k \<and> d < 10 then min 10 (fl (d + 1)) else d)"
    and "consecutiveHighPerformance (performanceMetrics (snd (calculateDifficulty e))) =
           (if 3 \<le> k \<and> d < 10 then 0 else k)"
    and "consecutiveLowPerformance (performanceMetrics (snd (calculateDifficulty e))) = 0"
  using assms unfolding highEvaluation_def
  by (auto simp: calculateDifficulty_def Let_def updateVisualIntensityFromDifficulty_fields min_def)

lemma calculateDifficulty_low:
  assumes "lowEvaluation e"
  defines "d \<equiv> currentDifficulty (adaptationSettings e)"
    and "k \<equiv> Suc (consecutiveLowPerformance (performanceMetrics e))"
  shows "currentDifficulty (adaptationSettings (snd (calculateDifficulty e))) =
           (if 3 \<le> k \<and> d > 1 then max 1 (fl (d - 1)) else d)"
    and "consecutiveLowPerformance (performanceMetrics (snd (calculateDifficulty e))) =
           (if 3 \<le> k \<and> d > 1 then 0 else k)"
    and "consecutiveHighPerformance (performanceMetrics (snd (calculateDifficulty e))) = 0"
  using assms low_excludes_high[of e] unfolding lowEvaluation_def
  by (auto simp: calculateDifficulty_def Let_def updateVisualIntensityFromDifficulty_fields max_def)

text \<open>The step of the difficulty is exact on the levels 1 to 10.\<close>

lemma validDifficulty_int: "validDifficulty d = (\<exists>k. d = of_int k \<and> 1 \<le> k \<and> k \<le> 10)"
proof
  assume v: "validDifficulty d"
  then have "d = of_int \<lfloor>d\<rfloor>" unfolding validDifficulty_def by (elim conjE) (rule sym)
  moreover from v have "1 \<le> \<lfloor>d\<rfloor>" "\<lfloor>d\<rfloor> \<le> 10"
    by (simp_all add: validDifficulty_def le_floor_iff floor_le_iff)
  ultimately show "\<exists>k. d = of_int k \<and> 1 \<le> k \<and> k \<le> 10" by blast
next
  assume "\<exists>k. d = of_int k \<and> 1 \<le> k \<and> k \<le> 10"
  then show "validDifficulty d" by (auto simp: validDifficulty_def)
qed

lemma validDifficulty_step_exact:
  assumes "validDifficulty d"
  shows "fl (d + 1) = d + 1" and "fl (d - 1) = d - 1"
proof -
  from assms obtain k where k: "d = of_int k" "1 \<le> k" "k \<le> 10"
    by (auto simp: validDifficulty_int)
  have "fl (of_int (k + 1)) = of_int (k + 1)" using k by (intro fl_of_int) simp
  then show "fl (d + 1) = d + 1" by (simp add: k)
  have "fl (of_int (k - 1)) = of_int (k - 1)" using k by (intro fl_of_int) simp
  then show "fl (d - 1) = d - 1" by (simp add: k)
qed

text \<open>
  Claim C3, amended. Take three consecutive evaluations by \<open>calculateDifficulty\<close>, of the
  states \<open>a\<close>, \<open>b\<close> and \<open>c\<close>: between one evaluation and the next the engine may change in
  any way (new scores, another average and so another threshold, movements) that leaves the
  difficulty and the two streak counters as the evaluation left them, and the numbers the
  evaluations read are doubles in range. If each of the three has at least three recent
  scores and a mean at or above its high-performance threshold, and the high streak counter
  is 0 before the first, then the first two leave the difficulty as it is, and after the
  third: below difficulty 10 the difficulty is the smaller of 10 and the rounded sum of the
  difficulty and 1, which for a level from 1 to 9 is the level plus one, and the high streak
  counter is 0; from difficulty 10 on the difficulty stays and the counter is not reset but
  stands at 3; the low streak counter is 0 in either case. Symmetrically for three
  evaluations with a mean at or below the low-performance threshold and a low streak counter
  of 0 before the first: above difficulty 1 the difficulty is lowered by one (at least to 1)
  and the low streak counter is 0; up to difficulty 1 the difficulty stays and the counter
  stands at 3; the high streak counter is 0 in either case.
\<close>

theorem three_evaluations_streak:
  assumes ab: "sameController (snd (calculateDifficulty a)) b"
    and bc: "sameController (snd (calculateDifficulty b)) c"
    and range: "numbersInRange a" "numbersInRange b" "numbersInRange c"
      "doubleInRange (currentDifficulty (adaptationSettings a))"
  shows "(highEvaluation a \<and> highEvaluation b \<and> highEvaluation c
            \<and> consecutiveHighPerformance (performanceMetrics a) = 0 \<longrightarrow>
          currentDifficulty (adaptationSettings (snd (calculateDifficulty a)))
            = currentDifficulty (adaptationSettings a)
          \<and> currentDifficulty (adaptationSettings (snd (calculateDifficulty b)))
            = currentDifficulty (adaptationSettings a)
          \<and> (currentDifficulty (adaptationSettings a) < 10 \<longrightarrow>
                currentDifficulty (adaptationSettings (snd (calculateDifficulty c)))
                  = min 10 (fl (currentDifficulty (adaptationSettings a) + 1))
              \<and> (validDifficulty (currentDifficulty (adaptationSettings a)) \<longrightarrow>
                   currentDifficulty (adaptationSettings (snd (calculateDifficulty c)))
                     = currentDifficulty (adaptationSettings a) + 1)
              \<and> consecutiveHighPerformance (performanceMetrics (snd (calculateDifficulty c))) = 0)
          \<and> (currentDifficulty (adaptationSettings a) \<ge> 10 \<longrightarrow>
                currentDifficulty (adaptationSettings (snd (calculateDifficulty c)))
                  = currentDifficulty (adaptationSettings a)
              \<and> consecutiveHighPerformance (performanceMetrics (snd (calculateDifficulty c))) = 3)
          \<and> consecutiveLowPerformance (performanceMetrics (snd (calculateDifficulty c))) = 0)
       \<and> (lowEvaluation a \<and> lowEvaluation b \<and> lowEvaluation c
            \<and> consecutiveLowPerformance (performanceMetrics a) = 0 \<longrightarrow>
          currentDifficulty (adaptationSettings (snd (calculateDifficulty a)))
            = currentDifficulty (adaptationSettings a)
          \<and> currentDifficulty (adaptationSettings (snd (calculateDifficulty b)))
            = currentDifficulty (adaptationSettings a)
          \<and> (currentDifficulty (adaptationSettings a) > 1 \<longrightarrow>
                currentDifficulty (adaptationSettings (snd (calculateDifficulty c)))
                  = max 1 (fl (currentDifficulty (adaptationSettings a) - 1))
              \<and> (validDifficulty (currentDifficulty (adaptationSettings a)) \<longrightarrow>
                   currentDifficulty (adaptationSettings (snd (calculateDifficulty c)))
                     = currentDifficulty (adaptationSettings a) - 1)
              \<and> consecutiveLowPerformance (performanceMetrics (snd (calculateDifficulty c))) = 0)
          \<and> (currentDifficulty (adaptationSettings a) \<le> 1 \<longrightarrow>
                currentDifficulty (adaptationSettings (snd (calculateDifficulty c)))
                  = currentDifficulty (adaptationSettings a)
              \<and> consecutiveLowPerformance (performanceMetrics (snd (calculateDifficulty c))) = 3)
          \<and> consecutiveHighPerformance (performanceMetrics (snd (calculateDifficulty c))) = 0)"
proof -
  define d where "d = currentDifficulty (adaptationSettings a)"
  let ?a' = "snd (calculateDifficulty a)" and ?b' = "snd (calculateDifficulty b)"
  let ?c' = "snd (calculateDifficulty c)"
  have high: "currentDifficulty (adaptationSettings ?a') = d
      \<and> currentDifficulty (adaptationSettings ?b') = d
      \<and> (d < 10 \<longrightarrow> currentDifficulty (adaptationSettings ?c') = min 10 (fl (d + 1))
            \<and> (validDifficulty d \<longrightarrow> currentDifficulty (adaptationSettings ?c') = d + 1)
            \<and> consecutiveHighPerformance (performanceMetrics ?c') = 0)
      \<and> (d \<ge> 10 \<longrightarrow> currentDifficulty (adaptationSettings ?c') = d
            \<and> consecutiveHighPerformance (performanceMetrics ?c') = 3)
      \<and> consecutiveLowPerformance (performanceMetrics ?c') = 0"
    if h: "highEvaluation a" "highEvaluation b" "highEvaluation c"
      and zero: "consecutiveHighPerformance (performanceMetrics a) = 0"
  proof -
    have a': "currentDifficulty (adaptationSettings ?a') = d"
          "consecutiveHighPerformance (performanceMetrics ?a') = 1"
      using calculateDifficulty_high(1,2)[OF h(1)] zero by (simp_all add: d_def)
    have b: "currentDifficulty (adaptationSettings b) = d"
         "consecutiveHighPerformance (performanceMetrics b) = 1"
      using ab a' by (simp_all add: sameController_def)
    have b': "currentDifficulty (adaptationSettings ?b') = d"
          "consecutiveHighPerformance (performanceMetrics ?b') = 2"
      using calculateDifficulty_high(1,2)[OF h(2)] b by simp_all
    have c: "currentDifficulty (adaptationSettings c) = d"
         "consecutiveHighPerformance (performanceMetrics c) = 2"
      using bc b' by (simp_all add: sameController_def)
    have c': "currentDifficulty (adaptationSettings ?c') = (if d < 10 then min 10 (fl (d + 1)) else d)"
          "consecutiveHighPerformance (performanceMetrics ?c') = (if d < 10 then 0 else 3)"
      using calculateDifficulty_high(1,2)[OF h(3)] c by simp_all
    have "validDifficulty d \<Longrightarrow> d < 10 \<Longrightarrow> min 10 (fl (d + 1)) = d + 1"
      by (auto simp: validDifficulty_step_exact validDifficulty_int min_def)
    with a' b' c' calculateDifficulty_high(3)[OF h(3)] show ?thesis by simp
  qed
  have low: "currentDifficulty (adaptationSettings ?a') = d
      \<and> currentDifficulty (adaptationSettings ?b') = d
      \<and> (d > 1 \<longrightarrow> currentDifficulty (adaptationSettings ?c') = max 1 (fl (d - 1))
            \<and> (validDifficulty d \<longrightarrow> currentDifficulty (adaptationSettings ?c') = d - 1)
            \<and> consecutiveLowPerformance (performanceMetrics ?c') = 0)
      \<and> (d \<le> 1 \<longrightarrow> currentDifficulty (adaptationSettings ?c') = d
            \<and> consecutiveLowPerformance (performanceMetrics ?c') = 3)
      \<and> consecutiveHighPerformance (performanceMetrics ?c') = 0"
    if l: "lowEvaluation a" "lowEvaluation b" "lowEvaluation c"
      and zero: "consecutiveLowPerformance (performanceMetrics a) = 0"
  proof -
    have a': "currentDifficulty (adaptationSettings ?a') = d"
          "consecutiveLowPerformance (performanceMetrics ?a') = 1"
      using calculateDifficulty_low(1,2)[OF l(1)] zero by (simp_all add: d_def)
    have b: "currentDifficulty (adaptationSettings b) = d"
         "consecutiveLowPerformance (performanceMetrics b) = 1"
      using ab a' by (simp_all add: sameController_def)
    have b': "currentDifficulty (adaptationSettings ?b') = d"
          "consecutiveLowPerformance (performanceMetrics ?b') = 2"
      using calculateDifficulty_low(1,2)[OF l(2)] b by simp_all
    have c: "currentDifficulty (adaptationSettings c) = d"
         "consecutiveLowPerformance (performanceMetrics c) = 2"
      using bc b' by (simp_all add: sameController_def)
    have c': "currentDifficulty (adaptationSettings ?c') = (if d > 1 then max 1 (fl (d - 1)) else d)"
          "consecutiveLowPerformance (performanceMetrics ?c') = (if d > 1 then 0 else 3)"
      using calculateDifficulty_low(1,2)[OF l(3)] c by simp_all
    have "validDifficulty d \<Longrightarrow> d > 1 \<Longrightarrow> max 1 (fl (d - 1)) = d - 1"
      by (auto simp: validDifficulty_step_exact validDifficulty_int max_def)
    with a' b' c' calculateDifficulty_low(3)[OF l(3)] show ?thesis by simp
  qed
  from high low show ?thesis unfolding d_def by blast
qed

lemma meanScore_Nil: "meanScore [] = 0"
  by (simp add: meanScore_def fl_0)

text \<open>The metrics update of \<open>endGameSession\<close>, field by field.\<close>

lemma sessionMetrics_fields:
  "recentScores (performanceMetrics (sessionMetrics e now s)) =
     (if length (recentScores (performanceMetrics e)) \<ge> 5
      then tl (recentScores (performanceMetrics e) @ [s])
      else recentScores (performanceMetrics e) @ [s])"
  "averageScore (performanceMetrics (sessionMetrics e now s)) =
     meanScore (recentScores (performanceMetrics (sessionMetrics e now s)))"
  "adaptationSettings (sessionMetrics e now s) = adaptationSettings e"
  "consecutiveHighPerformance (performanceMetrics (sessionMetrics e now s)) =
     consecutiveHighPerformance (performanceMetrics e)"
  "consecutiveLowPerformance (performanceMetrics (sessionMetrics e now s)) =
     consecutiveLowPerformance (performanceMetrics e)"
  by (auto simp: sessionMetrics_def Let_def meanScore_Nil)

lemma sameController_session: "sameController e (sessionMetrics e now s)"
  by (simp add: sameController_def sessionMetrics_fields)

lemma sameController_withScores: "sameController e (withScores e scores average)"
  by (simp add: sameController_def withScores_def)

lemma calculateDifficulty_few:
  "length (recentScores (performanceMetrics e)) < 3 \<Longrightarrow> snd (calculateDifficulty e) = e"
  by (simp add: calculateDifficulty_def)

text \<open>An average score of at most 62 gives the thresholds 75 and 25.\<close>

lemma thresholds_small_average:
  assumes "averageScore (performanceMetrics e) \<le> 62"
  shows "highPerformanceThreshold e = 75" and "lowPerformanceThreshold e = 25"
proof -
  let ?c = "3602879701896397 / 4503599627370496 :: rat"
  have "averageScore (performanceMetrics e) * ?c \<le> of_int 50" using assms by simp
  then have "fl (averageScore (performanceMetrics e) * ?c) \<le> fl (of_int 50)" by (rule fl_mono)
  moreover have "fl (of_int 50) = of_int 50" by (rule fl_of_int) simp
  ultimately have st: "scoreThreshold e = 50"
    unfolding scoreThreshold_def fl_constants by simp
  have "fl (of_int 75) = of_int 75" "fl (of_int 25) = of_int 25" by (rule fl_of_int, simp)+
  then have v: "fl 75 = 75" "fl 25 = 25" by simp_all
  show "highPerformanceThreshold e = 75"
    unfolding highPerformanceThreshold_def st fl_constants using v by simp
  show "lowPerformanceThreshold e = 25"
    unfolding lowPerformanceThreshold_def st fl_constants using v by simp
qed

lemma doubleInRange_int: "\<bar>n\<bar> \<le> 2 ^ 53 \<Longrightarrow> doubleInRange (of_int n)"
proof -
  assume n: "\<bar>n\<bar> \<le> 2 ^ 53"
  then have "(of_int \<bar>n\<bar> :: rat) \<le> of_int (2 ^ 53)" by (simp only: of_int_le_iff)
  moreover have "(of_int (2 ^ 53) :: rat) \<le> 2 ^ 960" by simp
  ultimately have "\<bar>of_int n :: rat\<bar> \<le> 2 ^ 960" by simp
  then show ?thesis using fl_of_int[OF n] by (simp add: doubleInRange_def)
qed

lemma doubleInRange_numeral:
  "doubleInRange 0" "(numeral k :: int) \<le> 2 ^ 53 \<Longrightarrow> doubleInRange (numeral k)"
  using doubleInRange_int[of 0] doubleInRange_int[of "numeral k"] by simp_all

text \<open>The means that the example runs compute.\<close>

lemma example_means:
  "meanScore [5, 6, 4] = 5" "meanScore [5, 6, 4, 5] = 5" "meanScore [5, 6, 4, 5, 5] = 5"
  "meanScore [5, 5, 5] = 5" "meanScore [5, 5, 5, 5] = 5" "meanScore [5, 5, 5, 5, 5] = 5"
  "meanScore [100, 100, 100] = 100" "meanScore [100, 120, 140] = 120"
  "meanScore [100, 100, 120] = 7505999378950827 / 70368744177664"
  by code_simp+

lemma example_threshold: "fl (max 50 (fl (90 * fl (8 / 10))) * fl (15 / 10)) = 108"
  by code_simp

text \<open>
  Rounding decides an evaluation. With the recent scores 75, 75, 76, 76, 76 and the average
  score 63 the exact mean and the exact threshold are both 378/5; as doubles the threshold
  is the greater, and the evaluation does not take the high-performance branch.
\<close>

lemma rounding_decides_the_branch:
  "sum_list [75, 75, 76, 76, 76] / 5 = max 50 (63 * (8 / 10)) * (15 / 10 :: rat)"
  "averageRecentScore (engineHolding 4 [75, 75, 76, 76, 76] 63) = 2659938529915699 / 35184372088832"
  "highPerformanceThreshold (engineHolding 4 [75, 75, 76, 76, 76] 63) = 5319877059831399 / 70368744177664"
  "\<not> highEvaluation (engineHolding 4 [75, 75, 76, 76, 76] 63)"
  by simp code_simp+

lemma engineHolding_fields:
  "recentScores (performanceMetrics (engineHolding d scores average)) = scores"
  "averageScore (performanceMetrics (engineHolding d scores average)) = average"
  "consecutiveHighPerformance (performanceMetrics (engineHolding d scores average)) = 0"
  "consecutiveLowPerformance (performanceMetrics (engineHolding d scores average)) = 0"
  "currentDifficulty (adaptationSettings (engineHolding d scores average)) = d"
  by (simp_all add: engineHolding_def small_engine)

lemma withScores_fields:
  "recentScores (performanceMetrics (withScores e scores average)) = scores"
  "averageScore (performanceMetrics (withScores e scores average)) = average"
  by (simp_all add: withScores_def)

lemma endGameSession_few:
  "length (recentScores (performanceMetrics e)) < 2 \<Longrightarrow> endGameSession e now s = sessionMetrics e now s"
  by (simp add: endGameSession_def calculateDifficulty_few sessionMetrics_fields)

lemma endGameSession_scores:
  "recentScores (performanceMetrics (endGameSession e now s)) =
     recentScores (performanceMetrics (sessionMetrics e now s))"
  by (simp add: endGameSession_def calculateDifficulty_scores)

text \<open>The scores that the three sessions of the low run hand to their evaluations.\<close>

lemma lowSession_fields:
  "recentScores (performanceMetrics firstLowSession) = [5, 6, 4]"
  "recentScores (performanceMetrics secondLowSession) = [5, 6, 4, 5]"
  "recentScores (performanceMetrics thirdLowSession) = [5, 6, 4, 5, 5]"
  "averageScore (performanceMetrics firstLowSession) = 5"
  "averageScore (performanceMetrics secondLowSession) = 5"
  "averageScore (performanceMetrics thirdLowSession) = 5"
  "currentDifficulty (adaptationSettings firstLowSession) = 4"
  "consecutiveLowPerformance (performanceMetrics firstLowSession) = 0"
proof -
  have p2: "playSessions (engineHolding 4 [] 0) [5, 6]
              = sessionMetrics (sessionMetrics (engineHolding 4 [] 0) 0 5) 0 6"
    by (simp add: playSessions_def endGameSession_few sessionMetrics_fields engineHolding_fields)
  show 1: "recentScores (performanceMetrics firstLowSession) = [5, 6, 4]"
    by (simp add: firstLowSession_def p2 sessionMetrics_fields engineHolding_fields)
  show 2: "recentScores (performanceMetrics secondLowSession) = [5, 6, 4, 5]"
    by (simp add: secondLowSession_def sessionMetrics_fields calculateDifficulty_scores 1)
  show 3: "recentScores (performanceMetrics thirdLowSession) = [5, 6, 4, 5, 5]"
    by (simp add: thirdLowSession_def sessionMetrics_fields calculateDifficulty_scores 2)
  show "averageScore (performanceMetrics firstLowSession) = 5"
    unfolding firstLowSession_def sessionMetrics_fields(2) unfolding firstLowSession_def[symmetric] 1
    by (rule example_means)
  show "averageScore (performanceMetrics secondLowSession) = 5"
    unfolding secondLowSession_def sessionMetrics_fields(2) unfolding secondLowSession_def[symmetric] 2
    by (rule example_means)
  show "averageScore (performanceMetrics thirdLowSession) = 5"
    unfolding thirdLowSession_def sessionMetrics_fields(2) unfolding thirdLowSession_def[symmetric] 3
    by (rule example_means)
  show "currentDifficulty (adaptationSettings firstLowSession) = 4"
    by (simp add: firstLowSession_def p2 sessionMetrics_fields engineHolding_fields)
  show "consecutiveLowPerformance (performanceMetrics firstLowSession) = 0"
    by (simp add: firstLowSession_def p2 sessionMetrics_fields engineHolding_fields)
qed

lemma lowSession_run:
  "playSessions (engineHolding 4 [] 0) [5, 6, 4, 5, 5] = snd (calculateDifficulty thirdLowSession)"
  by (simp add: playSessions_def thirdLowSession_def secondLowSession_def firstLowSession_def
      endGameSession_def)

lemma lowSession_evaluations:
  "lowEvaluation firstLowSession" "lowEvaluation secondLowSession" "lowEvaluation thirdLowSession"
  "numbersInRange firstLowSession" "numbersInRange secondLowSession" "numbersInRange thirdLowSession"
  by (simp_all add: lowEvaluation_def numbersInRange_def averageRecentScore_def lowSession_fields
      thresholds_small_average example_means doubleInRange_numeral)


text \<open>The scores and averages of the three states of the high run.\<close>

lemma highState_fields:
  "recentScores (performanceMetrics firstHighState) = [100, 100, 100]"
  "recentScores (performanceMetrics secondHighState) = [100, 100, 120]"
  "recentScores (performanceMetrics thirdHighState) = [100, 120, 140]"
  "averageScore (performanceMetrics firstHighState) = 0"
  "averageScore (performanceMetrics secondHighState) = 60"
  "averageScore (performanceMetrics thirdHighState) = 90"
  "currentDifficulty (adaptationSettings firstHighState) = 4"
  "consecutiveHighPerformance (performanceMetrics firstHighState) = 0"
  by (simp_all add: firstHighState_def secondHighState_def thirdHighState_def withScores_fields
      engineHolding_fields)

lemma highPerformanceThreshold_average:
  "highPerformanceThreshold e =
     fl (max 50 (fl (averageScore (performanceMetrics e) * fl (8 / 10))) * fl (15 / 10))"
  unfolding highPerformanceThreshold_def scoreThreshold_def ..

lemma highState_thresholds:
  "highPerformanceThreshold firstHighState = 75"
  "highPerformanceThreshold secondHighState = 75"
  "highPerformanceThreshold thirdHighState = 108"
proof -
  show "highPerformanceThreshold firstHighState = 75" "highPerformanceThreshold secondHighState = 75"
    by (simp_all add: thresholds_small_average highState_fields)
  show "highPerformanceThreshold thirdHighState = 108"
    unfolding highPerformanceThreshold_average highState_fields by (rule example_threshold)
qed

lemma highState_evaluations:
  "highEvaluation firstHighState" "highEvaluation secondHighState" "highEvaluation thirdHighState"
  "numbersInRange firstHighState" "numbersInRange secondHighState" "numbersInRange thirdHighState"
  by (simp_all add: highEvaluation_def numbersInRange_def averageRecentScore_def highState_fields
      highState_thresholds example_means doubleInRange_numeral)

text \<open>
  Witness for C3. The low run: at difficulty 4 the sessions scoring 4, 5 and 5, played after
  sessions scoring 5 and 6, are three evaluations in a row with the mean 5 against the low
  threshold 25; the third lowers the difficulty to 3 and resets the low streak counter. The
  high run: three evaluations at difficulty 4 with the means 100, about 106.7 and 120
  against the thresholds 75, 75 and 108 raise the difficulty to 5 on the third and reset the
  high streak counter.
\<close>

theorem three_evaluations_streak_witness:
  "sameController (snd (calculateDifficulty firstLowSession)) secondLowSession
   \<and> sameController (snd (calculateDifficulty secondLowSession)) thirdLowSession
   \<and> numbersInRange firstLowSession \<and> numbersInRange secondLowSession \<and> numbersInRange thirdLowSession
   \<and> doubleInRange (currentDifficulty (adaptationSettings firstLowSession))
   \<and> lowEvaluation firstLowSession \<and> lowEvaluation secondLowSession \<and> lowEvaluation thirdLowSession
   \<and> lowPerformanceThreshold thirdLowSession = 25
   \<and> consecutiveLowPerformance (performanceMetrics firstLowSession) = 0
   \<and> currentDifficulty (adaptationSettings firstLowSession) = 4
   \<and> currentDifficulty (adaptationSettings (playSessions (engineHolding 4 [] 0) [5, 6, 4, 5])) = 4
   \<and> currentDifficulty (adaptationSettings (playSessions (engineHolding 4 [] 0) [5, 6, 4, 5, 5])) = 3
   \<and> consecutiveLowPerformance (performanceMetrics (playSessions (engineHolding 4 [] 0) [5, 6, 4, 5, 5])) = 0
   \<and> sameController (snd (calculateDifficulty firstHighState)) secondHighState
   \<and> sameController (snd (calculateDifficulty secondHighState)) thirdHighState
   \<and> numbersInRange firstHighState \<and> numbersInRange secondHighState \<and> numbersInRange thirdHighState
   \<and> highEvaluation firstHighState \<and> highEvaluation secondHighState \<and> highEvaluation thirdHighState
   \<and> highPerformanceThreshold firstHighState = 75 \<and> highPerformanceThreshold thirdHighState = 108
   \<and> consecutiveHighPerformance (performanceMetrics firstHighState) = 0
   \<and> currentDifficulty (adaptationSettings firstHighState) = 4
   \<and> currentDifficulty (adaptationSettings (snd (calculateDifficulty secondHighState))) = 4
   \<and> currentDifficulty (adaptationSettings (snd (calculateDifficulty thirdHighState))) = 5
   \<and> consecutiveHighPerformance (performanceMetrics (snd (calculateDifficulty thirdHighState))) = 0"
proof -
  have four: "doubleInRange 4" "validDifficulty 4" "(4::rat) < 10" "(1::rat) < 4"
    by (simp_all add: doubleInRange_numeral validDifficulty_def)
  have lab: "sameController (snd (calculateDifficulty firstLowSession)) secondLowSession"
    and lbc: "sameController (snd (calculateDifficulty secondLowSession)) thirdLowSession"
    unfolding secondLowSession_def thirdLowSession_def by (rule sameController_session)+
  have ld: "currentDifficulty (adaptationSettings firstLowSession) = 4"
    and lz: "consecutiveLowPerformance (performanceMetrics firstLowSession) = 0"
    by (rule lowSession_fields)+
  have lt: "lowPerformanceThreshold thirdLowSession = 25"
    by (simp add: thresholds_small_average lowSession_fields)
  have run4: "playSessions (engineHolding 4 [] 0) [5, 6, 4, 5] = snd (calculateDifficulty secondLowSession)"
    by (simp add: playSessions_def secondLowSession_def firstLowSession_def endGameSession_def)
  note low = three_evaluations_streak[OF lab lbc lowSession_evaluations(4,5,6), unfolded ld, OF four(1)]
  have l4: "currentDifficulty (adaptationSettings (snd (calculateDifficulty secondLowSession))) = 4"
    and l5: "currentDifficulty (adaptationSettings (snd (calculateDifficulty thirdLowSession))) = 4 - 1"
    and l0: "consecutiveLowPerformance (performanceMetrics (snd (calculateDifficulty thirdLowSession))) = 0"
    using low lowSession_evaluations(1,2,3) lz four by blast+
  have hab: "sameController (snd (calculateDifficulty firstHighState)) secondHighState"
    and hbc: "sameController (snd (calculateDifficulty secondHighState)) thirdHighState"
    unfolding secondHighState_def thirdHighState_def by (rule sameController_withScores)+
  have hd: "currentDifficulty (adaptationSettings firstHighState) = 4"
    and hz: "consecutiveHighPerformance (performanceMetrics firstHighState) = 0"
    by (rule highState_fields)+
  note high = three_evaluations_streak[OF hab hbc highState_evaluations(4,5,6), unfolded hd, OF four(1)]
  have h4: "currentDifficulty (adaptationSettings (snd (calculateDifficulty secondHighState))) = 4"
    and h5: "currentDifficulty (adaptationSettings (snd (calculateDifficulty thirdHighState))) = 4 + 1"
    and h0: "consecutiveHighPerformance (performanceMetrics (snd (calculateDifficulty thirdHighState))) = 0"
    using high highState_evaluations(1,2,3) hz four by blast+
  show ?thesis
    using lab lbc lowSession_evaluations ld lz lt l4 l5 l0 hab hbc highState_evaluations hd hz h4 h5 h0
      highState_thresholds four(1)
    by (simp add: lowSession_run run4)
qed

lemma evaluation_kept:
  "highEvaluation (snd (calculateDifficulty e)) = highEvaluation e"
  "lowEvaluation (snd (calculateDifficulty e)) = lowEvaluation e"
  by (simp_all add: highEvaluation_def lowEvaluation_def calculateDifficulty_scores
      calculateDifficulty_thresholds)

lemma endGameSession_low:
  assumes "lowEvaluation (sessionMetrics e now s)"
  defines "d \<equiv> currentDifficulty (adaptationSettings e)"
    and "k \<equiv> Suc (consecutiveLowPerformance (performanceMetrics e))"
  shows "currentDifficulty (adaptationSettings (endGameSession e now s)) =
           (if 3 \<le> k \<and> d > 1 then max 1 (fl (d - 1)) else d)"
    and "consecutiveLowPerformance (performanceMetrics (endGameSession e now s)) =
           (if 3 \<le> k \<and> d > 1 then 0 else k)"
  using calculateDifficulty_low(1,2)[OF assms(1)]
  by (simp_all add: endGameSession_def sessionMetrics_fields d_def k_def)

text \<open>
  Counterexample to C3 as stated. At difficulty 10, three consecutive evaluations of the
  scores 100, 100, 100 against the threshold 75, with nothing changed in between and starting
  from a high streak of 0, leave the difficulty at 10 and the high streak counter at 3, not
  0. At difficulty 1, five sessions of a freshly constructed engine each scoring 5 make
  three consecutive evaluations with the mean 5 against the low threshold 25, the first after
  the third session: the low streak counter, 0 after two sessions, ends at 3, not 0.
\<close>

theorem streak_not_reset_at_the_bounds:
  "highEvaluation (engineHolding 10 [100, 100, 100] 0)
   \<and> highPerformanceThreshold (engineHolding 10 [100, 100, 100] 0) = 75
   \<and> averageRecentScore (engineHolding 10 [100, 100, 100] 0) = 100
   \<and> consecutiveHighPerformance (performanceMetrics (engineHolding 10 [100, 100, 100] 0)) = 0
   \<and> currentDifficulty (adaptationSettings (threeEvaluations (engineHolding 10 [100, 100, 100] 0))) = 10
   \<and> consecutiveHighPerformance (performanceMetrics (threeEvaluations (engineHolding 10 [100, 100, 100] 0))) = 3
   \<and> consecutiveLowPerformance (performanceMetrics (playSessions (AIEngine 20 40 40) [5, 5])) = 0
   \<and> currentDifficulty (adaptationSettings (playSessions (AIEngine 20 40 40) [5, 5])) = 1
   \<and> lowEvaluation (sessionMetrics (playSessions (AIEngine 20 40 40) [5, 5]) 0 5)
   \<and> lowEvaluation (sessionMetrics (playSessions (AIEngine 20 40 40) [5, 5, 5]) 0 5)
   \<and> lowEvaluation (sessionMetrics (playSessions (AIEngine 20 40 40) [5, 5, 5, 5]) 0 5)
   \<and> currentDifficulty (adaptationSettings (playSessions (AIEngine 20 40 40) [5, 5, 5, 5, 5])) = 1
   \<and> consecutiveLowPerformance (performanceMetrics (playSessions (AIEngine 20 40 40) [5, 5, 5, 5, 5])) = 3"
proof -
  let ?h = "engineHolding 10 [100, 100, 100] 0"
  let ?h1 = "snd (calculateDifficulty ?h)"
  let ?h2 = "snd (calculateDifficulty ?h1)"
  have th: "highPerformanceThreshold ?h = 75" and mh: "averageRecentScore ?h = 100"
    by (simp_all add: thresholds_small_average averageRecentScore_def engineHolding_fields example_means)
  then have "highEvaluation ?h"
    by (simp add: highEvaluation_def engineHolding_fields)
  then have h: "highEvaluation ?h" "highEvaluation ?h1" "highEvaluation ?h2"
    by (simp_all add: evaluation_kept)
  have z: "consecutiveHighPerformance (performanceMetrics ?h) = 0"
    by (simp add: engineHolding_fields)
  have h1: "currentDifficulty (adaptationSettings ?h1) = 10"
    "consecutiveHighPerformance (performanceMetrics ?h1) = 1"
    using calculateDifficulty_high(1,2)[OF h(1)] by (simp_all add: engineHolding_fields)
  have h2: "currentDifficulty (adaptationSettings ?h2) = 10"
    "consecutiveHighPerformance (performanceMetrics ?h2) = 2"
    using calculateDifficulty_high(1,2)[OF h(2)] h1 by simp_all
  have h3: "currentDifficulty (adaptationSettings (threeEvaluations ?h)) = 10"
    "consecutiveHighPerformance (performanceMetrics (threeEvaluations ?h)) = 3"
    using calculateDifficulty_high(1,2)[OF h(3)] h2 by (simp_all add: threeEvaluations_def)
  let ?e = "AIEngine 20 40 40"
  have e0: "recentScores (performanceMetrics ?e) = []"
    "currentDifficulty (adaptationSettings ?e) = 1"
    "consecutiveLowPerformance (performanceMetrics ?e) = 0"
    by (simp_all add: small_engine)
  have p2: "playSessions ?e [5, 5] = sessionMetrics (sessionMetrics ?e 0 5) 0 5"
    by (simp add: playSessions_def endGameSession_few sessionMetrics_fields e0)
  have s2: "recentScores (performanceMetrics (playSessions ?e [5, 5])) = [5, 5]"
    "currentDifficulty (adaptationSettings (playSessions ?e [5, 5])) = 1"
    "consecutiveLowPerformance (performanceMetrics (playSessions ?e [5, 5])) = 0"
    by (simp_all add: p2 sessionMetrics_fields e0)
  have step: "playSessions ?e [5, 5, 5] = endGameSession (playSessions ?e [5, 5]) 0 5"
    "playSessions ?e [5, 5, 5, 5] = endGameSession (playSessions ?e [5, 5, 5]) 0 5"
    "playSessions ?e [5, 5, 5, 5, 5] = endGameSession (playSessions ?e [5, 5, 5, 5]) 0 5"
    by (simp_all add: playSessions_def)
  have r3: "recentScores (performanceMetrics (sessionMetrics (playSessions ?e [5, 5]) 0 5)) = [5, 5, 5]"
    by (simp add: sessionMetrics_fields s2)
  then have s3: "recentScores (performanceMetrics (playSessions ?e [5, 5, 5])) = [5, 5, 5]"
    by (simp add: step endGameSession_scores)
  then have r4: "recentScores (performanceMetrics (sessionMetrics (playSessions ?e [5, 5, 5]) 0 5)) = [5, 5, 5, 5]"
    by (simp add: sessionMetrics_fields)
  then have s4: "recentScores (performanceMetrics (playSessions ?e [5, 5, 5, 5])) = [5, 5, 5, 5]"
    by (simp add: step endGameSession_scores)
  then have r5: "recentScores (performanceMetrics (sessionMetrics (playSessions ?e [5, 5, 5, 5]) 0 5)) = [5, 5, 5, 5, 5]"
    by (simp add: sessionMetrics_fields)
  have l3: "lowEvaluation (sessionMetrics (playSessions ?e [5, 5]) 0 5)"
    by (simp add: lowEvaluation_def averageRecentScore_def r3 thresholds_small_average
        sessionMetrics_fields(2) example_means)
  have l4: "lowEvaluation (sessionMetrics (playSessions ?e [5, 5, 5]) 0 5)"
    by (simp add: lowEvaluation_def averageRecentScore_def r4 thresholds_small_average
        sessionMetrics_fields(2) example_means)
  have l5: "lowEvaluation (sessionMetrics (playSessions ?e [5, 5, 5, 5]) 0 5)"
    by (simp add: lowEvaluation_def averageRecentScore_def r5 thresholds_small_average
        sessionMetrics_fields(2) example_means)
  have c3: "currentDifficulty (adaptationSettings (playSessions ?e [5, 5, 5])) = 1"
    "consecutiveLowPerformance (performanceMetrics (playSessions ?e [5, 5, 5])) = 1"
    unfolding step using endGameSession_low[OF l3] s2 by simp_all
  have c4: "currentDifficulty (adaptationSettings (playSessions ?e [5, 5, 5, 5])) = 1"
    "consecutiveLowPerformance (performanceMetrics (playSessions ?e [5, 5, 5, 5])) = 2"
    unfolding step(2) using endGameSession_low[OF l4] c3 by simp_all
  have c5: "currentDifficulty (adaptationSettings (playSessions ?e [5, 5, 5, 5, 5])) = 1"
    "consecutiveLowPerformance (performanceMetrics (playSessions ?e [5, 5, 5, 5, 5])) = 3"
    unfolding step(3) using endGameSession_low[OF l5] c4 by simp_all
  from h(1) th mh z h3 s2 l3 l4 l5 c5 show ?thesis by simp
qed

text \<open>
  \<open>endGameSession\<close> sets \<open>averageScore\<close> to the mean of the very scores that
  \<open>calculateDifficulty\<close> then evaluates. That mean is below the high-performance threshold
  computed from it, also as doubles, so an evaluation made by \<open>endGameSession\<close> never
  takes the high-performance branch and never raises a difficulty that is a double. The
  high-performance half of the streak property concerns states whose average score is not
  the mean of the recent scores, as a loaded snapshot can install them.
\<close>

lemma fresh_average_never_high:
  assumes "averageScore (performanceMetrics e) = averageRecentScore e"
  shows "averageRecentScore e < highPerformanceThreshold e"
proof -
  define m where "m = averageRecentScore e"
  define st where "st = scoreThreshold e"
  let ?c = "3602879701896397 / 4503599627370496 :: rat"
  have st_def': "st = max 50 (fl (m * ?c))"
    unfolding st_def m_def scoreThreshold_def fl_constants assms ..
  have T: "highPerformanceThreshold e = fl (st * (3 / 2))"
    unfolding highPerformanceThreshold_def fl_constants st_def ..
  have st50: "50 \<le> st" by (simp add: st_def')
  have "of_int 75 \<le> st * (3 / 2)" using st50 by simp
  then have "fl (of_int 75) \<le> fl (st * (3 / 2))" by (rule fl_mono)
  moreover have "fl (of_int 75) = of_int 75" by (rule fl_of_int) simp
  ultimately have T75: "75 \<le> fl (st * (3 / 2))" by simp
  show ?thesis
  proof (cases "m < 75")
    case True
    then show ?thesis using T75 by (simp add: T flip: m_def)
  next
    case False
    then have m: "75 \<le> m" by simp
    have "\<bar>fl (m * ?c) - m * ?c\<bar> \<le> \<bar>m * ?c\<bar> / 2 ^ 53"
      using m by (intro fl_relative_error) simp
    then have "m * ?c - m * ?c / 2 ^ 53 \<le> fl (m * ?c)"
      using m by linarith
    moreover have "fl (m * ?c) \<le> st" by (simp add: st_def')
    ultimately have 1: "m * ?c - m * ?c / 2 ^ 53 \<le> st" by simp
    have "\<bar>fl (st * (3 / 2)) - st * (3 / 2)\<bar> \<le> \<bar>st * (3 / 2)\<bar> / 2 ^ 53"
      using st50 by (intro fl_relative_error) simp
    then have 2: "st * (3 / 2) - st * (3 / 2) / 2 ^ 53 \<le> fl (st * (3 / 2))"
      using st50 by linarith
    have "m < fl (st * (3 / 2))"
      using 1 2 m by simp
    then show ?thesis by (simp add: T flip: m_def)
  qed
qed

lemma calculateDifficulty_not_high:
  assumes "averageRecentScore e < highPerformanceThreshold e"
    and "fl (currentDifficulty (adaptationSettings e)) = currentDifficulty (adaptationSettings e)"
  shows "currentDifficulty (adaptationSettings (snd (calculateDifficulty e)))
           \<le> currentDifficulty (adaptationSettings e)"
proof -
  have "fl (currentDifficulty (adaptationSettings e) - 1) \<le> fl (currentDifficulty (adaptationSettings e))"
    by (rule fl_mono) simp
  then have "fl (currentDifficulty (adaptationSettings e) - 1) \<le> currentDifficulty (adaptationSettings e)"
    by (simp only: assms(2))
  then show ?thesis
    using assms(1)
    by (auto simp: calculateDifficulty_def Let_def updateVisualIntensityFromDifficulty_fields max_def)
qed

lemma endGameSession_never_raises:
  assumes "fl (currentDifficulty (adaptationSettings e)) = currentDifficulty (adaptationSettings e)"
  shows "currentDifficulty (adaptationSettings (endGameSession e now finalScore))
           \<le> currentDifficulty (adaptationSettings e)"
proof -
  let ?e1 = "sessionMetrics e now finalScore"
  have "averageScore (performanceMetrics ?e1) = averageRecentScore ?e1"
    by (simp add: averageRecentScore_def sessionMetrics_fields(2))
  then have "averageRecentScore ?e1 < highPerformanceThreshold ?e1"
    by (rule fresh_average_never_high)
  then have "currentDifficulty (adaptationSettings (snd (calculateDifficulty ?e1)))
               \<le> currentDifficulty (adaptationSettings ?e1)"
    by (rule calculateDifficulty_not_high) (simp add: sessionMetrics_fields assms)
  then show ?thesis by (simp add: endGameSession_def sessionMetrics_fields)
qed

section \<open>The stored difficulty\<close>

lemma calculateDifficulty_new_difficulty:
  fixes e defines "d \<equiv> currentDifficulty (adaptationSettings e)"
    and "d' \<equiv> currentDifficulty (adaptationSettings (snd (calculateDifficulty e)))"
  shows "d' = d \<or> (d < 10 \<and> d' = min 10 (fl (d + 1))) \<or> (1 < d \<and> d' = max 1 (fl (d - 1)))"
  unfolding d_def d'_def
  by (auto simp: calculateDifficulty_def Let_def updateVisualIntensityFromDifficulty_fields)

lemma calculateDifficulty_returns_stored:
  "fst (calculateDifficulty e) = currentDifficulty (adaptationSettings (snd (calculateDifficulty e)))"
  by (auto simp: calculateDifficulty_def Let_def updateVisualIntensityFromDifficulty_fields)

lemma validDifficulty_step:
  assumes "validDifficulty d"
    and "d' = d \<or> (d < 10 \<and> d' = min 10 (fl (d + 1))) \<or> (1 < d \<and> d' = max 1 (fl (d - 1)))"
  shows "validDifficulty d'"
proof -
  from assms(1) obtain k where k: "d = of_int k" "1 \<le> k" "k \<le> 10"
    by (auto simp: validDifficulty_int)
  note exact = validDifficulty_step_exact[OF assms(1)]
  from assms(2) consider "d' = d" | "d < 10" "d' = min 10 (d + 1)" | "1 < d" "d' = max 1 (d - 1)"
    unfolding exact by blast
  then show ?thesis
  proof cases
    case 1
    with assms(1) show ?thesis by simp
  next
    case 2
    then have "k < 10" using k by simp
    then have "d' = of_int (k + 1)" using 2 k by (simp add: min_def)
    then show ?thesis using k \<open>k < 10\<close> unfolding validDifficulty_int by (intro exI[of _ "k + 1"]) simp
  next
    case 3
    then have "1 < k" using k by simp
    then have "d' = of_int (k - 1)" using 3 k by (simp add: max_def)
    then show ?thesis using k \<open>1 < k\<close> unfolding validDifficulty_int by (intro exI[of _ "k - 1"]) simp
  qed
qed

lemma calculateDifficulty_valid:
  "validDifficulty (currentDifficulty (adaptationSettings e)) \<Longrightarrow>
   validDifficulty (currentDifficulty (adaptationSettings (snd (calculateDifficulty e))))"
  by (rule validDifficulty_step[OF _ calculateDifficulty_new_difficulty])

lemma endGameSession_valid:
  assumes "validDifficulty (currentDifficulty (adaptationSettings e))"
  shows "validDifficulty (currentDifficulty (adaptationSettings (endGameSession e now finalScore)))"
proof -
  obtain e' where e': "endGameSession e now finalScore = snd (calculateDifficulty e')"
    and same: "adaptationSettings e' = adaptationSettings e"
    by (simp add: endGameSession_def sessionMetrics_fields)
  show ?thesis unfolding e' using assms same by (intro calculateDifficulty_valid) simp
qed

lemma constructor_valid: "validDifficulty (currentDifficulty (adaptationSettings (AIEngine g cw ch)))"
  by (simp add: AIEngine_def Let_def validDifficulty_def)

section \<open>Snapshots\<close>

lemma lookup_merge:
  "lookup (AList.merge old new) k = (case map_of new k of Some v \<Rightarrow> v | None \<Rightarrow> lookup old k)"
  by (simp add: lookup_def merge_conv' map_add_def split: option.splits)

lemma loadBehaviorData_null: "data = JNull \<or> data = JUndefined \<Longrightarrow> loadBehaviorData s data = Inl TypeError"
  by (auto simp: loadBehaviorData_def getProperty_def)

lemma loadBehaviorData_result:
  assumes "data \<noteq> JNull" "data \<noteq> JUndefined"
  shows "loadBehaviorData s data =
    Inr (JUndefined,
      \<lparr> st_movementHeatmap =
          (if truthy (readProperty data ''movementHeatmap'')
           then readProperty data ''movementHeatmap'' else st_movementHeatmap s),
        st_performanceMetrics =
          (if truthy (readProperty data ''performanceMetrics'')
           then AList.merge (st_performanceMetrics s) (ownProperties (readProperty data ''performanceMetrics''))
           else st_performanceMetrics s),
        st_adaptationSettings =
          (if truthy (readProperty data ''adaptationSettings'')
           then AList.merge (st_adaptationSettings s) (ownProperties (readProperty data ''adaptationSettings''))
           else st_adaptationSettings s) \<rparr>)"
  using assms by (simp add: loadBehaviorData_def getProperty_def Let_def)

text \<open>
  Claim C6, amended. The constructor (with a non-zero cell size) stores the valid
  difficulty 1. \<open>setDifficulty\<close> stores its argument exactly when it lies between 1 and
  10, whether or not it is an integer, and otherwise returns the engine unchanged, raising
  nothing. \<open>calculateDifficulty\<close> and
  \<open>endGameSession\<close> keep a valid difficulty (an integer from 1 to 10) valid, and so does
  \<open>setDifficulty\<close> when its argument is an integer. \<open>loadBehaviorData\<close> checks nothing: when
  the snapshot's \<open>adaptationSettings\<close> has an own property \<open>currentDifficulty\<close>, its value,
  whatever it is, becomes the stored difficulty.
\<close>

theorem stored_difficulty_by_entry_point:
  "(g \<noteq> 0 \<longrightarrow> validDifficulty (currentDifficulty (adaptationSettings (AIEngine g cw ch))))
   \<and> (1 \<le> x \<and> x \<le> 10 \<longrightarrow> currentDifficulty (adaptationSettings (setDifficulty e x)) = x)
   \<and> (\<not> (1 \<le> x \<and> x \<le> 10) \<longrightarrow> setDifficulty e x = e)
   \<and> (validDifficulty (currentDifficulty (adaptationSettings e)) \<longrightarrow>
         validDifficulty (currentDifficulty (adaptationSettings (snd (calculateDifficulty e))))
       \<and> validDifficulty (currentDifficulty (adaptationSettings (endGameSession e now finalScore)))
       \<and> (of_int \<lfloor>x\<rfloor> = x \<longrightarrow>
            validDifficulty (currentDifficulty (adaptationSettings (setDifficulty e x)))))
   \<and> (data \<noteq> JNull \<and> data \<noteq> JUndefined
       \<and> truthy (readProperty data ''adaptationSettings'')
       \<and> map_of (ownProperties (readProperty data ''adaptationSettings'')) ''currentDifficulty'' = Some v \<longrightarrow>
         (\<exists>s'. loadBehaviorData s data = Inr (JUndefined, s')
              \<and> lookup (st_adaptationSettings s') ''currentDifficulty'' = v))"
proof (intro conjI impI)
  show "validDifficulty (currentDifficulty (adaptationSettings (AIEngine g cw ch)))"
    by (rule constructor_valid)
next
  assume "1 \<le> x \<and> x \<le> 10"
  then show "currentDifficulty (adaptationSettings (setDifficulty e x)) = x"
    by (simp add: setDifficulty_def)
next
  assume "\<not> (1 \<le> x \<and> x \<le> 10)"
  then show "setDifficulty e x = e"
    by (auto simp: setDifficulty_def)
next
  assume "validDifficulty (currentDifficulty (adaptationSettings e))"
  then show "validDifficulty (currentDifficulty (adaptationSettings (snd (calculateDifficulty e))))"
    by (rule calculateDifficulty_valid)
next
  assume "validDifficulty (currentDifficulty (adaptationSettings e))"
  then show "validDifficulty (currentDifficulty (adaptationSettings (endGameSession e now finalScore)))"
    by (rule endGameSession_valid)
next
  assume v: "validDifficulty (currentDifficulty (adaptationSettings e))" and i: "of_int \<lfloor>x\<rfloor> = x"
  show "validDifficulty (currentDifficulty (adaptationSettings (setDifficulty e x)))"
  proof (cases "1 \<le> x \<and> x \<le> 10")
    case True
    then show ?thesis using i by (simp add: setDifficulty_def validDifficulty_def)
  next
    case False
    then show ?thesis using v by (auto simp: setDifficulty_def)
  qed
next
  assume a: "data \<noteq> JNull \<and> data \<noteq> JUndefined
       \<and> truthy (readProperty data ''adaptationSettings'')
       \<and> map_of (ownProperties (readProperty data ''adaptationSettings'')) ''currentDifficulty'' = Some v"
  then show "\<exists>s'. loadBehaviorData s data = Inr (JUndefined, s')
              \<and> lookup (st_adaptationSettings s') ''currentDifficulty'' = v"
    by (simp add: loadBehaviorData_result lookup_merge)
qed

text \<open>The three fields of the freshly constructed two by two engine, and of one holding another difficulty.\<close>

lemma fresh_store:
  "storeOf (AIEngine 20 40 40) =
     \<lparr> st_movementHeatmap = JArr [JArr [JNum 0, JNum 0], JArr [JNum 0, JNum 0]],
       st_performanceMetrics =
         [(''averageScore'', JNum 0), (''averageGameDuration'', JNum 0),
          (''recentScores'', JArr []), (''difficultyProgression'', JArr [JNum 1]),
          (''gameStartTime'', JNull), (''totalGamesPlayed'', JNum 0),
          (''consecutiveHighPerformance'', JNum 0), (''consecutiveLowPerformance'', JNum 0)],
       st_adaptationSettings =
         [(''currentDifficulty'', JNum 1), (''foodPlacementStrategy'', JStr ''random''),
          (''visualIntensityLevel'', JNum 1)] \<rparr>"
  by (simp add: storeOf_def small_engine numbers_def strategyTag_def)

lemma holding_store:
  "storeOf (engineHolding d [] 0) =
     (storeOf (AIEngine 20 40 40))
       \<lparr> st_adaptationSettings :=
           [(''currentDifficulty'', JNum d), (''foodPlacementStrategy'', JStr ''random''),
            (''visualIntensityLevel'', JNum 1)] \<rparr>"
  by (simp add: storeOf_def engineHolding_def small_engine numbers_def strategyTag_def)

text \<open>
  Witness for C6 on the freshly constructed two by two engine: \<open>setDifficulty(11)\<close> changes
  nothing, \<open>setDifficulty(5)\<close> stores 5, an evaluation and a session ending with score 5 keep
  the difficulty valid, and a snapshot carrying \<open>currentDifficulty = 7\<close> is stored.
\<close>

theorem stored_difficulty_by_entry_point_witness:
  "setDifficulty (AIEngine 20 40 40) 11 = AIEngine 20 40 40
   \<and> currentDifficulty (adaptationSettings (setDifficulty (AIEngine 20 40 40) 5)) = 5
   \<and> validDifficulty (currentDifficulty (adaptationSettings (snd (calculateDifficulty (AIEngine 20 40 40)))))
   \<and> validDifficulty (currentDifficulty (adaptationSettings (endGameSession (AIEngine 20 40 40) 0 5)))
   \<and> validDifficulty (currentDifficulty (adaptationSettings (setDifficulty (AIEngine 20 40 40) 5)))
   \<and> (\<exists>s'. loadBehaviorData (storeOf (AIEngine 20 40 40))
               (JObj [(''adaptationSettings'', JObj [(''currentDifficulty'', JNum 7)])])
             = Inr (JUndefined, s')
          \<and> lookup (st_adaptationSettings s') ''currentDifficulty'' = JNum 7)"
proof -
  let ?e = "AIEngine 20 40 40"
  let ?data = "JObj [(''adaptationSettings'', JObj [(''currentDifficulty'', JNum 7)])]"
  note t = stored_difficulty_by_entry_point
  have "(20 :: int) \<noteq> 0" by simp
  then have v: "validDifficulty (currentDifficulty (adaptationSettings ?e))"
    using t[where g = 20 and cw = 40 and ch = 40] by blast
  have i5: "of_int \<lfloor>5 :: rat\<rfloor> = (5 :: rat)" by simp
  have r11: "\<not> (1 \<le> (11 :: rat) \<and> (11 :: rat) \<le> 10)" and r5: "1 \<le> (5 :: rat) \<and> (5 :: rat) \<le> 10"
    by simp_all
  have "setDifficulty ?e 11 = ?e"
    using t[where x = 11 and e = ?e] r11 by blast
  moreover have "currentDifficulty (adaptationSettings (setDifficulty ?e 5)) = 5"
    using t[where x = 5 and e = ?e] r5 by blast
  moreover have "validDifficulty (currentDifficulty (adaptationSettings (snd (calculateDifficulty ?e))))"
    "validDifficulty (currentDifficulty (adaptationSettings (endGameSession ?e 0 5)))"
    "validDifficulty (currentDifficulty (adaptationSettings (setDifficulty ?e 5)))"
    using t[where x = 5 and e = ?e and now = 0 and finalScore = 5] v i5 by blast+
  moreover have d: "?data \<noteq> JNull \<and> ?data \<noteq> JUndefined
       \<and> truthy (readProperty ?data ''adaptationSettings'')
       \<and> map_of (ownProperties (readProperty ?data ''adaptationSettings'')) ''currentDifficulty''
           = Some (JNum 7)"
    by (simp add: lookup_def)
  have "\<exists>s'. loadBehaviorData (storeOf ?e) ?data = Inr (JUndefined, s')
          \<and> lookup (st_adaptationSettings s') ''currentDifficulty'' = JNum 7"
    using t[where data = ?data and v = "JNum 7" and s = "storeOf ?e"] d by blast
  ultimately show ?thesis by blast
qed

text \<open>
  Counterexample to C6 as stated. The freshly constructed engine holds the valid difficulty
  1. The snapshot that \<open>getBehaviorData\<close> yields for an engine differing only in holding
  difficulty 99 passes \<open>isValidAIBehaviorData\<close>; \<open>loadBehaviorData\<close> applies it, and the
  stored difficulty is 99, outside 1 to 10. Also \<open>setDifficulty(2.5)\<close> stores 2.5, which is
  within the range but not an integer.
\<close>

theorem loaded_difficulty_unchecked:
  "validDifficulty (currentDifficulty (adaptationSettings (AIEngine 20 40 40)))
   \<and> isValidAIBehaviorData (getBehaviorData (storeOf (engineHolding 99 [] 0)))
   \<and> loadBehaviorData (storeOf (AIEngine 20 40 40)) (getBehaviorData (storeOf (engineHolding 99 [] 0)))
       = Inr (JUndefined, storeOf (engineHolding 99 [] 0))
   \<and> lookup (st_adaptationSettings (storeOf (engineHolding 99 [] 0))) ''currentDifficulty'' = JNum 99
   \<and> \<not> validDifficulty 99
   \<and> currentDifficulty (adaptationSettings (setDifficulty (AIEngine 20 40 40) (5 / 2))) = 5 / 2
   \<and> \<not> validDifficulty (5 / 2)"
proof -
  have "validDifficulty (currentDifficulty (adaptationSettings (AIEngine 20 40 40)))"
    by (rule constructor_valid)
  moreover have "isValidAIBehaviorData (getBehaviorData (storeOf (engineHolding 99 [] 0)))"
    by (simp add: holding_store fresh_store getBehaviorData_def isValidAIBehaviorData_def lookup_def)
  moreover have "loadBehaviorData (storeOf (AIEngine 20 40 40)) (getBehaviorData (storeOf (engineHolding 99 [] 0)))
       = Inr (JUndefined, storeOf (engineHolding 99 [] 0))"
    by (simp add: holding_store fresh_store getBehaviorData_def loadBehaviorData_result lookup_def)
  moreover have "lookup (st_adaptationSettings (storeOf (engineHolding 99 [] 0))) ''currentDifficulty'' = JNum 99"
    by (simp add: holding_store lookup_def)
  moreover have "\<lfloor>(5 :: rat) / 2\<rfloor> = 2"
    by (simp add: floor_eq_iff)
  then have "\<not> validDifficulty 99" "\<not> validDifficulty (5 / 2)"
    by (simp_all add: validDifficulty_def)
  moreover have "currentDifficulty (adaptationSettings (setDifficulty (AIEngine 20 40 40) (5 / 2))) = 5 / 2"
    by (simp add: setDifficulty_def)
  ultimately show ?thesis by blast
qed

section \<open>What \<open>loadBehaviorData\<close> does with a snapshot\<close>

text \<open>
  Claim C5, amended. \<open>loadBehaviorData\<close> validates nothing and returns no boolean. Given
  \<open>null\<close> or \<open>undefined\<close> it throws a TypeError before it assigns anything. Given any other
  value it returns \<open>undefined\<close> and applies the snapshot field by field: the heatmap is
  replaced by the snapshot's \<open>movementHeatmap\<close> whenever that is truthy; in
  \<open>performanceMetrics\<close> and \<open>adaptationSettings\<close> every own property of the snapshot's value,
  when that is truthy, overwrites the key of the same name, and every other key keeps its
  value. The engine's fields stay as they were when the snapshot has no truthy
  \<open>movementHeatmap\<close> and its \<open>performanceMetrics\<close> and \<open>adaptationSettings\<close> are falsy or
  have no own property.
\<close>

theorem loadBehaviorData_applies_field_by_field:
  "(data = JNull \<or> data = JUndefined \<longrightarrow> loadBehaviorData s data = Inl TypeError)
   \<and> (data \<noteq> JNull \<and> data \<noteq> JUndefined \<longrightarrow>
        (\<exists>s'. loadBehaviorData s data = Inr (JUndefined, s')
           \<and> st_movementHeatmap s' =
               (if truthy (readProperty data ''movementHeatmap'')
                then readProperty data ''movementHeatmap'' else st_movementHeatmap s)
           \<and> (\<forall>k. lookup (st_performanceMetrics s') k =
                 (if truthy (readProperty data ''performanceMetrics'')
                  then (case map_of (ownProperties (readProperty data ''performanceMetrics'')) k of
                          Some v \<Rightarrow> v | None \<Rightarrow> lookup (st_performanceMetrics s) k)
                  else lookup (st_performanceMetrics s) k))
           \<and> (\<forall>k. lookup (st_adaptationSettings s') k =
                 (if truthy (readProperty data ''adaptationSettings'')
                  then (case map_of (ownProperties (readProperty data ''adaptationSettings'')) k of
                          Some v \<Rightarrow> v | None \<Rightarrow> lookup (st_adaptationSettings s) k)
                  else lookup (st_adaptationSettings s) k))
           \<and> (\<not> truthy (readProperty data ''movementHeatmap'')
               \<and> (\<not> truthy (readProperty data ''performanceMetrics'')
                    \<or> ownProperties (readProperty data ''performanceMetrics'') = [])
               \<and> (\<not> truthy (readProperty data ''adaptationSettings'')
                    \<or> ownProperties (readProperty data ''adaptationSettings'') = [])
               \<longrightarrow> s' = s)))"
proof (intro conjI impI)
  assume "data = JNull \<or> data = JUndefined"
  then show "loadBehaviorData s data = Inl TypeError"
    by (rule loadBehaviorData_null)
next
  assume "data \<noteq> JNull \<and> data \<noteq> JUndefined"
  then have r: "loadBehaviorData s data =
    Inr (JUndefined,
      \<lparr> st_movementHeatmap =
          (if truthy (readProperty data ''movementHeatmap'')
           then readProperty data ''movementHeatmap'' else st_movementHeatmap s),
        st_performanceMetrics =
          (if truthy (readProperty data ''performanceMetrics'')
           then AList.merge (st_performanceMetrics s) (ownProperties (readProperty data ''performanceMetrics''))
           else st_performanceMetrics s),
        st_adaptationSettings =
          (if truthy (readProperty data ''adaptationSettings'')
           then AList.merge (st_adaptationSettings s) (ownProperties (readProperty data ''adaptationSettings''))
           else st_adaptationSettings s) \<rparr>)"
    by (simp add: loadBehaviorData_result)
  show "\<exists>s'. loadBehaviorData s data = Inr (JUndefined, s')
           \<and> st_movementHeatmap s' =
               (if truthy (readProperty data ''movementHeatmap'')
                then readProperty data ''movementHeatmap'' else st_movementHeatmap s)
           \<and> (\<forall>k. lookup (st_performanceMetrics s') k =
                 (if truthy (readProperty data ''performanceMetrics'')
                  then (case map_of (ownProperties (readProperty data ''performanceMetrics'')) k of
                          Some v \<Rightarrow> v | None \<Rightarrow> lookup (st_performanceMetrics s) k)
                  else lookup (st_performanceMetrics s) k))
           \<and> (\<forall>k. lookup (st_adaptationSettings s') k =
                 (if truthy (readProperty data ''adaptationSettings'')
                  then (case map_of (ownProperties (readProperty data ''adaptationSettings'')) k of
                          Some v \<Rightarrow> v | None \<Rightarrow> lookup (st_adaptationSettings s) k)
                  else lookup (st_adaptationSettings s) k))
           \<and> (\<not> truthy (readProperty data ''movementHeatmap'')
               \<and> (\<not> truthy (readProperty data ''performanceMetrics'')
                    \<or> ownProperties (readProperty data ''performanceMetrics'') = [])
               \<and> (\<not> truthy (readProperty data ''adaptationSettings'')
                    \<or> ownProperties (readProperty data ''adaptationSettings'') = [])
               \<longrightarrow> s' = s)"
    unfolding r by (auto simp: lookup_merge)
qed

text \<open>
  Witness for C5 on the freshly constructed two by two engine: \<open>null\<close> throws; the array
  \<open>[1, 2]\<close> changes nothing; the partial snapshot
  \<open>{adaptationSettings: {visualIntensityLevel: 3}}\<close> sets that key, keeps the heatmap and
  keeps the difficulty 1.
\<close>

theorem loadBehaviorData_applies_field_by_field_witness:
  "loadBehaviorData (storeOf (AIEngine 20 40 40)) JNull = Inl TypeError
   \<and> loadBehaviorData (storeOf (AIEngine 20 40 40)) (JArr [JNum 1, JNum 2])
       = Inr (JUndefined, storeOf (AIEngine 20 40 40))
   \<and> (\<exists>s'. loadBehaviorData (storeOf (AIEngine 20 40 40))
               (JObj [(''adaptationSettings'', JObj [(''visualIntensityLevel'', JNum 3)])])
             = Inr (JUndefined, s')
          \<and> st_movementHeatmap s' = st_movementHeatmap (storeOf (AIEngine 20 40 40))
          \<and> lookup (st_adaptationSettings s') ''visualIntensityLevel'' = JNum 3
          \<and> lookup (st_adaptationSettings s') ''currentDifficulty'' = JNum 1)"
proof -
  let ?s = "storeOf (AIEngine 20 40 40)"
  let ?arr = "JArr [JNum 1, JNum 2]"
  let ?part = "JObj [(''adaptationSettings'', JObj [(''visualIntensityLevel'', JNum 3)])]"
  note t = loadBehaviorData_applies_field_by_field
  have "loadBehaviorData ?s JNull = Inl TypeError"
    using t[where data = JNull and s = ?s] by blast
  moreover have "loadBehaviorData ?s ?arr = Inr (JUndefined, ?s)"
  proof -
    have none: "\<not> truthy (readProperty ?arr ''movementHeatmap'')"
      "\<not> truthy (readProperty ?arr ''performanceMetrics'')"
      "\<not> truthy (readProperty ?arr ''adaptationSettings'')"
      by (simp_all add: lookup_def decimal.simps)
    have "?arr \<noteq> JNull \<and> ?arr \<noteq> JUndefined" by simp
    with t[where data = ?arr and s = ?s] none show ?thesis by blast
  qed
  moreover have "\<exists>s'. loadBehaviorData ?s ?part = Inr (JUndefined, s')
          \<and> st_movementHeatmap s' = st_movementHeatmap ?s
          \<and> lookup (st_adaptationSettings s') ''visualIntensityLevel'' = JNum 3
          \<and> lookup (st_adaptationSettings s') ''currentDifficulty'' = JNum 1"
  proof -
    have p: "?part \<noteq> JNull \<and> ?part \<noteq> JUndefined" by simp
    have f: "\<not> truthy (readProperty ?part ''movementHeatmap'')"
      "truthy (readProperty ?part ''adaptationSettings'')"
      "map_of (ownProperties (readProperty ?part ''adaptationSettings'')) ''visualIntensityLevel'' = Some (JNum 3)"
      "map_of (ownProperties (readProperty ?part ''adaptationSettings'')) ''currentDifficulty'' = None"
      "lookup (st_adaptationSettings ?s) ''currentDifficulty'' = JNum 1"
      by (simp_all add: lookup_def fresh_store)
    from t[where data = ?part and s = ?s] p
    obtain s' where s': "loadBehaviorData ?s ?part = Inr (JUndefined, s')"
      and hm: "st_movementHeatmap s' =
               (if truthy (readProperty ?part ''movementHeatmap'')
                then readProperty ?part ''movementHeatmap'' else st_movementHeatmap ?s)"
      and st: "\<And>k. lookup (st_adaptationSettings s') k =
                 (if truthy (readProperty ?part ''adaptationSettings'')
                  then (case map_of (ownProperties (readProperty ?part ''adaptationSettings'')) k of
                          Some v \<Rightarrow> v | None \<Rightarrow> lookup (st_adaptationSettings ?s) k)
                  else lookup (st_adaptationSettings ?s) k)"
      by blast
    have "st_movementHeatmap s' = st_movementHeatmap ?s" using hm f(1) by simp
    moreover have "lookup (st_adaptationSettings s') ''visualIntensityLevel'' = JNum 3"
      using st[of "''visualIntensityLevel''"] f by simp
    moreover have "lookup (st_adaptationSettings s') ''currentDifficulty'' = JNum 1"
      using st[of "''currentDifficulty''"] f by simp
    ultimately show ?thesis using s' by blast
  qed
  ultimately show ?thesis by blast
qed

text \<open>
  Counterexample to C5 as stated. The snapshot
  \<open>{movementHeatmap: 'corrupt', performanceMetrics: 7}\<close> fails \<open>isValidAIBehaviorData\<close>,
  yet \<open>loadBehaviorData\<close> returns \<open>undefined\<close> and has replaced the heatmap, a matrix of
  zeros, by the string: the state is changed, and only in part.
\<close>

theorem malformed_snapshot_is_applied:
  "\<not> isValidAIBehaviorData (JObj [(''movementHeatmap'', JStr ''corrupt''), (''performanceMetrics'', JNum 7)])
   \<and> loadBehaviorData (storeOf (AIEngine 20 40 40))
        (JObj [(''movementHeatmap'', JStr ''corrupt''), (''performanceMetrics'', JNum 7)])
       = Inr (JUndefined, (storeOf (AIEngine 20 40 40))\<lparr>st_movementHeatmap := JStr ''corrupt''\<rparr>)
   \<and> st_movementHeatmap (storeOf (AIEngine 20 40 40))
       = JArr [JArr [JNum 0, JNum 0], JArr [JNum 0, JNum 0]]
   \<and> (storeOf (AIEngine 20 40 40))\<lparr>st_movementHeatmap := JStr ''corrupt''\<rparr> \<noteq> storeOf (AIEngine 20 40 40)"
  by (simp add: isValidAIBehaviorData_def loadBehaviorData_result lookup_def fresh_store)

section \<open>The bounded movement log\<close>

lemma updateHeatmapCell_shape:
  assumes sh: "heatmapShape e"
  shows "\<exists>e'. updateHeatmapCell e p = Some e' \<and> heatmapShape e'
              \<and> e' = e\<lparr>movementHeatmap := movementHeatmap e'\<rparr>"
proof -
  define gx where "gx = \<lfloor>fl ((of_int (pos_x p) :: rat) / of_int (gridSize e))\<rfloor>"
  define gy where "gy = \<lfloor>fl ((of_int (pos_y p) :: rat) / of_int (gridSize e))\<rfloor>"
  have u: "updateHeatmapCell e p =
     (if gx \<ge> 0 \<and> gx < gridWidth e \<and> gy \<ge> 0 \<and> gy < gridHeight e
      then (if nat gy < length (movementHeatmap e) \<and> nat gx < length (movementHeatmap e ! nat gy)
            then Some (e\<lparr>movementHeatmap :=
                   (movementHeatmap e)[nat gy := (movementHeatmap e ! nat gy)
                      [nat gx := increment (movementHeatmap e ! nat gy ! nat gx)]]\<rparr>)
            else None)
      else Some e)"
    unfolding updateHeatmapCell_def Let_def gx_def gy_def ..
  show ?thesis
  proof (cases "gx \<ge> 0 \<and> gx < gridWidth e \<and> gy \<ge> 0 \<and> gy < gridHeight e")
    case True
    then have h: "nat gy < nat (gridHeight e)" and w: "nat gx < nat (gridWidth e)" by linarith+
    have r: "nat gy < length (movementHeatmap e)"
      using sh h by (simp add: heatmapShape_def)
    have c: "nat gx < length (movementHeatmap e ! nat gy)"
      using w shape_row[OF sh h] by simp
    show ?thesis
      unfolding u using True r c heatmapShape_update[OF sh] by simp
  next
    case False
    then show ?thesis
      unfolding u using sh by auto
  qed
qed

lemma updateVisualIntensityFromMovement_fields:
  "movementHistory (updateVisualIntensityFromMovement e) = movementHistory e"
  "maxHistorySize (updateVisualIntensityFromMovement e) = maxHistorySize e"
  "heatmapShape (updateVisualIntensityFromMovement e) = heatmapShape e"
  by (simp_all add: updateVisualIntensityFromMovement_def Let_def heatmapShape_def)

lemma recordMovement_history:
  assumes sh: "heatmapShape e"
  shows "\<exists>e'. recordMovement e now p d c = Some e' \<and> heatmapShape e'
            \<and> maxHistorySize e' = maxHistorySize e
            \<and> movementHistory e' =
                (if length (movementHistory e) + 1 > maxHistorySize e
                 then tl (movementHistory e @ [movementRecordOf now p d c])
                 else movementHistory e @ [movementRecordOf now p d c])"
proof -
  let ?kept = "if length (movementHistory e @ [movementRecordOf now p d c]) > maxHistorySize e
               then tl (movementHistory e @ [movementRecordOf now p d c])
               else movementHistory e @ [movementRecordOf now p d c]"
  have "heatmapShape (e\<lparr>movementHistory := ?kept\<rparr>)"
    using sh by (simp add: heatmapShape_def)
  from updateHeatmapCell_shape[OF this, of p]
  obtain e1 where e1: "updateHeatmapCell (e\<lparr>movementHistory := ?kept\<rparr>) p = Some e1"
    and sh1: "heatmapShape e1"
    and eq: "e1 = e\<lparr>movementHistory := ?kept\<rparr>\<lparr>movementHeatmap := movementHeatmap e1\<rparr>"
    by blast
  have h1: "movementHistory e1 = ?kept" and m1: "maxHistorySize e1 = maxHistorySize e"
    by (subst eq, simp)+
  have "recordMovement e now p d c = Some (updateVisualIntensityFromMovement e1)"
    unfolding recordMovement_def Let_def using e1 by simp
  then show ?thesis
    using sh1 h1 m1 by (simp add: updateVisualIntensityFromMovement_fields)
qed

lemma recordMovements_history:
  assumes "heatmapShape e" and "length (movementHistory e) \<le> maxHistorySize e"
  shows "\<exists>e'. recordMovements e evs = Some e' \<and> heatmapShape e'
            \<and> maxHistorySize e' = maxHistorySize e
            \<and> movementHistory e' =
                drop (length (movementHistory e) + length evs - maxHistorySize e)
                  (movementHistory e @ map eventRecord evs)"
  using assms
proof (induction evs arbitrary: e)
  case Nil
  then show ?case by simp
next
  case (Cons ev evs)
  obtain now p d c where ev: "ev = (now, p, d, c)" by (cases ev) auto
  let ?h = "movementHistory e" and ?r = "movementRecordOf now p d c" and ?cap = "maxHistorySize e"
  from recordMovement_history[OF Cons.prems(1), of now p d c]
  obtain e1 where e1: "recordMovement e now p d c = Some e1" and sh1: "heatmapShape e1"
    and cap1: "maxHistorySize e1 = ?cap"
    and h1: "movementHistory e1 = (if length ?h + 1 > ?cap then tl (?h @ [?r]) else ?h @ [?r])"
    by blast
  have len1: "length (movementHistory e1) \<le> maxHistorySize e1"
    using Cons.prems(2) by (simp add: h1 cap1)
  from Cons.IH[OF sh1 len1]
  obtain e' where e': "recordMovements e1 evs = Some e'" and sh': "heatmapShape e'"
    and cap': "maxHistorySize e' = maxHistorySize e1"
    and h': "movementHistory e' =
               drop (length (movementHistory e1) + length evs - maxHistorySize e1)
                 (movementHistory e1 @ map eventRecord evs)"
    by blast
  have recs: "map eventRecord (ev # evs) = ?r # map eventRecord evs"
    by (simp add: ev eventRecord_def)
  have "movementHistory e' = drop (length ?h + length (ev # evs) - ?cap) (?h @ map eventRecord (ev # evs))"
  proof (cases "length ?h + 1 > ?cap")
    case True
    then have full: "length ?h = ?cap" using Cons.prems(2) by simp
    have e1h: "movementHistory e1 = tl (?h @ [?r])" using True h1 by simp
    have A: "movementHistory e1 @ map eventRecord evs = drop 1 (?h @ ?r # map eventRecord evs)"
      unfolding e1h by (cases ?h) simp_all
    have "length (movementHistory e1) = ?cap" unfolding e1h using full by simp
    then have n1: "length (movementHistory e1) + length evs - maxHistorySize e1 = length evs"
      using cap1 by simp
    have n2: "length ?h + length (ev # evs) - ?cap = length evs + 1" using full by simp
    show ?thesis
      unfolding h' n1 n2 A recs by (simp only: drop_drop)
  next
    case False
    then have e1h: "movementHistory e1 = ?h @ [?r]" using h1 by simp
    have n: "length (movementHistory e1) + length evs - maxHistorySize e1
               = length ?h + length (ev # evs) - ?cap"
      unfolding e1h cap1 by simp
    have A: "movementHistory e1 @ map eventRecord evs = ?h @ ?r # map eventRecord evs"
      unfolding e1h by simp
    show ?thesis unfolding h' n A recs ..
  qed
  then show ?case
    using e1 e' sh' cap' cap1 by (simp add: ev)
qed

lemma constructor_shape: "heatmapShape (AIEngine g cw ch)"
  by (simp add: AIEngine_def Let_def heatmapShape_def initializeHeatmap_def list_all_length)

lemma constructor_log:
  "movementHistory (AIEngine g cw ch) = []" "maxHistorySize (AIEngine g cw ch) = 1000"
  by (simp_all add: AIEngine_def Let_def)

text \<open>
  Claim C8. On an engine as constructed (capacity 1000), after any sequence of more than
  1000 calls of \<open>recordMovement\<close> every call has returned, the log holds exactly 1000
  records, and they are the records of the last 1000 calls in their order: the log is the
  sequence of all records without its oldest \<open>N - 1000\<close>.
\<close>

theorem movement_log_keeps_latest_thousand:
  assumes "g \<noteq> 0" and "1000 < length evs"
  shows "\<exists>e'. recordMovements (AIEngine g cw ch) evs = Some e'
            \<and> length (movementHistory e') = 1000
            \<and> movementHistory e' = map eventRecord (drop (length evs - 1000) evs)
            \<and> map eventRecord evs = map eventRecord (take (length evs - 1000) evs) @ movementHistory e'"
proof -
  from recordMovements_history[OF constructor_shape, of g cw ch evs]
  obtain e' where e': "recordMovements (AIEngine g cw ch) evs = Some e'"
    and h: "movementHistory e' = drop (length evs - 1000) (map eventRecord evs)"
    by (auto simp: constructor_log)
  have "length (movementHistory e') = 1000" using assms(2) by (simp add: h)
  moreover have "movementHistory e' = map eventRecord (drop (length evs - 1000) evs)"
    by (simp add: h drop_map)
  moreover have "map eventRecord evs = map eventRecord (take (length evs - 1000) evs) @ movementHistory e'"
    unfolding h by (simp add: drop_map flip: map_append)
  ultimately show ?thesis using e' by blast
qed

text \<open>Witness for C8: 1001 movements recorded on the two by two grid leave 1000 records.\<close>

theorem movement_log_keeps_latest_thousand_witness:
  "(20 :: int) \<noteq> 0
   \<and> 1000 < length (replicate 1001 (0 :: int, Position 0 0, ''right'', noContext))
   \<and> (\<exists>e'. recordMovements (AIEngine 20 40 40) (replicate 1001 (0, Position 0 0, ''right'', noContext))
               = Some e'
          \<and> length (movementHistory e') = 1000
          \<and> movementHistory e' = replicate 1000 (movementRecordOf 0 (Position 0 0) ''right'' noContext))"
proof -
  let ?ev = "(0 :: int, Position 0 0, ''right'', noContext)"
  have g: "(20 :: int) \<noteq> 0" and n: "1000 < length (replicate 1001 ?ev)" by simp_all
  from movement_log_keeps_latest_thousand[OF g n, of 40 40]
  obtain e' where "recordMovements (AIEngine 20 40 40) (replicate 1001 ?ev) = Some e'"
    and "length (movementHistory e') = 1000"
    and "movementHistory e' = map eventRecord (drop (length (replicate 1001 ?ev) - 1000) (replicate 1001 ?ev))"
    by blast
  moreover have "map eventRecord (drop (length (replicate 1001 ?ev) - 1000) (replicate 1001 ?ev))
      = replicate 1000 (movementRecordOf 0 (Position 0 0) ''right'' noContext)"
    by (simp add: eventRecord_def)
  ultimately show ?thesis using g n by auto
qed


section \<open>Direction statistics\<close>

lemma occurrences_Cons:
  "occurrences d (r # h) = (if direction r = d then 1 else 0) + occurrences d h"
  by (simp add: occurrences_def)

lemma countDirection_step:
  "countDirection r [(''up'', a), (''down'', b), (''left'', c), (''right'', d)] =
     [(''up'', (if direction r = ''up'' then 1 else 0) + a),
      (''down'', (if direction r = ''down'' then 1 else 0) + b),
      (''left'', (if direction r = ''left'' then 1 else 0) + c),
      (''right'', (if direction r = ''right'' then 1 else 0) + d)]"
  by (simp add: countDirection_def)

lemma fold_countDirection:
  "fold countDirection h [(''up'', a), (''down'', b), (''left'', c), (''right'', d)] =
     [(''up'', a + occurrences ''up'' h), (''down'', b + occurrences ''down'' h),
      (''left'', c + occurrences ''left'' h), (''right'', d + occurrences ''right'' h)]"
proof (induction h arbitrary: a b c d)
  case Nil
  then show ?case by (simp add: occurrences_def)
next
  case (Cons r h)
  have "fold countDirection (r # h) [(''up'', a), (''down'', b), (''left'', c), (''right'', d)]
      = fold countDirection h (countDirection r [(''up'', a), (''down'', b), (''left'', c), (''right'', d)])"
    by simp
  also have "\<dots> = [(''up'', a + occurrences ''up'' (r # h)), (''down'', b + occurrences ''down'' (r # h)),
      (''left'', c + occurrences ''left'' (r # h)), (''right'', d + occurrences ''right'' (r # h))]"
    unfolding countDirection_step Cons.IH occurrences_Cons by simp
  finally show ?case .
qed

lemma analyze_long_log:
  assumes "10 \<le> length (movementHistory e)"
  defines "h \<equiv> movementHistory e"
  shows "analyzeMovementPatterns e =
     \<lparr> dominantDirections =
         sort_key (\<lambda>d. - int (occurrences d h))
           (filter (\<lambda>d. (of_nat (occurrences d h) :: rat) > of_nat (length h) / 4)
              [''up'', ''down'', ''left'', ''right'']),
       neutralGameDuration = None,
       directionCounts = Some [(''up'', occurrences ''up'' h), (''down'', occurrences ''down'' h),
                               (''left'', occurrences ''left'' h), (''right'', occurrences ''right'' h)],
       movementDiversity =
         (of_nat (length (filter (\<lambda>d. 0 < occurrences d h) [''up'', ''down'', ''left'', ''right''])) :: rat) / 4,
       totalMovements = Some (length h) \<rparr>"
proof -
  let ?counts = "[(''up'', occurrences ''up'' h), (''down'', occurrences ''down'' h),
                  (''left'', occurrences ''left'' h), (''right'', occurrences ''right'' h)]"
  have counts: "fold countDirection (movementHistory e)
                  [(''up'', 0), (''down'', 0), (''left'', 0), (''right'', 0)] = ?counts"
    by (simp add: fold_countDirection h_def)
  have co: "countOf ?counts ''up'' = occurrences ''up'' h" "countOf ?counts ''down'' = occurrences ''down'' h"
    "countOf ?counts ''left'' = occurrences ''left'' h" "countOf ?counts ''right'' = occurrences ''right'' h"
    by (simp_all add: countOf_def)
  have keys: "map fst ?counts = [''up'', ''down'', ''left'', ''right'']" by simp
  have f: "filter (\<lambda>d. (of_nat (countOf ?counts d) :: rat) > of_nat (length h) / 4) [''up'', ''down'', ''left'', ''right'']
         = filter (\<lambda>d. (of_nat (occurrences d h) :: rat) > of_nat (length h) / 4) [''up'', ''down'', ''left'', ''right'']"
    by (rule filter_cong) (auto simp: co)
  have s: "sort_key (\<lambda>d. - int (countOf ?counts d)) xs = sort_key (\<lambda>d. - int (occurrences d h)) xs"
    if "set xs \<subseteq> {''up'', ''down'', ''left'', ''right''}" for xs
    using that
  proof (induction xs)
    case Nil then show ?case by simp
  next
    case (Cons x xs)
    have "insort_key (\<lambda>d. - int (countOf ?counts d)) x ys = insort_key (\<lambda>d. - int (occurrences d h)) x ys"
      if "set (x # ys) \<subseteq> {''up'', ''down'', ''left'', ''right''}" for ys
      using that by (induction ys) (auto simp: co)
    moreover have "set (sort_key (\<lambda>d. - int (occurrences d h)) xs) \<subseteq> {''up'', ''down'', ''left'', ''right''}"
      using Cons.prems by auto
    ultimately show ?case using Cons by simp
  qed
  have u: "length (filter (\<lambda>c. c > 0) (map snd ?counts))
         = length (filter (\<lambda>d. 0 < occurrences d h) [''up'', ''down'', ''left'', ''right''])"
    by simp
  have long: "\<not> length (movementHistory e) < 10" using assms(1) by simp
  have "analyzeMovementPatterns e =
     \<lparr> dominantDirections = sort_key (\<lambda>d. - int (countOf ?counts d))
          (filter (\<lambda>d. (of_nat (countOf ?counts d) :: rat) > of_nat (length h) / 4) (map fst ?counts)),
       neutralGameDuration = None,
       directionCounts = Some ?counts,
       movementDiversity = (of_nat (length (filter (\<lambda>c. c > 0) (map snd ?counts))) :: rat) / 4,
       totalMovements = Some (length h) \<rparr>"
    unfolding analyzeMovementPatterns_def Let_def counts
    by (simp only: long if_False h_def)
  also have "\<dots> = \<lparr> dominantDirections =
         sort_key (\<lambda>d. - int (occurrences d h))
           (filter (\<lambda>d. (of_nat (occurrences d h) :: rat) > of_nat (length h) / 4)
              [''up'', ''down'', ''left'', ''right'']),
       neutralGameDuration = None,
       directionCounts = Some ?counts,
       movementDiversity =
         (of_nat (length (filter (\<lambda>d. 0 < occurrences d h) [''up'', ''down'', ''left'', ''right''])) :: rat) / 4,
       totalMovements = Some (length h) \<rparr>"
    unfolding keys f u by (subst s) auto
  finally show ?thesis .
qed

lemma occurrences_directions:
  "occurrences d h = length (filter (\<lambda>x. x = d) (map direction h))"
  by (simp add: occurrences_def filter_map comp_def)

text \<open>
  Claim C9. With at least ten records in the log, \<open>movementDiversity\<close> is the number of
  the four directions that occur at least once, divided by 4, and \<open>dominantDirections\<close>
  holds exactly the directions whose count exceeds a quarter of the log's length, each once,
  in descending order of count (among equal counts in the order up, down, left, right). With
  fewer than ten records the result has no dominant direction and diversity 0. A log of 25
  movements 'right' followed by 5 'down' gives \<open>['right']\<close>, the counts
  \<open>{up: 0, down: 5, left: 0, right: 25}\<close> and diversity 0.5.
\<close>

theorem analyzeMovementPatterns_statistics:
  "(10 \<le> length (movementHistory e) \<longrightarrow>
      movementDiversity (analyzeMovementPatterns e) =
        (of_nat (length (filter (\<lambda>d. 0 < occurrences d (movementHistory e))
                          [''up'', ''down'', ''left'', ''right''])) :: rat) / 4
    \<and> dominantDirections (analyzeMovementPatterns e) =
        sort_key (\<lambda>d. - int (occurrences d (movementHistory e)))
          (filter (\<lambda>d. (of_nat (occurrences d (movementHistory e)) :: rat)
                          > of_nat (length (movementHistory e)) / 4)
             [''up'', ''down'', ''left'', ''right''])
    \<and> set (dominantDirections (analyzeMovementPatterns e)) =
        {d \<in> {''up'', ''down'', ''left'', ''right''}.
           (of_nat (occurrences d (movementHistory e)) :: rat) > of_nat (length (movementHistory e)) / 4}
    \<and> distinct (dominantDirections (analyzeMovementPatterns e))
    \<and> sorted_wrt (\<lambda>d d'. occurrences d (movementHistory e) \<ge> occurrences d' (movementHistory e))
         (dominantDirections (analyzeMovementPatterns e)))
   \<and> (length (movementHistory e) < 10 \<longrightarrow>
        dominantDirections (analyzeMovementPatterns e) = []
      \<and> movementDiversity (analyzeMovementPatterns e) = 0)
   \<and> (map direction (movementHistory e) = replicate 25 ''right'' @ replicate 5 ''down'' \<longrightarrow>
        dominantDirections (analyzeMovementPatterns e) = [''right'']
      \<and> directionCounts (analyzeMovementPatterns e)
          = Some [(''up'', 0), (''down'', 5), (''left'', 0), (''right'', 25)]
      \<and> movementDiversity (analyzeMovementPatterns e) = 1 / 2)"
proof (intro conjI impI)
  let ?h = "movementHistory e"
  let ?dom = "sort_key (\<lambda>d. - int (occurrences d ?h))
          (filter (\<lambda>d. (of_nat (occurrences d ?h) :: rat) > of_nat (length ?h) / 4)
             [''up'', ''down'', ''left'', ''right''])"
  assume long: "10 \<le> length ?h"
  note a = analyze_long_log[OF long]
  show "movementDiversity (analyzeMovementPatterns e) =
        (of_nat (length (filter (\<lambda>d. 0 < occurrences d ?h) [''up'', ''down'', ''left'', ''right''])) :: rat) / 4"
    by (simp only: a analysis.simps)
  show d: "dominantDirections (analyzeMovementPatterns e) = ?dom"
    by (simp only: a analysis.simps)
  show "set (dominantDirections (analyzeMovementPatterns e)) =
        {d \<in> {''up'', ''down'', ''left'', ''right''}.
           (of_nat (occurrences d ?h) :: rat) > of_nat (length ?h) / 4}"
    unfolding d by auto
  show "distinct (dominantDirections (analyzeMovementPatterns e))"
    unfolding d by simp
  have "sorted (map (\<lambda>d. - int (occurrences d ?h)) ?dom)"
    by (rule sorted_sort_key)
  then show "sorted_wrt (\<lambda>d d'. occurrences d ?h \<ge> occurrences d' ?h)
         (dominantDirections (analyzeMovementPatterns e))"
    unfolding d sorted_map by simp
next
  assume "length (movementHistory e) < 10"
  then show "dominantDirections (analyzeMovementPatterns e) = []"
    and "movementDiversity (analyzeMovementPatterns e) = 0"
    by (simp_all add: analyzeMovementPatterns_def)
next
  let ?h = "movementHistory e"
  assume dirs: "map direction ?h = replicate 25 ''right'' @ replicate 5 ''down''"
  have "length (map direction ?h) = 30" unfolding dirs by simp
  then have len: "length ?h = 30" by simp
  have occ: "occurrences ''up'' ?h = 0" "occurrences ''down'' ?h = 5"
    "occurrences ''left'' ?h = 0" "occurrences ''right'' ?h = 25"
    unfolding occurrences_directions dirs by simp_all
  have long: "10 \<le> length ?h" using len by simp
  note a = analyze_long_log[OF long]
  show "dominantDirections (analyzeMovementPatterns e) = [''right'']"
    by (simp add: a occ len)
  show "directionCounts (analyzeMovementPatterns e)
          = Some [(''up'', 0), (''down'', 5), (''left'', 0), (''right'', 25)]"
    by (simp add: a occ)
  show "movementDiversity (analyzeMovementPatterns e) = 1 / 2"
    by (simp add: a occ)
qed

lemma rightThenDown_directions:
  "map direction (map eventRecord rightThenDown) = replicate 25 ''right'' @ replicate 5 ''down''"
  by (simp add: rightThenDown_def eventRecord_def movementRecordOf_def comp_def map_replicate_const)

text \<open>
  Witness for C9 on a grid of thirty by thirty cells: the constructed engine has a short log
  and the neutral result; after the thirty movements of \<open>rightThenDown\<close> are recorded the
  analysis is that of the claim's example.
\<close>

theorem analyzeMovementPatterns_statistics_witness:
  "length (movementHistory (AIEngine 20 600 600)) < 10
   \<and> dominantDirections (analyzeMovementPatterns (AIEngine 20 600 600)) = []
   \<and> movementDiversity (analyzeMovementPatterns (AIEngine 20 600 600)) = 0
   \<and> (\<exists>e'. recordMovements (AIEngine 20 600 600) rightThenDown = Some e'
          \<and> 10 \<le> length (movementHistory e')
          \<and> map direction (movementHistory e') = replicate 25 ''right'' @ replicate 5 ''down''
          \<and> dominantDirections (analyzeMovementPatterns e') = [''right'']
          \<and> directionCounts (analyzeMovementPatterns e')
              = Some [(''up'', 0), (''down'', 5), (''left'', 0), (''right'', 25)]
          \<and> movementDiversity (analyzeMovementPatterns e') = 1 / 2
          \<and> sorted_wrt (\<lambda>d d'. occurrences d (movementHistory e') \<ge> occurrences d' (movementHistory e'))
               (dominantDirections (analyzeMovementPatterns e')))"
proof -
  let ?e = "AIEngine 20 600 600"
  have short: "length (movementHistory ?e) < 10" by (simp add: constructor_log)
  then have "dominantDirections (analyzeMovementPatterns ?e) = []
      \<and> movementDiversity (analyzeMovementPatterns ?e) = 0"
    using analyzeMovementPatterns_statistics[of ?e] by blast
  moreover
  from recordMovements_history[OF constructor_shape, of 20 600 600 rightThenDown]
  obtain e' where e': "recordMovements ?e rightThenDown = Some e'"
    and h: "movementHistory e' = map eventRecord rightThenDown"
    by (auto simp: constructor_log rightThenDown_def)
  have dirs: "map direction (movementHistory e') = replicate 25 ''right'' @ replicate 5 ''down''"
    unfolding h by (rule rightThenDown_directions)
  have "length (map direction (movementHistory e')) = 30" unfolding dirs by simp
  then have long: "10 \<le> length (movementHistory e')" by simp
  have "dominantDirections (analyzeMovementPatterns e') = [''right'']
      \<and> directionCounts (analyzeMovementPatterns e')
          = Some [(''up'', 0), (''down'', 5), (''left'', 0), (''right'', 25)]
      \<and> movementDiversity (analyzeMovementPatterns e') = 1 / 2
      \<and> sorted_wrt (\<lambda>d d'. occurrences d (movementHistory e') \<ge> occurrences d' (movementHistory e'))
           (dominantDirections (analyzeMovementPatterns e'))"
    using analyzeMovementPatterns_statistics[of e'] dirs long by blast
  ultimately show ?thesis using short e' long dirs by blast
qed

section \<open>The normalised heatmap\<close>

lemma readCell_shape:
  assumes "heatmapShape e" and "r < nat (gridHeight e)" and "c < nat (gridWidth e)"
  shows "readCell (movementHeatmap e) r c = Some (movementHeatmap e ! r ! c)"
  using assms shape_row[OF assms(1,2)] by (simp add: readCell_def heatmapShape_def)

lemma maxOverRow_Some:
  assumes "\<And>c. c \<in> set cs \<Longrightarrow> readCell hm r c = Some (hm ! r ! c)"
  shows "maxOverRow hm r cs m = Some (fold (\<lambda>c m. max m (hm ! r ! c)) cs m)"
  using assms by (induction cs arbitrary: m) simp_all

lemma fold_max_indices:
  "fold (\<lambda>c m. max m (row ! c)) [0..<length row] m = fold max row (m :: int)"
proof -
  have "(\<lambda>c m. max m (row ! c)) = max \<circ> nth row"
    by (auto simp: fun_eq_iff max.commute)
  then have "fold (\<lambda>c m. max m (row ! c)) [0..<length row] m = fold max (map (nth row) [0..<length row]) m"
    by (simp add: fold_map)
  then show ?thesis by (simp add: map_nth)
qed

lemma maxOverGrid_Some:
  assumes "\<And>r c. r \<in> set rs \<Longrightarrow> c < w \<Longrightarrow> readCell hm r c = Some (hm ! r ! c)"
    and "\<And>r. r \<in> set rs \<Longrightarrow> length (hm ! r) = w"
  shows "maxOverGrid hm w rs m = Some (fold (\<lambda>r m. fold max (hm ! r) m) rs m)"
  using assms
proof (induction rs arbitrary: m)
  case Nil
  then show ?case by simp
next
  case (Cons r rs)
  have "maxOverRow hm r [0..<w] m = Some (fold (\<lambda>c m. max m (hm ! r ! c)) [0..<w] m)"
    by (rule maxOverRow_Some) (simp add: Cons.prems(1))
  also have "fold (\<lambda>c m. max m (hm ! r ! c)) [0..<w] m = fold max (hm ! r) m"
    using fold_max_indices[of "hm ! r" m] Cons.prems(2)[of r] by simp
  finally have row: "maxOverRow hm r [0..<w] m = Some (fold max (hm ! r) m)" .
  have "maxOverGrid hm w rs (fold max (hm ! r) m)
          = Some (fold (\<lambda>r m. fold max (hm ! r) m) rs (fold max (hm ! r) m))"
    by (rule Cons.IH) (simp_all add: Cons.prems)
  then show ?case by (simp add: row)
qed

lemma fold_over_concat: "fold f (concat xss) m = fold (fold f) xss m"
  by (induction xss arbitrary: m) simp_all

lemma fold_rows_indices:
  "fold (\<lambda>r m. fold max (hm ! r) m) [0..<length hm] m = fold max (concat hm) (m :: int)"
proof -
  have "(\<lambda>r m. fold max (hm ! r) m) = fold max \<circ> nth hm"
    by (auto simp: fun_eq_iff)
  then have "fold (\<lambda>r m. fold max (hm ! r) m) [0..<length hm] m
               = fold (fold max) (map (nth hm) [0..<length hm]) m"
    by (simp add: fold_map)
  then show ?thesis by (simp add: map_nth fold_over_concat)
qed

lemma fold_max_Max: "fold max xs (m :: int) = Max (insert m (set xs))"
  using Max.set_eq_fold[of m xs] by simp

lemma maxOverGrid_shape:
  assumes sh: "heatmapShape e"
  shows "maxOverGrid (movementHeatmap e) (nat (gridWidth e)) [0..<nat (gridHeight e)] 0
           = Some (Max (insert 0 (set (concat (movementHeatmap e)))))"
proof -
  let ?hm = "movementHeatmap e"
  have len: "length ?hm = nat (gridHeight e)" using sh by (simp add: heatmapShape_def)
  have "maxOverGrid ?hm (nat (gridWidth e)) [0..<nat (gridHeight e)] 0
          = Some (fold (\<lambda>r m. fold max (?hm ! r) m) [0..<nat (gridHeight e)] 0)"
    by (rule maxOverGrid_Some) (simp_all add: readCell_shape[OF sh] shape_row[OF sh])
  then show ?thesis
    using fold_rows_indices[of ?hm 0] by (simp add: len fold_max_Max)
qed

lemma those_map_Some: "those (map (\<lambda>x. Some (f x)) xs) = Some (map f xs)"
  by (induction xs) simp_all

lemma normalizeRow_shape:
  assumes sh: "heatmapShape e" and r: "r < nat (gridHeight e)"
  shows "normalizeRow (movementHeatmap e) M (nat (gridWidth e)) r
           = Some (map (\<lambda>v. if 0 < M then of_int v / of_int M else 0) (movementHeatmap e ! r))"
proof -
  let ?hm = "movementHeatmap e" and ?w = "nat (gridWidth e)"
  let ?f = "\<lambda>v. if 0 < M then (of_int v :: rat) / of_int M else 0"
  have eq: "map (\<lambda>c. if M > 0 then map_option (\<lambda>v. of_int v / of_int M) (readCell ?hm r c) else Some 0) [0..<?w]
      = map (\<lambda>c. Some (?f (?hm ! r ! c))) [0..<?w]"
    by (rule map_cong) (auto simp: readCell_shape[OF sh r])
  have "normalizeRow ?hm M ?w r = Some (map (\<lambda>c. ?f (?hm ! r ! c)) [0..<?w])"
    by (simp only: normalizeRow_def eq those_map_Some)
  also have "map (\<lambda>c. ?f (?hm ! r ! c)) [0..<?w] = map ?f (map (nth (?hm ! r)) [0..<length (?hm ! r)])"
    by (simp add: shape_row[OF sh r])
  finally show ?thesis by (simp only: map_nth)
qed

lemma generateHeatmap_shape:
  assumes sh: "heatmapShape e"
  defines "M \<equiv> Max (insert 0 (set (concat (movementHeatmap e))))"
  shows "generateHeatmap e =
           Some (map (map (\<lambda>v. if 0 < M then of_int v / of_int M else 0)) (movementHeatmap e))"
proof -
  let ?hm = "movementHeatmap e" and ?h = "nat (gridHeight e)"
  let ?f = "\<lambda>v. if 0 < M then (of_int v :: rat) / of_int M else 0"
  have len: "length ?hm = ?h" using sh by (simp add: heatmapShape_def)
  have eq: "map (normalizeRow ?hm M (nat (gridWidth e))) [0..<?h]
      = map (\<lambda>r. Some (map ?f (?hm ! r))) [0..<?h]"
    by (rule map_cong) (simp_all add: normalizeRow_shape[OF sh])
  have "those (map (normalizeRow ?hm M (nat (gridWidth e))) [0..<?h])
      = Some (map (\<lambda>r. map ?f (?hm ! r)) [0..<?h])"
    by (simp only: eq those_map_Some)
  also have "map (\<lambda>r. map ?f (?hm ! r)) [0..<?h] = map (map ?f) (map (nth ?hm) [0..<length ?hm])"
    by (simp add: len)
  finally have "those (map (normalizeRow ?hm M (nat (gridWidth e))) [0..<?h]) = Some (map (map ?f) ?hm)"
    by (simp only: map_nth)
  then show ?thesis
    unfolding generateHeatmap_def Let_def maxOverGrid_shape[OF sh] M_def[symmetric] by simp
qed

lemma cellsNonNegative_concat: "cellsNonNegative hm = (\<forall>v \<in> set (concat hm). 0 \<le> v)"
  by (auto simp: cellsNonNegative_def list_all_iff)

text \<open>
  Claim C10. For a heatmap of the constructed shape whose counters are non-negative,
  \<open>generateHeatmap\<close> returns a matrix of the same shape in which every cell is the counter
  divided by the largest counter (0 when every counter is 0, with no division); every value
  lies between 0 and 1; an all-zero heatmap gives all zeros; and with at least one non-zero
  counter the largest value of the result is exactly 1.
\<close>

theorem generateHeatmap_normalised:
  assumes sh: "heatmapShape e" and nn: "cellsNonNegative (movementHeatmap e)"
  shows "\<exists>n. generateHeatmap e = Some n
          \<and> length n = length (movementHeatmap e)
          \<and> (\<forall>r < length (movementHeatmap e). length (n ! r) = length (movementHeatmap e ! r))
          \<and> (\<forall>r < length (movementHeatmap e). \<forall>c < length (movementHeatmap e ! r).
                n ! r ! c =
                  (if 0 < Max (insert 0 (set (concat (movementHeatmap e))))
                   then of_int (movementHeatmap e ! r ! c)
                          / of_int (Max (insert 0 (set (concat (movementHeatmap e)))))
                   else 0))
          \<and> (\<forall>v \<in> set (concat n). 0 \<le> v \<and> v \<le> 1)
          \<and> ((\<forall>v \<in> set (concat (movementHeatmap e)). v = 0) \<longrightarrow> (\<forall>v \<in> set (concat n). v = 0))
          \<and> ((\<exists>v \<in> set (concat (movementHeatmap e)). v \<noteq> 0) \<longrightarrow> Max (set (concat n)) = 1)"
proof -
  let ?hm = "movementHeatmap e"
  define S where "S = set (concat ?hm)"
  define M where "M = Max (insert 0 S)"
  define f where "f = (\<lambda>v. if 0 < M then (of_int v :: rat) / of_int M else 0)"
  define n where "n = map (map f) ?hm"
  define N where "N = set (concat n)"
  have fin: "finite S" by (simp add: S_def)
  have gen: "generateHeatmap e = Some n"
    using generateHeatmap_shape[OF sh] by (simp only: n_def f_def M_def S_def)
  have "concat n = map f (concat ?hm)"
    unfolding n_def by (simp only: map_concat)
  then have cells: "N = f ` S"
    unfolding N_def S_def by (simp only: set_map)
  have upper: "v \<le> M" if "v \<in> S" for v
    unfolding M_def using that fin by (intro Max_ge) blast+
  have lower: "0 \<le> v" if "v \<in> S" for v
    using nn that unfolding cellsNonNegative_concat S_def by blast
  have range: "0 \<le> f v \<and> f v \<le> 1" if "v \<in> S" for v
  proof (cases "0 < M")
    case True
    have "(of_int v :: rat) \<le> of_int M" using upper[OF that] by simp
    moreover have "(0 :: rat) \<le> of_int v" using lower[OF that] by simp
    moreover have "(0 :: rat) < of_int M" using True by simp
    ultimately have "0 \<le> (of_int v :: rat) / of_int M \<and> (of_int v :: rat) / of_int M \<le> 1"
      by (simp add: pos_divide_le_eq)
    then show ?thesis using True by (simp add: f_def)
  next
    case False
    then show ?thesis by (simp add: f_def)
  qed
  have zero: "\<forall>v \<in> N. v = 0" if "\<forall>v \<in> S. v = 0"
  proof -
    have "insert 0 S = {0}" using that by blast
    then have "M = Max {0}" unfolding M_def by (rule arg_cong)
    then have "M = 0" by simp
    then have "f v = 0" for v by (simp add: f_def)
    then show ?thesis unfolding cells by blast
  qed
  have one: "Max N = 1" if "\<exists>v \<in> S. v \<noteq> 0"
  proof -
    from that obtain v where v: "v \<in> S" "v \<noteq> 0" by blast
    then have "0 < v" using lower[of v] by simp
    then have pos: "0 < M" using upper[OF v(1)] by simp
    have "M \<in> insert 0 S"
      unfolding M_def using fin by (intro Max_in) blast+
    then have "M \<in> S" using pos by blast
    then have "f M \<in> N" unfolding cells by (rule imageI)
    moreover have "f M = 1" using pos by (simp add: f_def)
    ultimately have "1 \<in> N" by simp
    moreover have "\<And>x. x \<in> N \<Longrightarrow> x \<le> 1"
      using range unfolding cells by blast
    moreover have "finite N" unfolding cells using fin by blast
    ultimately show ?thesis by (intro Max_eqI)
  qed
  have cell: "n ! r ! c = (if 0 < M then of_int (?hm ! r ! c) / of_int M else 0)"
    if "r < length ?hm" "c < length (?hm ! r)" for r c
    using that by (simp add: n_def f_def)
  show ?thesis
  proof (intro exI[of _ n] conjI)
    show "generateHeatmap e = Some n" by (rule gen)
    show "length n = length ?hm" by (simp add: n_def)
    show "\<forall>r < length ?hm. length (n ! r) = length (?hm ! r)" by (simp add: n_def)
    have "\<forall>r < length ?hm. \<forall>c < length (?hm ! r).
            n ! r ! c = (if 0 < M then of_int (?hm ! r ! c) / of_int M else 0)"
      using cell by blast
    then show "\<forall>r < length ?hm. \<forall>c < length (?hm ! r).
            n ! r ! c = (if 0 < Max (insert 0 (set (concat ?hm)))
                   then of_int (?hm ! r ! c) / of_int (Max (insert 0 (set (concat ?hm))))
                   else 0)"
      unfolding M_def S_def .
    have "\<forall>v \<in> N. 0 \<le> v \<and> v \<le> 1"
      unfolding cells using range by blast
    then show "\<forall>v \<in> set (concat n). 0 \<le> v \<and> v \<le> 1"
      unfolding N_def .
    have "(\<forall>v \<in> S. v = 0) \<longrightarrow> (\<forall>v \<in> N. v = 0)"
      using zero by blast
    then show "(\<forall>v \<in> set (concat ?hm). v = 0) \<longrightarrow> (\<forall>v \<in> set (concat n). v = 0)"
      unfolding N_def S_def .
    have "(\<exists>v \<in> S. v \<noteq> 0) \<longrightarrow> Max N = 1"
      using one by blast
    then show "(\<exists>v \<in> set (concat ?hm). v \<noteq> 0) \<longrightarrow> Max (set (concat n)) = 1"
      unfolding N_def S_def .
  qed
qed

text \<open>The two by two engine with the counters 2, 0, 1, 0.\<close>

lemma visited_shape:
  "heatmapShape ((AIEngine 20 40 40)\<lparr>movementHeatmap := [[2, 0], [1, 0]]\<rparr>)"
  "cellsNonNegative (movementHeatmap ((AIEngine 20 40 40)\<lparr>movementHeatmap := [[2, 0], [1, 0]]\<rparr>))"
  by (simp_all add: small_engine heatmapShape_def cellsNonNegative_def)

text \<open>
  Witness for C10: the constructed two by two engine normalises to zeros; with the counters
  2, 0, 1, 0 the result holds 1, 1/2 and 0 at the cells read, and its largest value is 1.
\<close>

theorem generateHeatmap_normalised_witness:
  "heatmapShape (AIEngine 20 40 40) \<and> cellsNonNegative (movementHeatmap (AIEngine 20 40 40))
   \<and> (\<exists>n. generateHeatmap (AIEngine 20 40 40) = Some n \<and> length n = 2
          \<and> list_all (\<lambda>v. v = 0) (concat n))
   \<and> (\<exists>n. generateHeatmap ((AIEngine 20 40 40)\<lparr>movementHeatmap := [[2, 0], [1, 0]]\<rparr>) = Some n
          \<and> length n = 2 \<and> n ! 0 ! 0 = 1 \<and> n ! 1 ! 0 = 1 / 2 \<and> n ! 1 ! 1 = 0
          \<and> Max (set (concat n)) = 1)"
proof -
  let ?z = "AIEngine 20 40 40"
  let ?v = "(AIEngine 20 40 40)\<lparr>movementHeatmap := [[2, 0], [1, 0]]\<rparr>"
  have zs: "heatmapShape ?z" and zn: "cellsNonNegative (movementHeatmap ?z)"
    by (simp_all add: small_engine heatmapShape_def cellsNonNegative_def)
  have zhm: "movementHeatmap ?z = [[0, 0], [0, 0]]" by (simp add: small_engine)
  have vhm: "movementHeatmap ?v = [[2, 0], [1, 0]]" by simp
  from generateHeatmap_normalised[OF zs zn]
  obtain n where n: "generateHeatmap ?z = Some n" "length n = length (movementHeatmap ?z)"
    and z: "(\<forall>v \<in> set (concat (movementHeatmap ?z)). v = 0) \<longrightarrow> (\<forall>v \<in> set (concat n). v = 0)"
    by blast
  have first: "\<exists>n. generateHeatmap ?z = Some n \<and> length n = 2 \<and> list_all (\<lambda>v. v = 0) (concat n)"
    using n z by (auto simp: zhm list_all_iff)
  from generateHeatmap_normalised[OF visited_shape]
  have second: "\<exists>n. generateHeatmap ?v = Some n
          \<and> length n = 2 \<and> n ! 0 ! 0 = 1 \<and> n ! 1 ! 0 = 1 / 2 \<and> n ! 1 ! 1 = 0
          \<and> Max (set (concat n)) = 1"
  proof (elim exE conjE)
    fix m
    assume m: "generateHeatmap ?v = Some m" and len: "length m = length (movementHeatmap ?v)"
      and c: "\<forall>r < length (movementHeatmap ?v). \<forall>c < length (movementHeatmap ?v ! r).
                m ! r ! c =
                  (if 0 < Max (insert 0 (set (concat (movementHeatmap ?v))))
                   then of_int (movementHeatmap ?v ! r ! c)
                          / of_int (Max (insert 0 (set (concat (movementHeatmap ?v)))))
                   else 0)"
      and mx: "(\<exists>v \<in> set (concat (movementHeatmap ?v)). v \<noteq> 0) \<longrightarrow> Max (set (concat m)) = 1"
    have M: "Max (insert 0 (set (concat (movementHeatmap ?v)))) = 2"
      unfolding vhm by simp
    have c': "m ! r ! c = of_int ([[2, 0], [1, 0]] ! r ! c) / 2" if "r < 2" "c < 2" for r c
    proof -
      have "r < length (movementHeatmap ?v)" using that unfolding vhm by simp
      moreover have "c < length (movementHeatmap ?v ! r)"
      proof -
        have "r = 0 \<or> r = 1" using that(1) by auto
        then show ?thesis using that(2) unfolding vhm by auto
      qed
      ultimately have "m ! r ! c =
                  (if 0 < Max (insert 0 (set (concat (movementHeatmap ?v))))
                   then of_int (movementHeatmap ?v ! r ! c)
                          / of_int (Max (insert 0 (set (concat (movementHeatmap ?v)))))
                   else 0)"
        using c by blast
      then show ?thesis unfolding M unfolding vhm by simp
    qed
    have "m ! 0 ! 0 = 1" "m ! 1 ! 0 = 1 / 2" "m ! 1 ! 1 = 0"
      using c'[of 0 0] c'[of 1 0] c'[of 1 1] by simp_all
    moreover have "Max (set (concat m)) = 1" using mx unfolding vhm by simp
    moreover have "length m = 2" using len unfolding vhm by simp
    ultimately show ?thesis using m by blast
  qed
  show ?thesis using zs zn first second by blast
qed

section \<open>Food placement and the exclusion list\<close>
















end
